theory Spec2Isabelle
  imports Complex_Main "HOL-Library.AList" "HOL-Library.Product_Lexorder"
    "HOL-Library.List_Lexorder" "HOL-Library.Char_ord" "HOL-Library.Multiset"
begin

section \<open>Hybrid aggregation engine of the TSDB controller\<close>

text \<open>
  The development follows \<^verbatim>\<open>src/hive/src/controllers/tsdb.controller.ts\<close>.
  A JavaScript \<^verbatim>\<open>Date\<close> is its \<^verbatim>\<open>getTime()\<close> value: an integer number of
  milliseconds since the epoch; where a property depends on what the database holds
  beyond that, a \<^verbatim>\<open>timestamptz\<close> column is an integer number of microseconds.
  A JavaScript number that holds a count is an \<open>int\<close>;
  one that holds a cost, a latency or a ratio is a \<open>real\<close> (the rounding of IEEE
  doubles is not modelled). A value that \<^verbatim>\<open>parseInt\<close> or \<^verbatim>\<open>parseFloat\<close> reads as
  \<^verbatim>\<open>NaN\<close> (an undefined field, an unreadable string) is \<open>None\<close>.
\<close>

subsection \<open>Window partitioner (the \<^verbatim>\<open>/logs\<close> handler, lines 238 to 266)\<close>

definition DAY_MS :: int where
  "DAY_MS = 24 * 60 * 60 * 1000"

text \<open>\<^verbatim>\<open>setUTCHours(0, 0, 0, 0)\<close>: the start of the UTC day that holds \<open>d\<close>.\<close>

definition utcDayStart :: "int \<Rightarrow> int" where
  "utcDayStart d = d - d mod DAY_MS"

definition addUtcDays :: "int \<Rightarrow> int \<Rightarrow> int" where
  "addUtcDays d days = d + days * 24 * 60 * 60 * 1000"

definition fullBucketStart :: "int \<Rightarrow> int" where
  "fullBucketStart startDate =
     (if startDate = utcDayStart startDate then utcDayStart startDate
      else addUtcDays (utcDayStart startDate) 1)"

definition fullBucketEnd :: "int \<Rightarrow> int" where
  "fullBucketEnd endDate = utcDayStart endDate"

definition hasFullBuckets :: "int \<Rightarrow> int \<Rightarrow> bool" where
  "hasFullBuckets startDate endDate \<longleftrightarrow> fullBucketStart startDate < fullBucketEnd endDate"

text \<open>
  \<^verbatim>\<open>pushRange\<close> appends to the array \<^verbatim>\<open>partialRanges\<close>, which is passed and
  returned here; a range is the pair of its \<^verbatim>\<open>start\<close> and \<^verbatim>\<open>end\<close>.
\<close>

definition pushRange :: "(int \<times> int) list \<Rightarrow> int \<Rightarrow> int \<Rightarrow> (int \<times> int) list" where
  "pushRange ranges rangeStart rangeEnd =
     (if rangeEnd \<le> rangeStart then ranges else ranges @ [(rangeStart, rangeEnd)])"

definition partialRanges :: "int \<Rightarrow> int \<Rightarrow> (int \<times> int) list" where
  "partialRanges startDate endDate =
     pushRange
       (pushRange [] startDate (min endDate (fullBucketStart startDate)))
       (max startDate (fullBucketEnd endDate)) endDate"

text \<open>A range read as the half-open interval of instants the specification means by it.\<close>

definition range_set :: "int \<times> int \<Rightarrow> int set" where
  "range_set r = {fst r ..< snd r}"

text \<open>No two entries of a list of sets, at different positions, share an element.\<close>

fun pairwise_disjoint :: "int set list \<Rightarrow> bool" where
  "pairwise_disjoint [] \<longleftrightarrow> True"
| "pairwise_disjoint (A # As) \<longleftrightarrow> list_all (\<lambda>B. A \<inter> B = {}) As \<and> pairwise_disjoint As"

text \<open>The full-bucket range followed by the partial ranges, as the handler computes them.\<close>

definition window_ranges :: "int \<Rightarrow> int \<Rightarrow> (int \<times> int) list" where
  "window_ranges startDate endDate =
     (fullBucketStart startDate, fullBucketEnd endDate) # partialRanges startDate endDate"

subsection \<open>Which fetch counts an event\<close>

text \<open>
  \<^verbatim>\<open>getBaseAggData\<close> returns nothing for an empty range and otherwise aggregates the
  events with \<^verbatim>\<open>"timestamp" >= $1 AND "timestamp" <= $2\<close>.
\<close>

definition base_counts :: "int \<times> int \<Rightarrow> int \<Rightarrow> bool" where
  "base_counts r t \<longleftrightarrow> \<not> snd r \<le> fst r \<and> fst r \<le> t \<and> t \<le> snd r"

text \<open>
  Modelled from the spec: the definition of the rollup tables
  (\<^verbatim>\<open>llm_events_daily_by_model_ca\<close>, \<^verbatim>\<open>llm_events_daily_by_agent_ca\<close>) is not
  in the sources. By the specification a rollup row's \<^verbatim>\<open>bucket\<close> is a UTC day start
  and the row aggregates the events whose timestamp lies in that day.
\<close>

definition bucket_of :: "int \<Rightarrow> int" where
  "bucket_of t = utcDayStart t"

text \<open>The rollup fetch keeps the rows with \<^verbatim>\<open>bucket >= $1 AND bucket < $2\<close>.\<close>

definition ca_counts :: "int \<Rightarrow> int \<Rightarrow> int \<Rightarrow> bool" where
  "ca_counts fbStart fbEnd t \<longleftrightarrow> fbStart \<le> bucket_of t \<and> bucket_of t < fbEnd"

text \<open>
  How many of the fetches of the hybrid path count an event at instant \<open>t\<close>: one
  \<^verbatim>\<open>getBaseAggData\<close> call per partial range, and the rollup fetch when
  \<^verbatim>\<open>hasFullBuckets\<close> holds.
\<close>

definition hybrid_contributions :: "int \<Rightarrow> int \<Rightarrow> int \<Rightarrow> nat" where
  "hybrid_contributions startDate endDate t =
     length (filter (\<lambda>r. base_counts r t) (partialRanges startDate endDate))
     + (if hasFullBuckets startDate endDate
           \<and> ca_counts (fullBucketStart startDate) (fullBucketEnd endDate) t
        then 1 else 0)"

subsection \<open>Period comparison (the \<^verbatim>\<open>/metrics\<close> handler, lines 610 to 778)\<close>

text \<open>
  A \<^verbatim>\<open>MetricRow\<close> of the metrics query, one per period. A field holds what
  \<^verbatim>\<open>parseInt\<close> (the counts) or \<^verbatim>\<open>parseFloat\<close> (the others) reads from it, and
  is \<open>None\<close> when that is \<^verbatim>\<open>NaN\<close>: the field is undefined (the period has no
  row, and the handler uses \<^verbatim>\<open>{}\<close>), SQL \<^verbatim>\<open>NULL\<close>, or unreadable.
\<close>

record MetricRow =
  total_requests :: "int option"
  unique_traces :: "int option"
  unique_users :: "int option"
  total_input_tokens :: "real option"
  total_output_tokens :: "real option"
  total_tokens :: "real option"
  cached_tokens :: "real option"
  reasoning_tokens :: "real option"
  total_cost :: "real option"
  avg_latency_ms :: "real option"
  p50_latency_ms :: "real option"
  p95_latency_ms :: "real option"
  p99_latency_ms :: "real option"
  max_latency_ms :: "real option"
  streaming_requests :: "int option"

text \<open>
  The row \<^verbatim>\<open>{}\<close> that \<^verbatim>\<open>rows.find(...) || {}\<close> yields for a period without
  events: every field is undefined.
\<close>

definition missing_period_row :: MetricRow where
  "missing_period_row =
     \<lparr>total_requests = None, unique_traces = None, unique_users = None,
      total_input_tokens = None, total_output_tokens = None, total_tokens = None,
      cached_tokens = None, reasoning_tokens = None, total_cost = None,
      avg_latency_ms = None, p50_latency_ms = None, p95_latency_ms = None,
      p99_latency_ms = None, max_latency_ms = None, streaming_requests = None\<rparr>"

text \<open>\<^verbatim>\<open>parseFloat(val) || 0\<close> and \<^verbatim>\<open>parseInt(val) || 0\<close>.\<close>

definition num :: "real option \<Rightarrow> real" where
  "num val = (case val of None \<Rightarrow> 0 | Some x \<Rightarrow> x)"

definition int' :: "int option \<Rightarrow> int" where
  "int' val = (case val of None \<Rightarrow> 0 | Some n \<Rightarrow> n)"

text \<open>What \<^verbatim>\<open>parseFloat\<close> reads from a count field.\<close>

definition count_as_float :: "int option \<Rightarrow> real option" where
  "count_as_float val = map_option real_of_int val"

definition pctChange :: "real option \<Rightarrow> real option \<Rightarrow> real" where
  "pctChange currVal prevVal =
     (let c = num currVal; p = num prevVal
      in if p = 0 then (if c > 0 then 100 else 0)
         else ((c - p) / p) * 100)"

text \<open>
  The derived ratios. The handler writes each one twice, for the current and for the
  previous row, with the same expression.
\<close>

definition cacheHitRate :: "MetricRow \<Rightarrow> real" where
  "cacheHitRate r =
     (if num (total_input_tokens r) > 0
      then (num (cached_tokens r) / num (total_input_tokens r)) * 100 else 0)"

definition streamingRate :: "MetricRow \<Rightarrow> real" where
  "streamingRate r =
     (if int' (total_requests r) > 0
      then (real_of_int (int' (streaming_requests r)) / real_of_int (int' (total_requests r))) * 100
      else 0)"

definition avgCallsPerTrace :: "MetricRow \<Rightarrow> real" where
  "avgCallsPerTrace r =
     (if int' (unique_traces r) > 0
      then real_of_int (int' (total_requests r)) / real_of_int (int' (unique_traces r))
      else 0)"

definition costPer1kTokens :: "MetricRow \<Rightarrow> real" where
  "costPer1kTokens r =
     (if num (total_tokens r) > 0
      then num (total_cost r) / (num (total_tokens r) / 1000) else 0)"

definition avgTokensPerRequest :: "MetricRow \<Rightarrow> real" where
  "avgTokensPerRequest r =
     (if int' (total_requests r) > 0
      then num (total_tokens r) / real_of_int (int' (total_requests r)) else 0)"

definition avgCostPerRequest :: "MetricRow \<Rightarrow> real" where
  "avgCostPerRequest r =
     (if int' (total_requests r) > 0
      then num (total_cost r) / real_of_int (int' (total_requests r)) else 0)"

text \<open>
  The two operands of \<^verbatim>\<open>pctChange\<close> for every metric of the response, in the order
  of the \<^verbatim>\<open>metrics\<close> object: a field of the two rows, or a derived ratio of each.
\<close>

definition metric_operands ::
  "MetricRow \<Rightarrow> MetricRow \<Rightarrow> (string \<times> real option \<times> real option) list" where
  "metric_operands current previous =
     [(''total_requests'',
         count_as_float (total_requests current), count_as_float (total_requests previous)),
      (''unique_traces'',
         count_as_float (unique_traces current), count_as_float (unique_traces previous)),
      (''unique_users'',
         count_as_float (unique_users current), count_as_float (unique_users previous)),
      (''avg_calls_per_trace'',
         Some (avgCallsPerTrace current), Some (avgCallsPerTrace previous)),
      (''total_input_tokens'', total_input_tokens current, total_input_tokens previous),
      (''total_output_tokens'', total_output_tokens current, total_output_tokens previous),
      (''total_tokens'', total_tokens current, total_tokens previous),
      (''cached_tokens'', cached_tokens current, cached_tokens previous),
      (''reasoning_tokens'', reasoning_tokens current, reasoning_tokens previous),
      (''cache_hit_rate'', Some (cacheHitRate current), Some (cacheHitRate previous)),
      (''avg_tokens_per_request'',
         Some (avgTokensPerRequest current), Some (avgTokensPerRequest previous)),
      (''avg_latency_ms'', avg_latency_ms current, avg_latency_ms previous),
      (''p50_latency_ms'', p50_latency_ms current, p50_latency_ms previous),
      (''p95_latency_ms'', p95_latency_ms current, p95_latency_ms previous),
      (''p99_latency_ms'', p99_latency_ms current, p99_latency_ms previous),
      (''max_latency_ms'', max_latency_ms current, max_latency_ms previous),
      (''total_cost'', total_cost current, total_cost previous),
      (''avg_cost_per_request'',
         Some (avgCostPerRequest current), Some (avgCostPerRequest previous)),
      (''cost_per_1k_tokens'',
         Some (costPer1kTokens current), Some (costPer1kTokens previous)),
      (''streaming_rate'', Some (streamingRate current), Some (streamingRate previous))]"

text \<open>The \<^verbatim>\<open>change_pct\<close> of every metric of the response.\<close>

definition metrics_change_pct :: "MetricRow \<Rightarrow> MetricRow \<Rightarrow> (string \<times> real) list" where
  "metrics_change_pct current previous =
     map (\<lambda>(name, c, p). (name, pctChange c p)) (metric_operands current previous)"

subsection \<open>Aggregation merger (\<^verbatim>\<open>mergeResults\<close>, lines 268 to 323)\<close>

text \<open>
  A row of an aggregate query. \<open>group_values row f\<close> is \<^verbatim>\<open>row[f]\<close> for a group
  field \<open>f\<close> (\<open>None\<close> when it is null or undefined); the numeric columns hold what
  \<^verbatim>\<open>parseInt\<close> and \<^verbatim>\<open>parseFloat\<close> read from them, \<open>None\<close> for \<^verbatim>\<open>NaN\<close>.
\<close>

record QueryRow =
  group_values :: "string \<Rightarrow> string option"
  request_count :: "int option"
  total_input_tokens :: "int option"
  total_output_tokens :: "int option"
  total_tokens :: "int option"
  total_cost :: "real option"
  avg_latency_ms :: "real option"
  first_seen :: int
  last_seen :: int

text \<open>
  A \<^verbatim>\<open>MergedRow\<close>: the entries of the key fields (\<open>key_values\<close>, from
  \<^verbatim>\<open>Object.fromEntries(keyFields.map((f) => [f, row[f]]))\<close>) and the aggregates.
\<close>

record MergedRow =
  key_values :: "(string \<times> string option) list"
  request_count :: int
  total_input_tokens :: int
  total_output_tokens :: int
  total_tokens :: int
  total_cost :: real
  avg_latency_ms :: real
  latency_sum :: real
  first_seen :: int
  last_seen :: int

text \<open>\<^verbatim>\<open>Array.prototype.join\<close>: null and undefined elements are written as nothing.\<close>

fun join :: "string \<Rightarrow> string option list \<Rightarrow> string" where
  "join sep [] = []"
| "join sep [x] = (case x of None \<Rightarrow> [] | Some s \<Rightarrow> s)"
| "join sep (x # y # ys) = (case x of None \<Rightarrow> [] | Some s \<Rightarrow> s) @ sep @ join sep (y # ys)"

definition row_key :: "string list \<Rightarrow> QueryRow \<Rightarrow> string" where
  "row_key keyFields row = join ''|'' (map (group_values row) keyFields)"

text \<open>
  \<^verbatim>\<open>addRow\<close>. The \<^verbatim>\<open>Map\<close> named \<^verbatim>\<open>merged\<close> is an association list in insertion
  order, passed and returned; \<^verbatim>\<open>merged.set\<close> is \<^const>\<open>AList.update\<close>, which
  replaces the value of a key in place and appends a new key.
\<close>

definition addRow ::
  "string list \<Rightarrow> QueryRow \<Rightarrow> (string \<times> MergedRow) list \<Rightarrow> (string \<times> MergedRow) list" where
  "addRow keyFields row merged =
     (let key = row_key keyFields row;
          requestCount = int' (QueryRow.request_count row);
          inputTokens = int' (QueryRow.total_input_tokens row);
          outputTokens = int' (QueryRow.total_output_tokens row);
          totalTokens = int' (QueryRow.total_tokens row);
          totalCost = num (QueryRow.total_cost row);
          avgLatency = num (QueryRow.avg_latency_ms row);
          firstSeen = QueryRow.first_seen row;
          lastSeen = QueryRow.last_seen row
      in case map_of merged key of
           None \<Rightarrow>
             AList.update key
               \<lparr>key_values = map (\<lambda>f. (f, group_values row f)) keyFields,
                request_count = requestCount,
                total_input_tokens = inputTokens,
                total_output_tokens = outputTokens,
                total_tokens = totalTokens,
                total_cost = totalCost,
                avg_latency_ms = avgLatency,
                latency_sum = avgLatency * real_of_int requestCount,
                first_seen = firstSeen,
                last_seen = lastSeen\<rparr> merged
         | Some existing \<Rightarrow>
             (let newCount = request_count existing + requestCount;
                  newLatencySum = latency_sum existing + avgLatency * real_of_int requestCount
              in AList.update key
                   (existing
                     \<lparr>request_count := newCount,
                      total_input_tokens := total_input_tokens existing + inputTokens,
                      total_output_tokens := total_output_tokens existing + outputTokens,
                      total_tokens := total_tokens existing + totalTokens,
                      total_cost := total_cost existing + totalCost,
                      avg_latency_ms :=
                        (if newCount > 0 then newLatencySum / real_of_int newCount else 0),
                      latency_sum := newLatencySum,
                      first_seen :=
                        (if first_seen existing < firstSeen then first_seen existing
                         else firstSeen),
                      last_seen :=
                        (if last_seen existing > lastSeen then last_seen existing
                         else lastSeen)\<rparr>) merged))"

text \<open>The map after the two loops \<^verbatim>\<open>for (const row of caRows)\<close> and \<^verbatim>\<open>baseRows\<close>.\<close>

definition merged_map ::
  "QueryRow list \<Rightarrow> QueryRow list \<Rightarrow> string list \<Rightarrow> (string \<times> MergedRow) list" where
  "merged_map caRows baseRows keyFields =
     fold (addRow keyFields) baseRows (fold (addRow keyFields) caRows [])"

text \<open>
  The values of the map with \<^verbatim>\<open>latency_sum\<close> reset, sorted by cost, largest first.
  \<^verbatim>\<open>Array.prototype.sort\<close> is stable, as \<^const>\<open>sort_key\<close> is.
\<close>

definition mergeResults ::
  "QueryRow list \<Rightarrow> QueryRow list \<Rightarrow> string list \<Rightarrow> MergedRow list" where
  "mergeResults caRows baseRows keyFields =
     sort_key (\<lambda>r. - total_cost r)
       (map (\<lambda>r. r\<lparr>latency_sum := 0\<rparr>) (map snd (merged_map caRows baseRows keyFields)))"

text \<open>
  The two partial aggregates of the specification's example, for one model: \<open>A\<close>
  with an average of 10 ms over 1 request, \<open>B\<close> with 100 ms over 9 requests. And a
  third one, \<open>C\<close>, with 50 ms over 10 requests.
\<close>

definition example_row_A :: QueryRow where
  "example_row_A =
     \<lparr>group_values = [''model'' \<mapsto> ''gpt-4''], request_count = Some 1,
      total_input_tokens = Some 100, total_output_tokens = Some 20, total_tokens = Some 120,
      total_cost = Some (1 / 100), avg_latency_ms = Some 10,
      first_seen = 1704153600000, last_seen = 1704153600000\<rparr>"

definition example_row_B :: QueryRow where
  "example_row_B =
     \<lparr>group_values = [''model'' \<mapsto> ''gpt-4''], request_count = Some 9,
      total_input_tokens = Some 900, total_output_tokens = Some 180, total_tokens = Some 1080,
      total_cost = Some (9 / 100), avg_latency_ms = Some 100,
      first_seen = 1704110400000, last_seen = 1704150000000\<rparr>"

definition example_row_C :: QueryRow where
  "example_row_C =
     \<lparr>group_values = [''model'' \<mapsto> ''gpt-4''], request_count = Some 10,
      total_input_tokens = Some 1000, total_output_tokens = Some 200, total_tokens = Some 1200,
      total_cost = Some (1 / 10), avg_latency_ms = Some 50,
      first_seen = 1704240000000, last_seen = 1704260000000\<rparr>"

subsection \<open>JavaScript library functions the \<^verbatim>\<open>/logs\<close> handler calls\<close>

text \<open>
  Strings are lists of code units below 256. The white space that \<^verbatim>\<open>trim\<close> and
  \<^verbatim>\<open>parseInt\<close> skip: tab, line feed, vertical tab, form feed, carriage return,
  space and no-break space.
\<close>

definition js_whitespace :: "char \<Rightarrow> bool" where
  "js_whitespace c \<longleftrightarrow> (of_char c :: nat) \<in> {9, 10, 11, 12, 13, 32, 160}"

definition trim :: "string \<Rightarrow> string" where
  "trim s = rev (dropWhile js_whitespace (rev (dropWhile js_whitespace s)))"

text \<open>\<^verbatim>\<open>String.prototype.split\<close> with a one-character separator.\<close>

fun split_str :: "char \<Rightarrow> string \<Rightarrow> string list" where
  "split_str sep [] = [[]]"
| "split_str sep (c # cs) =
     (if c = sep then [] # split_str sep cs
      else (case split_str sep cs of [] \<Rightarrow> [[c]] | w # ws \<Rightarrow> (c # w) # ws))"

definition is_digit :: "char \<Rightarrow> bool" where
  "is_digit c \<longleftrightarrow> 48 \<le> (of_char c :: nat) \<and> (of_char c :: nat) \<le> 57"

definition digits_value :: "string \<Rightarrow> int" where
  "digits_value ds = foldl (\<lambda>a c. 10 * a + (int (of_char c) - 48)) 0 ds"

text \<open>
  \<^verbatim>\<open>parseInt(s, 10)\<close>: leading white space, an optional sign, then the longest run
  of decimal digits; \<^verbatim>\<open>NaN\<close> (\<open>None\<close>) when there is no digit.
\<close>

definition parseInt10 :: "string \<Rightarrow> int option" where
  "parseInt10 s =
     (let t = dropWhile js_whitespace s;
          negative = (t \<noteq> [] \<and> hd t = CHR ''-'');
          u = (if t \<noteq> [] \<and> (hd t = CHR ''-'' \<or> hd t = CHR ''+'') then tl t else t);
          ds = takeWhile is_digit u
      in if ds = [] then None
         else Some (if negative then - digits_value ds else digits_value ds))"

text \<open>\<^verbatim>\<open>Math.min\<close> and \<^verbatim>\<open>Math.max\<close> with a constant: \<^verbatim>\<open>NaN\<close> stays \<^verbatim>\<open>NaN\<close>.\<close>

definition math_min :: "int option \<Rightarrow> int \<Rightarrow> int option" where
  "math_min x b = (case x of None \<Rightarrow> None | Some n \<Rightarrow> Some (min n b))"

definition math_max :: "int option \<Rightarrow> int \<Rightarrow> int option" where
  "math_max x b = (case x of None \<Rightarrow> None | Some n \<Rightarrow> Some (max n b))"

text \<open>The sum of two numbers, \<^verbatim>\<open>NaN\<close> when one of them is.\<close>

definition js_plus :: "int option \<Rightarrow> int option \<Rightarrow> int option" where
  "js_plus x y = (case (x, y) of (Some a, Some b) \<Rightarrow> Some (a + b) | _ \<Rightarrow> None)"

text \<open>
  \<^verbatim>\<open>Array.prototype.slice(start, end)\<close>: \<^verbatim>\<open>NaN\<close> counts as 0, a negative index
  counts from the end, and both are clamped to the length.
\<close>

definition slice_index :: "nat \<Rightarrow> int option \<Rightarrow> nat" where
  "slice_index len i =
     (case i of None \<Rightarrow> 0
      | Some n \<Rightarrow> (if n < 0 then nat (max (int len + n) 0) else nat (min n (int len))))"

definition slice :: "'a list \<Rightarrow> int option \<Rightarrow> int option \<Rightarrow> 'a list" where
  "slice xs start_ix end_ix =
     (let k = slice_index (length xs) start_ix;
          final = slice_index (length xs) end_ix
      in take (final - k) (drop k xs))"

text \<open>
  \<^verbatim>\<open>Object.fromEntries\<close>: a later entry of a key replaces the value and keeps the
  place of the first one.
\<close>

definition fromEntries :: "(string \<times> 'a) list \<Rightarrow> (string \<times> 'a) list" where
  "fromEntries entries = fold (\<lambda>(k, v) obj. AList.update k v obj) entries []"

text \<open>
  JSON values of the responses. \<open>JDate\<close> is a \<^verbatim>\<open>Date\<close>, which is serialised as
  its ISO string.
\<close>

datatype json =
    JNull
  | JBool bool
  | JNum real
  | JStr string
  | JDate int
  | JArr "json list"
  | JObj "(string \<times> json) list"

text \<open>The value of a property of a JSON object; \<open>None\<close> when the object has none.\<close>

fun property :: "json \<Rightarrow> string \<Rightarrow> json option" where
  "property (JObj entries) name = map_of entries name"
| "property _ name = None"

record Response =
  status :: nat
  body :: json

text \<open>\<^verbatim>\<open>res.json(b)\<close> and \<^verbatim>\<open>res.status(code).json(b)\<close>.\<close>

definition res_json :: "json \<Rightarrow> Response" where
  "res_json b = \<lparr>status = 200, body = b\<rparr>"

definition res_status_json :: "nat \<Rightarrow> json \<Rightarrow> Response" where
  "res_status_json code b = \<lparr>status = code, body = b\<rparr>"

subsection \<open>The \<^verbatim>\<open>GET /logs\<close> handler (lines 197 to 530)\<close>

record TokenContext =
  team_id :: string

text \<open>
  The request: the token context that \<^verbatim>\<open>parseToken\<close> returns and the query
  parameters. \<open>q_start\<close> and \<open>q_end\<close> hold the time value of \<^verbatim>\<open>new Date(start)\<close>
  and \<^verbatim>\<open>new Date(end)\<close>, \<open>None\<close> when the parameter is absent or empty or the date
  is invalid; the other parameters are the strings of the query, \<open>None\<close> when absent.
\<close>

record LogsRequest =
  ctx :: "TokenContext option"
  q_start :: "int option"
  q_end :: "int option"
  q_limit :: "string option"
  q_offset :: "string option"
  q_group_by :: "string option"
  q_type :: "string option"
  q_success :: "string option"

text \<open>
  The SQL statements of the handler with their parameters. \<open>BaseAgg\<close> is the statement
  of \<^verbatim>\<open>getBaseAggData\<close>, \<open>ModelCA\<close> (with or without \<^verbatim>\<open>provider\<close>) and
  \<open>AgentCA\<close> are the rollup fetches over \<^verbatim>\<open>bucket >= $1 AND bucket < $2\<close>,
  \<open>BaseAggPaged\<close> is the raw-table aggregation over the whole window with
  \<^verbatim>\<open>LIMIT $4 OFFSET $5\<close>, and \<open>RawLogs\<close> is the statement of the ungrouped path
  with its extra conditions.
\<close>

datatype AggQuery =
    BaseAgg "string list" int int string
  | ModelCA bool int int
  | AgentCA int int
  | BaseAggPaged "string list" int int string "int option" "int option"

datatype RawQuery =
    RawLogs "string list" int int string "int option" "int option"

text \<open>
  What the handler cannot see into: \<^verbatim>\<open>connectTeamClient\<close> (which returns a client
  or throws; \<open>Some\<close> is the message of the error) and the database, which answers a
  statement with rows or with an error (\<open>Inl\<close>).
\<close>

record Env =
  connect :: "string \<Rightarrow> string option"
  agg_query :: "AggQuery \<Rightarrow> string + QueryRow list"
  raw_query :: "RawQuery \<Rightarrow> string + json list"

definition validGroupFields :: "string list" where
  "validGroupFields = [''model'', ''agent'', ''provider'']"

text \<open>
  \<^verbatim>\<open>group_by.split(",").map((f) => f.trim()).filter((f) => validGroupFields.includes(f))\<close>
\<close>

definition parse_group_fields :: "string \<Rightarrow> string list" where
  "parse_group_fields group_by =
     filter (\<lambda>f. f \<in> set validGroupFields) (map trim (split_str CHR '','' group_by))"

text \<open>
  \<^verbatim>\<open>Math.min(parseInt(req.query.limit || "500", 10), 5000)\<close> and
  \<^verbatim>\<open>Math.max(parseInt(req.query.offset || "0", 10), 0)\<close>.
\<close>

definition or_default :: "string option \<Rightarrow> string \<Rightarrow> string" where
  "or_default param d = (case param of None \<Rightarrow> d | Some s \<Rightarrow> if s = [] then d else s)"

definition effective_limit :: "string option \<Rightarrow> int option" where
  "effective_limit param = math_min (parseInt10 (or_default param ''500'')) 5000"

definition effective_offset :: "string option \<Rightarrow> int option" where
  "effective_offset param = math_max (parseInt10 (or_default param ''0'')) 0"

text \<open>\<^verbatim>\<open>Promise.all\<close>: every result, or an error when one of the promises rejects.\<close>

fun promise_all :: "(string + 'a) list \<Rightarrow> string + 'a list" where
  "promise_all [] = Inr []"
| "promise_all (p # ps) =
     (case p of Inl err \<Rightarrow> Inl err
      | Inr v \<Rightarrow> (case promise_all ps of Inl err \<Rightarrow> Inl err | Inr vs \<Rightarrow> Inr (v # vs)))"

definition getBaseAggData ::
  "Env \<Rightarrow> string \<Rightarrow> int \<Rightarrow> int \<Rightarrow> string list \<Rightarrow> string + QueryRow list" where
  "getBaseAggData env team rangeStart rangeEnd selectFields =
     (if rangeEnd \<le> rangeStart then Inr []
      else agg_query env (BaseAgg selectFields rangeStart rangeEnd team))"

text \<open>
  A \<^verbatim>\<open>MergedRow\<close> read as a \<^verbatim>\<open>QueryRow\<close> (the cast
  \<^verbatim>\<open>as unknown as QueryRow[]\<close>): the response parses its numbers back.
\<close>

definition merged_as_query_row :: "MergedRow \<Rightarrow> QueryRow" where
  "merged_as_query_row m =
     \<lparr>group_values = (\<lambda>f. case map_of (key_values m) f of None \<Rightarrow> None | Some v \<Rightarrow> v),
      request_count = Some (request_count m),
      total_input_tokens = Some (total_input_tokens m),
      total_output_tokens = Some (total_output_tokens m),
      total_tokens = Some (total_tokens m),
      total_cost = Some (total_cost m),
      avg_latency_ms = Some (avg_latency_ms m),
      first_seen = first_seen m,
      last_seen = last_seen m\<rparr>"

text \<open>
  The body of the two \<^verbatim>\<open>try\<close> blocks (lines 350 to 382 and 388 to 415), which
  differ in the key fields and in the rollup statement only: the raw-table fetches of
  the partial ranges, the rollup fetch when there are full buckets, and the merged rows
  \<^verbatim>\<open>slice(offset, offset + limit)\<close>. \<open>Inl\<close> when a fetch throws.
\<close>

definition hybrid_fetch ::
  "Env \<Rightarrow> string \<Rightarrow> int \<Rightarrow> int \<Rightarrow> string list \<Rightarrow> AggQuery \<Rightarrow> int option \<Rightarrow> int option
     \<Rightarrow> string + QueryRow list" where
  "hybrid_fetch env team startDate endDate keyFields caSql limit offset =
     (case promise_all
             (map (\<lambda>r. getBaseAggData env team (fst r) (snd r) keyFields)
                (partialRanges startDate endDate)) of
        Inl err \<Rightarrow> Inl err
      | Inr results \<Rightarrow>
          (case (if hasFullBuckets startDate endDate then agg_query env caSql else Inr []) of
             Inl err \<Rightarrow> Inl err
           | Inr caRows \<Rightarrow>
               Inr (slice (map merged_as_query_row
                             (mergeResults caRows (concat results) keyFields))
                      offset (js_plus offset limit))))"

text \<open>One entry of \<^verbatim>\<open>aggregations\<close>.\<close>

definition aggregation_json :: "string list \<Rightarrow> QueryRow \<Rightarrow> json" where
  "aggregation_json groupFields row =
     JObj (fromEntries
             (map (\<lambda>f. (f, case group_values row f of None \<Rightarrow> JNull | Some v \<Rightarrow> JStr v))
                groupFields)
           @ [(''request_count'', JNum (real_of_int (int' (QueryRow.request_count row)))),
              (''total_input_tokens'',
                 JNum (real_of_int (int' (QueryRow.total_input_tokens row)))),
              (''total_output_tokens'',
                 JNum (real_of_int (int' (QueryRow.total_output_tokens row)))),
              (''total_tokens'', JNum (real_of_int (int' (QueryRow.total_tokens row)))),
              (''total_cost'', JNum (num (QueryRow.total_cost row))),
              (''avg_latency_ms'', JNum (num (QueryRow.avg_latency_ms row))),
              (''first_seen'', JDate (QueryRow.first_seen row)),
              (''last_seen'', JDate (QueryRow.last_seen row))])"

definition grouped_response ::
  "int \<Rightarrow> int \<Rightarrow> string list \<Rightarrow> QueryRow list \<Rightarrow> bool \<Rightarrow> Response" where
  "grouped_response startDate endDate groupFields rows usedCA =
     res_json (JObj
       [(''window'', JObj [(''start'', JDate startDate), (''end'', JDate endDate)]),
        (''group_by'', JArr (map JStr groupFields)),
        (''count'', JNum (real (length rows))),
        (''source'', JStr (if usedCA then ''continuous_aggregate'' else ''base_table'')),
        (''aggregations'', JArr (map (aggregation_json groupFields) rows))])"

text \<open>
  The rows that the \<^verbatim>\<open>try\<close> block of the applicable rollup assigns to
  \<^verbatim>\<open>rows\<close>: \<open>None\<close> when no rollup applies to the group fields or when the block
  threw and the \<^verbatim>\<open>catch\<close> swallowed the error.
\<close>

definition ca_attempt ::
  "Env \<Rightarrow> string \<Rightarrow> int \<Rightarrow> int \<Rightarrow> string list \<Rightarrow> int option \<Rightarrow> int option
     \<Rightarrow> QueryRow list option" where
  "ca_attempt env team startDate endDate groupFields limit offset =
     (let useModelCA = (length groupFields = 1 \<and> groupFields ! 0 = ''model'');
          useModelProviderCA =
            (length groupFields = 2 \<and> ''model'' \<in> set groupFields
               \<and> ''provider'' \<in> set groupFields);
          useAgentCA = (length groupFields = 1 \<and> groupFields ! 0 = ''agent'')
      in if useModelCA \<or> useModelProviderCA then
           (case hybrid_fetch env team startDate endDate
                   (if useModelProviderCA then [''model'', ''provider''] else [''model''])
                   (ModelCA useModelProviderCA
                      (fullBucketStart startDate) (fullBucketEnd endDate))
                   limit offset of
              Inl err \<Rightarrow> None
            | Inr rows \<Rightarrow> Some rows)
         else if useAgentCA then
           (case hybrid_fetch env team startDate endDate [''agent'']
                   (AgentCA (fullBucketStart startDate) (fullBucketEnd endDate))
                   limit offset of
              Inl err \<Rightarrow> None
            | Inr rows \<Rightarrow> Some rows)
         else None)"

text \<open>
  Lines 421 to 445: the raw-table aggregation over the whole window, tagged
  \<^verbatim>\<open>base_table\<close>. \<open>Inl\<close> is an error that reaches the outer \<^verbatim>\<open>catch\<close>.
\<close>

definition base_table_fallback ::
  "Env \<Rightarrow> string \<Rightarrow> int \<Rightarrow> int \<Rightarrow> string list \<Rightarrow> int option \<Rightarrow> int option
     \<Rightarrow> string + Response" where
  "base_table_fallback env team startDate endDate groupFields limit offset =
     (case agg_query env (BaseAggPaged groupFields startDate endDate team limit offset) of
        Inl err \<Rightarrow> Inl err
      | Inr rows \<Rightarrow> Inr (grouped_response startDate endDate groupFields rows False))"

text \<open>
  The grouped path. \<^verbatim>\<open>usedCA\<close> is set to \<^verbatim>\<open>hasFullBuckets\<close> at the end of a
  \<^verbatim>\<open>try\<close> block that did not throw, and stays false otherwise; when it is false
  the rows of the attempt are dropped and the fallback runs.
\<close>

definition logs_grouped ::
  "Env \<Rightarrow> string \<Rightarrow> int \<Rightarrow> int \<Rightarrow> int option \<Rightarrow> int option \<Rightarrow> string
     \<Rightarrow> string + Response" where
  "logs_grouped env team startDate endDate limit offset group_by =
     (let groupFields = parse_group_fields group_by
      in if length groupFields = 0 then
           Inr (res_status_json 400 (JObj
             [(''error'', JStr ''invalid_group_by''),
              (''detail'',
                 JStr ''group_by must be one or more of: model, agent, provider'')]))
         else
           (case ca_attempt env team startDate endDate groupFields limit offset of
              Some rows \<Rightarrow>
                if hasFullBuckets startDate endDate then
                  Inr (grouped_response startDate endDate groupFields rows True)
                else
                  base_table_fallback env team startDate endDate groupFields limit offset
            | None \<Rightarrow>
                base_table_fallback env team startDate endDate groupFields limit offset))"

text \<open>The conditions that the filters \<^verbatim>\<open>type\<close> and \<^verbatim>\<open>success\<close> add.\<close>

definition type_conditions :: "string option \<Rightarrow> string list" where
  "type_conditions typeFilter =
     (case typeFilter of None \<Rightarrow> []
      | Some t \<Rightarrow>
          if t = [] \<or> t = ''all'' then []
          else if t = ''tool_call'' then [''COALESCE(tool_call_count, 0) > 0'']
          else if t = ''error'' then
            [''(finish_reason IS NULL OR finish_reason IN (error, content_filter))'']
          else if t = ''llm_request'' then
            [''COALESCE(tool_call_count, 0) = 0'',
             ''(finish_reason IS NOT NULL AND finish_reason NOT IN (error, content_filter))'']
          else [])"

definition success_conditions :: "string option \<Rightarrow> string list" where
  "success_conditions successFilter =
     (case successFilter of None \<Rightarrow> []
      | Some s \<Rightarrow>
          if s = [] then []
          else if s = ''true'' then
            [''finish_reason IN (stop, end_turn, tool_calls, length)'']
          else
            [''(finish_reason IS NULL OR finish_reason NOT IN (stop, end_turn, tool_calls, length))''])"

definition logs_raw ::
  "Env \<Rightarrow> string \<Rightarrow> int \<Rightarrow> int \<Rightarrow> int option \<Rightarrow> int option \<Rightarrow> string option \<Rightarrow> string option
     \<Rightarrow> string + Response" where
  "logs_raw env team startDate endDate limit offset typeFilter successFilter =
     (case raw_query env
             (RawLogs (type_conditions typeFilter @ success_conditions successFilter)
                startDate endDate team limit offset) of
        Inl err \<Rightarrow> Inl err
      | Inr rows \<Rightarrow>
          Inr (res_json (JObj
            [(''window'', JObj [(''start'', JDate startDate), (''end'', JDate endDate)]),
             (''count'', JNum (real (length rows))),
             (''filters'', JObj
                ((''type'', JStr (or_default typeFilter ''all''))
                 # (case successFilter of None \<Rightarrow> [] | Some s \<Rightarrow> [(''success'', JStr s)]))),
             (''rows'', JArr rows)])))"

definition invalid_token :: Response where
  "invalid_token =
     res_status_json 401 (JObj
       [(''error'', JStr ''invalid_token''), (''detail'', JStr ''Missing team_id in token'')])"

definition invalid_time_window :: Response where
  "invalid_time_window =
     res_status_json 400 (JObj
       [(''error'', JStr ''invalid_time_window''),
        (''detail'', JStr ''start and end must be valid ISO dates'')])"

definition logs_failed :: "string \<Rightarrow> Response" where
  "logs_failed message =
     res_status_json 500 (JObj [(''error'', JStr ''logs_failed''), (''detail'', JStr message)])"

definition logs_handler :: "Env \<Rightarrow> LogsRequest \<Rightarrow> Response" where
  "logs_handler env req =
     (case ctx req of
        None \<Rightarrow> invalid_token
      | Some c \<Rightarrow>
          if team_id c = [] then invalid_token
          else
            (case (q_start req, q_end req) of
               (Some startDate, Some endDate) \<Rightarrow>
                 (let limit = effective_limit (q_limit req);
                      offset = effective_offset (q_offset req);
                      outcome =
                        (case connect env (team_id c) of
                           Some err \<Rightarrow> Inl err
                         | None \<Rightarrow>
                             (case q_group_by req of
                                None \<Rightarrow>
                                  logs_raw env (team_id c) startDate endDate limit offset
                                    (q_type req) (q_success req)
                              | Some g \<Rightarrow>
                                  if g = [] then
                                    logs_raw env (team_id c) startDate endDate limit offset
                                      (q_type req) (q_success req)
                                  else
                                    logs_grouped env (team_id c) startDate endDate
                                      limit offset g))
                  in case outcome of Inl err \<Rightarrow> logs_failed err | Inr response \<Rightarrow> response)
             | _ \<Rightarrow> invalid_time_window))"

text \<open>
  The three group shapes that have a rollup (the flags \<^verbatim>\<open>useModelCA\<close>,
  \<^verbatim>\<open>useModelProviderCA\<close> and \<^verbatim>\<open>useAgentCA\<close>), and the key fields and the
  rollup statement that the handler uses for each.
\<close>

definition rollup_eligible :: "string list \<Rightarrow> bool" where
  "rollup_eligible groupFields \<longleftrightarrow>
     (length groupFields = 1 \<and> groupFields ! 0 = ''model'')
     \<or> (length groupFields = 2 \<and> ''model'' \<in> set groupFields \<and> ''provider'' \<in> set groupFields)
     \<or> (length groupFields = 1 \<and> groupFields ! 0 = ''agent'')"

definition rollup_key_fields :: "string list \<Rightarrow> string list" where
  "rollup_key_fields groupFields =
     (if length groupFields = 1 \<and> groupFields ! 0 = ''agent'' then [''agent'']
      else if length groupFields = 2 then [''model'', ''provider'']
      else [''model''])"

definition rollup_statement :: "string list \<Rightarrow> int \<Rightarrow> int \<Rightarrow> AggQuery" where
  "rollup_statement groupFields startDate endDate =
     (if length groupFields = 1 \<and> groupFields ! 0 = ''agent''
      then AgentCA (fullBucketStart startDate) (fullBucketEnd endDate)
      else ModelCA (length groupFields = 2)
             (fullBucketStart startDate) (fullBucketEnd endDate))"

text \<open>
  Example requests and databases: a request over the window of the specification's
  example, 2024-01-01T12:00Z to 2024-01-03T06:00Z; a database that answers every
  statement with the same rows; and one whose rollup tables do not exist.
\<close>

definition example_request :: "string \<Rightarrow> LogsRequest" where
  "example_request g =
     \<lparr>ctx = Some \<lparr>team_id = ''team-1''\<rparr>,
      q_start = Some 1704110400000, q_end = Some 1704261600000,
      q_limit = None, q_offset = None, q_group_by = Some g,
      q_type = None, q_success = None\<rparr>"

definition answering_env :: "QueryRow list \<Rightarrow> Env" where
  "answering_env rows =
     \<lparr>connect = (\<lambda>team. None), agg_query = (\<lambda>q. Inr rows), raw_query = (\<lambda>q. Inr [])\<rparr>"

definition rollup_down_env :: "QueryRow list \<Rightarrow> Env" where
  "rollup_down_env rows =
     \<lparr>connect = (\<lambda>team. None),
      agg_query =
        (\<lambda>q. case q of
           ModelCA p s e \<Rightarrow> Inl ''relation llm_events_daily_by_model_ca does not exist''
         | AgentCA s e \<Rightarrow> Inl ''relation llm_events_daily_by_agent_ca does not exist''
         | _ \<Rightarrow> Inr rows),
      raw_query = (\<lambda>q. Inr [])\<rparr>"

definition example_ungrouped_request :: LogsRequest where
  "example_ungrouped_request =
     \<lparr>ctx = Some \<lparr>team_id = ''team-1''\<rparr>,
      q_start = Some 1704110400000, q_end = Some 1704261600000,
      q_limit = None, q_offset = None, q_group_by = None,
      q_type = None, q_success = None\<rparr>"

text \<open>
  A database that treats the numbers of \<^verbatim>\<open>LIMIT\<close> and \<^verbatim>\<open>OFFSET\<close> as PostgreSQL
  does: it refuses a statement whose limit or offset is negative or is not a number,
  and answers the others.
\<close>

definition limit_error :: "int option \<Rightarrow> int option \<Rightarrow> string option" where
  "limit_error limit offset =
     (case limit of
        None \<Rightarrow> Some ''invalid input syntax for type bigint: NaN''
      | Some n \<Rightarrow>
          if n < 0 then Some ''LIMIT must not be negative''
          else (case offset of
                  None \<Rightarrow> Some ''invalid input syntax for type bigint: NaN''
                | Some m \<Rightarrow> if m < 0 then Some ''OFFSET must not be negative'' else None))"

definition postgres_env :: "QueryRow list \<Rightarrow> Env" where
  "postgres_env rows =
     \<lparr>connect = (\<lambda>team. None),
      agg_query =
        (\<lambda>q. case q of
           BaseAggPaged cols s e team limit offset \<Rightarrow>
             (case limit_error limit offset of Some message \<Rightarrow> Inl message | None \<Rightarrow> Inr rows)
         | _ \<Rightarrow> Inr rows),
      raw_query =
        (\<lambda>q. case q of
           RawLogs conds s e team limit offset \<Rightarrow>
             (case limit_error limit offset of Some message \<Rightarrow> Inl message | None \<Rightarrow> Inr []))\<rparr>"

subsection \<open>Cost recalculation (the \<^verbatim>\<open>POST /recalculate-costs\<close> handler, lines 1030 to 1212)\<close>

text \<open>
  A row of the table \<^verbatim>\<open>llm_events\<close>, with the columns that the handler reads or
  writes. \<open>timestamp\<close> is the \<^verbatim>\<open>timestamptz\<close> column as the database holds it,
  in microseconds since the epoch; \<open>cost_total\<close> holds what \<^verbatim>\<open>parseFloat\<close> reads
  from the column.
\<close>

record LLMEventRow =
  timestamp :: int
  trace_id :: string
  call_sequence :: int
  event_team_id :: string
  model :: "string option"
  provider :: "string option"
  usage_input_tokens :: "int option"
  usage_output_tokens :: "int option"
  usage_cached_tokens :: "int option"
  cost_total :: "real option"

text \<open>
  The program holds instants as \<^verbatim>\<open>Date\<close> objects, in whole milliseconds. The
  \<^verbatim>\<open>Date\<close> that the driver builds for \<^verbatim>\<open>row.timestamp\<close> keeps the whole
  milliseconds of the column and drops its microsecond digits; a \<^verbatim>\<open>Date\<close> that is
  a parameter of a statement is written with its milliseconds, and the statement
  compares the column with that instant.
\<close>

definition date_of_timestamptz :: "int \<Rightarrow> int" where
  "date_of_timestamptz t = t div 1000"

definition timestamptz_of_date :: "int \<Rightarrow> int" where
  "timestamptz_of_date d = d * 1000"

text \<open>
  An entry of the array \<^verbatim>\<open>updates\<close>: the key of a row as the program holds it
  (\<open>upd_timestamp\<close> is a \<^verbatim>\<open>Date\<close>) and its new cost.
\<close>

record CostUpdate =
  upd_timestamp :: int
  upd_trace_id :: string
  upd_call_sequence :: int
  new_cost :: real

text \<open>
  An entry of \<^verbatim>\<open>results.errors\<close>: a row whose cost could not be computed, a batch
  whose update failed, or the time-out warning.
\<close>

datatype ErrorEntry =
    RowError string int string
  | BatchError nat string
  | Warning string

text \<open>
  What the handler cannot see into. \<open>calculateCostSync\<close> is the pricing lookup (of
  \<^verbatim>\<open>pricing_service\<close>, not in the sources): the total cost for a model, a provider
  and the three token counts, or an error. \<open>now k\<close> is the \<open>k\<close>-th reading of
  \<^verbatim>\<open>Date.now()\<close>; reading 0 is \<^verbatim>\<open>startTime\<close>. \<open>update_error n\<close> is the error
  of the \<^verbatim>\<open>UPDATE\<close> statement of batch \<open>n\<close>, if it fails. \<open>tie_break n\<close> ranks the
  rows for the \<open>n\<close>-th \<^verbatim>\<open>SELECT\<close> (counted from 0): SQL leaves the order of rows with
  equal \<^verbatim>\<open>"timestamp"\<close> to the database, which may order them differently at every
  statement. \<open>refresh_error\<close> is the error of refreshing a continuous aggregate,
  \<open>connect_error\<close> the one of \<^verbatim>\<open>connectTeamClient\<close> and \<open>pricing_load_error\<close> the
  one of \<^verbatim>\<open>loadPricingFromDb\<close>, if they throw.
\<close>

record RecalcEnv =
  calculateCostSync :: "string \<Rightarrow> string option \<Rightarrow> int \<Rightarrow> int \<Rightarrow> int \<Rightarrow> string + real"
  now :: "nat \<Rightarrow> int"
  update_error :: "nat \<Rightarrow> string option"
  tie_break :: "nat \<Rightarrow> LLMEventRow \<Rightarrow> nat"
  refresh_error :: "string \<Rightarrow> string option"
  connect_error :: "string \<Rightarrow> string option"
  pricing_load_error :: "string option"

text \<open>
  The state of the loop: the table, the counters of \<^verbatim>\<open>results\<close>, and the offset.
  \<open>fetched\<close> is a history variable, which the source does not keep: the batches that
  the \<^verbatim>\<open>SELECT\<close> statements have returned so far.
\<close>

record RecalcState =
  table :: "LLMEventRow list"
  updated :: nat
  processed :: nat
  errors :: "ErrorEntry list"
  batches :: nat
  batch_offset :: nat
  fetched :: "LLMEventRow list list"

text \<open>
  \<^verbatim>\<open>WHERE "timestamp" >= $1 AND "timestamp" <= $2 AND team_id = $3\<close>
\<close>

definition in_range :: "int \<Rightarrow> int \<Rightarrow> string \<Rightarrow> LLMEventRow \<Rightarrow> bool" where
  "in_range startDate endDate team r \<longleftrightarrow>
     timestamptz_of_date startDate \<le> timestamp r
       \<and> timestamp r \<le> timestamptz_of_date endDate \<and> event_team_id r = team"

text \<open>
  The batch fetch: \<^verbatim>\<open>ORDER BY "timestamp" LIMIT $4 OFFSET $5\<close>. Rows with equal
  timestamps come in the order of the rank \<open>tie\<close> that the database gives them at this
  statement.
\<close>

definition selectSql ::
  "(LLMEventRow \<Rightarrow> nat) \<Rightarrow> LLMEventRow list \<Rightarrow> int \<Rightarrow> int \<Rightarrow> string \<Rightarrow> nat \<Rightarrow> nat
     \<Rightarrow> LLMEventRow list" where
  "selectSql tie rows startDate endDate team batch_size offset =
     take batch_size (drop offset
       (sort_key (\<lambda>r. (timestamp r, tie r)) (filter (in_range startDate endDate team) rows)))"

text \<open>The call of the pricing lookup for a row, with \<^verbatim>\<open>|| ""\<close> and \<^verbatim>\<open>|| 0\<close>.\<close>

definition row_cost :: "RecalcEnv \<Rightarrow> LLMEventRow \<Rightarrow> string + real" where
  "row_cost env row =
     calculateCostSync env
       (case model row of None \<Rightarrow> [] | Some m \<Rightarrow> m)
       (provider row)
       (int' (usage_input_tokens row))
       (int' (usage_output_tokens row))
       (int' (usage_cached_tokens row))"

text \<open>
  The loop over the rows of a batch (lines 1113 to 1144), on the array \<^verbatim>\<open>updates\<close>,
  the counter \<^verbatim>\<open>results.processed\<close> and the array \<^verbatim>\<open>results.errors\<close>.
\<close>

fun process_rows ::
  "RecalcEnv \<Rightarrow> LLMEventRow list \<Rightarrow> CostUpdate list \<times> nat \<times> ErrorEntry list
     \<Rightarrow> CostUpdate list \<times> nat \<times> ErrorEntry list" where
  "process_rows env [] acc = acc"
| "process_rows env (row # rows) (updates, n, errs) =
     (case row_cost env row of
        Inl message \<Rightarrow>
          process_rows env rows
            (updates, n, errs @ [RowError (trace_id row) (call_sequence row) message])
      | Inr newCost \<Rightarrow>
          (let oldCost = num (cost_total row)
           in process_rows env rows
                (if \<bar>newCost - oldCost\<bar> > 0.000001
                 then updates @ [\<lparr>upd_timestamp = date_of_timestamptz (timestamp row),
                                  upd_trace_id = trace_id row,
                                  upd_call_sequence = call_sequence row, new_cost = newCost\<rparr>]
                 else updates,
                 n + 1, errs)))"

text \<open>
  The \<^verbatim>\<open>UPDATE ... FROM (VALUES ...)\<close> statement: a row that matches an entry in
  its three key columns gets that entry's cost. The entry's timestamp is the
  \<^verbatim>\<open>Date\<close> that was read from a row, cast to \<^verbatim>\<open>timestamptz\<close>: a row whose
  column has microsecond digits matches no entry.
\<close>

definition matches :: "LLMEventRow \<Rightarrow> CostUpdate \<Rightarrow> bool" where
  "matches r u \<longleftrightarrow>
     timestamp r = timestamptz_of_date (upd_timestamp u) \<and> trace_id r = upd_trace_id u
       \<and> call_sequence r = upd_call_sequence u"

definition updateSql :: "CostUpdate list \<Rightarrow> LLMEventRow list \<Rightarrow> LLMEventRow list" where
  "updateSql updates rows =
     map (\<lambda>r. case find (matches r) updates of
                 None \<Rightarrow> r
               | Some u \<Rightarrow> r\<lparr>cost_total := Some (new_cost u)\<rparr>) rows"

text \<open>One pass of the loop body after a fetch that returned rows (lines 1109 to 1168).\<close>

definition process_batch :: "RecalcEnv \<Rightarrow> nat \<Rightarrow> LLMEventRow list \<Rightarrow> RecalcState \<Rightarrow> RecalcState" where
  "process_batch env batch_size rows st =
     (let batch_no = batches st + 1;
          (updates, n, errs) = process_rows env rows ([], processed st, errors st);
          written = (length updates > 0 \<and> update_error env batch_no = None);
          errs' = (if length updates > 0
                   then (case update_error env batch_no of
                           None \<Rightarrow> errs
                         | Some message \<Rightarrow> errs @ [BatchError batch_no message])
                   else errs)
      in \<lparr>table = (if written then updateSql updates (table st) else table st),
          updated = (if written then updated st + length updates else updated st),
          processed = n,
          errors = errs',
          batches = batch_no,
          batch_offset = batch_offset st + batch_size,
          fetched = fetched st @ [rows]\<rparr>)"

text \<open>The safety check \<^verbatim>\<open>Date.now() - startTime > 5 * 60 * 1000\<close> after batch \<open>k\<close>.\<close>

definition deadline_exceeded :: "RecalcEnv \<Rightarrow> nat \<Rightarrow> bool" where
  "deadline_exceeded env k \<longleftrightarrow> now env k - now env 0 > 5 * 60 * 1000"

definition timeout_warning :: ErrorEntry where
  "timeout_warning = Warning ''Timeout reached after 5 minutes. Partial recalculation completed.''"

text \<open>
  The \<^verbatim>\<open>UPDATE\<close> statement changes no column that the \<^verbatim>\<open>WHERE\<close> clause of the
  fetch reads, so the number of rows in range stays the same; this is what makes the loop
  end.
\<close>

lemma in_range_cost_total [simp]:
  "in_range startDate endDate team (r\<lparr>cost_total := c\<rparr>) = in_range startDate endDate team r"
  by (simp add: in_range_def)

lemma filter_in_range_updateSql:
  "filter (in_range startDate endDate team) (updateSql updates rows)
     = updateSql updates (filter (in_range startDate endDate team) rows)"
  by (induction rows) (simp_all add: updateSql_def split: option.split)

lemma length_updateSql [simp]: "length (updateSql updates rows) = length rows"
  by (simp add: updateSql_def)

lemma in_range_count_process_batch:
  "length (filter (in_range startDate endDate team) (table (process_batch env batch_size rows st)))
     = length (filter (in_range startDate endDate team) (table st))"
  by (simp add: process_batch_def Let_def filter_in_range_updateSql split: prod.split)

lemma batch_offset_process_batch [simp]:
  "batch_offset (process_batch env batch_size rows st) = batch_offset st + batch_size"
  by (simp add: process_batch_def Let_def split: prod.split)

lemma selectSql_nonempty:
  assumes "selectSql tie rows startDate endDate team batch_size offset \<noteq> []"
  shows "0 < batch_size \<and> offset < length (filter (in_range startDate endDate team) rows)"
  using assms by (cases batch_size) (auto simp add: selectSql_def)

text \<open>
  The loop \<^verbatim>\<open>while (hasMore)\<close> (lines 1077 to 1175). It ends: a fetch that returns
  rows has a positive batch size and an offset below the number of rows in range, and
  the offset grows by the batch size.
\<close>

function recalc_loop ::
  "RecalcEnv \<Rightarrow> int \<Rightarrow> int \<Rightarrow> string \<Rightarrow> nat \<Rightarrow> RecalcState \<Rightarrow> RecalcState" where
  "recalc_loop env startDate endDate team batch_size st =
     (let rows = selectSql (tie_break env (batches st)) (table st) startDate endDate team
                   batch_size (batch_offset st)
      in if length rows = 0 then st
         else
           (let st' = process_batch env batch_size rows st
            in if deadline_exceeded env (batches st')
               then st'\<lparr>errors := errors st' @ [timeout_warning]\<rparr>
               else recalc_loop env startDate endDate team batch_size st'))"
  by pat_completeness auto
termination
proof (relation "measure (\<lambda>(env, startDate, endDate, team, batch_size, st).
          length (filter (in_range startDate endDate team) (table st)) - batch_offset st)")
  show "wf (measure (\<lambda>(env, startDate, endDate, team, batch_size, st).
          length (filter (in_range startDate endDate team) (table st)) - batch_offset st))"
    by simp
next
  fix env :: RecalcEnv and startDate endDate :: int and team :: string
    and batch_size :: nat and st :: RecalcState and rows st'
  assume rows: "rows = selectSql (tie_break env (batches st)) (table st) startDate endDate
                         team batch_size (batch_offset st)"
    and nonempty: "length rows \<noteq> 0"
    and st': "st' = process_batch env batch_size rows st"
  have "0 < batch_size"
    and "batch_offset st < length (filter (in_range startDate endDate team) (table st))"
    using rows nonempty selectSql_nonempty by simp_all
  then have "length (filter (in_range startDate endDate team) (table st))
        - (batch_offset st + batch_size)
      < length (filter (in_range startDate endDate team) (table st)) - batch_offset st"
    by arith
  then show "((env, startDate, endDate, team, batch_size, st'),
              (env, startDate, endDate, team, batch_size, st))
        \<in> measure (\<lambda>(env, startDate, endDate, team, batch_size, st).
            length (filter (in_range startDate endDate team) (table st)) - batch_offset st)"
    using st' by (simp add: in_range_count_process_batch)
qed

definition initial_state :: "LLMEventRow list \<Rightarrow> RecalcState" where
  "initial_state rows =
     \<lparr>table = rows, updated = 0, processed = 0, errors = [], batches = 0,
      batch_offset = 0, fetched = []\<rparr>"

text \<open>
  The request body: \<open>Absent\<close> is a missing (or falsy) date, \<open>InvalidDate\<close> one that
  \<^verbatim>\<open>new Date\<close> cannot read. \<open>b_batch_size\<close> is \<open>None\<close> when the body has none, and
  the default of 1000 applies.
\<close>

datatype BodyDate = Absent | InvalidDate | DateAt int

record RecalcRequest =
  rc_ctx :: "TokenContext option"
  b_start :: BodyDate
  b_end :: BodyDate
  b_batch_size :: "nat option"

definition error_json :: "ErrorEntry \<Rightarrow> json" where
  "error_json entry =
     (case entry of
        RowError t c message \<Rightarrow>
          JObj [(''trace_id'', JStr t), (''call_sequence'', JNum (real_of_int c)),
                (''error'', JStr message)]
      | BatchError b message \<Rightarrow> JObj [(''batch'', JNum (real b)), (''error'', JStr message)]
      | Warning message \<Rightarrow> JObj [(''warning'', JStr message)])"

text \<open>The refresh of the continuous aggregates (lines 1177 to 1191).\<close>

definition cas :: "string list" where
  "cas = [''llm_events_daily_ca'', ''llm_events_daily_by_model_ca'',
          ''llm_events_daily_by_agent_ca'']"

definition refresh_result :: "RecalcEnv \<Rightarrow> string \<Rightarrow> json" where
  "refresh_result env ca =
     (case refresh_error env ca of
        None \<Rightarrow> JObj [(''ca'', JStr ca), (''status'', JStr ''refreshed'')]
      | Some message \<Rightarrow>
          JObj [(''ca'', JStr ca), (''status'', JStr ''error''), (''error'', JStr message)])"

text \<open>
  The response of a run that reached the end of the handler (lines 1193 to 1205). The
  last reading of the clock is the one after those of the \<open>batches\<close> passes.
\<close>

definition recalculation_response :: "RecalcEnv \<Rightarrow> int \<Rightarrow> int \<Rightarrow> RecalcState \<Rightarrow> Response" where
  "recalculation_response env startDate endDate st =
     res_json (JObj
       [(''message'', JStr ''recalculation_complete''),
        (''period'', JObj [(''start'', JDate startDate), (''end'', JDate endDate)]),
        (''stats'', JObj
           [(''processed'', JNum (real (processed st))),
            (''updated'', JNum (real (updated st))),
            (''batches'', JNum (real (batches st))),
            (''duration_ms'', JNum (real_of_int (now env (batches st + 1) - now env 0)))]),
        (''continuous_aggregates'', JArr (map (refresh_result env) cas)),
        (''errors'', JArr (map error_json (take 10 (errors st)))),
        (''error_count'', JNum (real (length (errors st))))])"

text \<open>
  The handler, on the table before the request: the response and the table after it.
\<close>

definition recalculate_costs ::
  "RecalcEnv \<Rightarrow> RecalcRequest \<Rightarrow> LLMEventRow list \<Rightarrow> Response \<times> LLMEventRow list" where
  "recalculate_costs env req rows =
     (case rc_ctx req of
        None \<Rightarrow> (invalid_token, rows)
      | Some c \<Rightarrow>
          if team_id c = [] then (invalid_token, rows)
          else if b_start req = Absent \<or> b_end req = Absent then
            (res_status_json 400 (JObj [(''error'', JStr ''start and end dates are required'')]),
             rows)
          else
            (case (b_start req, b_end req) of
               (DateAt startDate, DateAt endDate) \<Rightarrow>
                 if endDate < startDate then
                   (res_status_json 400 (JObj
                      [(''error'', JStr ''invalid_range''),
                       (''detail'', JStr ''end must be after start'')]), rows)
                 else
                   (case connect_error env (team_id c) of
                      Some message \<Rightarrow>
                        (res_status_json 500 (JObj
                           [(''error'', JStr ''recalculate_failed''),
                            (''detail'', JStr message)]), rows)
                    | None \<Rightarrow>
                        (case pricing_load_error env of
                           Some message \<Rightarrow>
                             (res_status_json 500 (JObj
                                [(''error'', JStr ''recalculate_failed''),
                                 (''detail'', JStr message)]), rows)
                         | None \<Rightarrow>
                             (let batch_size =
                                    (case b_batch_size req of None \<Rightarrow> 1000 | Some n \<Rightarrow> n);
                                  st = recalc_loop env startDate endDate (team_id c)
                                         batch_size (initial_state rows)
                              in (recalculation_response env startDate endDate st,
                                  table st))))
             | _ \<Rightarrow>
                 (res_status_json 400 (JObj
                    [(''error'', JStr ''invalid_dates''),
                     (''detail'', JStr ''start and end must be valid ISO dates'')]), rows)))"

text \<open>
  Notions for stating the properties of the recalculation. The composite key of a row;
  the key that the \<^verbatim>\<open>UPDATE\<close> statement looks for when the program has queued a
  fetched row, which is the row's own key when its timestamp has no microsecond
  digits; a row without its cost (the \<^verbatim>\<open>UPDATE\<close> statement changes nothing
  else); whether the pricing lookup answers for a row; whether the loop queues a row
  for update, and the entry it queues.
\<close>

definition composite_key :: "LLMEventRow \<Rightarrow> int \<times> string \<times> int" where
  "composite_key r = (timestamp r, trace_id r, call_sequence r)"

definition update_key :: "LLMEventRow \<Rightarrow> int \<times> string \<times> int" where
  "update_key r =
     (timestamptz_of_date (date_of_timestamptz (timestamp r)), trace_id r, call_sequence r)"

definition whole_milliseconds :: "LLMEventRow \<Rightarrow> bool" where
  "whole_milliseconds r \<longleftrightarrow> timestamp r mod 1000 = 0"

definition without_cost :: "LLMEventRow \<Rightarrow> LLMEventRow" where
  "without_cost r = r\<lparr>cost_total := None\<rparr>"

definition priced :: "RecalcEnv \<Rightarrow> LLMEventRow \<Rightarrow> bool" where
  "priced env r \<longleftrightarrow> (case row_cost env r of Inl message \<Rightarrow> False | Inr newCost \<Rightarrow> True)"

definition needs_update :: "RecalcEnv \<Rightarrow> LLMEventRow \<Rightarrow> bool" where
  "needs_update env r \<longleftrightarrow>
     (case row_cost env r of
        Inl message \<Rightarrow> False
      | Inr newCost \<Rightarrow> \<bar>newCost - num (cost_total r)\<bar> > 0.000001)"

definition update_of :: "RecalcEnv \<Rightarrow> LLMEventRow \<Rightarrow> CostUpdate" where
  "update_of env r =
     \<lparr>upd_timestamp = date_of_timestamptz (timestamp r), upd_trace_id = trace_id r,
      upd_call_sequence = call_sequence r,
      new_cost = (case row_cost env r of Inl message \<Rightarrow> 0 | Inr newCost \<Rightarrow> newCost)\<rparr>"

text \<open>
  The database orders rows of equal timestamp the same way at every fetch of a run, and
  by nothing that the run changes.
\<close>

definition stable_ties :: "RecalcEnv \<Rightarrow> bool" where
  "stable_ties env \<longleftrightarrow> (\<forall>n r. tie_break env n r = tie_break env 0 (without_cost r))"

text \<open>The rows in range in the order of the first fetch, without their costs.\<close>

definition rows_in_order :: "RecalcEnv \<Rightarrow> int \<Rightarrow> int \<Rightarrow> string \<Rightarrow> LLMEventRow list \<Rightarrow> LLMEventRow list" where
  "rows_in_order env startDate endDate team rows =
     map without_cost
       (sort_key (\<lambda>r. (timestamp r, tie_break env 0 r))
          (filter (in_range startDate endDate team) rows))"

text \<open>The fetch that the loop makes at a state.\<close>

definition next_batch ::
  "RecalcEnv \<Rightarrow> int \<Rightarrow> int \<Rightarrow> string \<Rightarrow> nat \<Rightarrow> RecalcState \<Rightarrow> LLMEventRow list" where
  "next_batch env startDate endDate team batch_size st =
     selectSql (tie_break env (batches st)) (table st) startDate endDate team batch_size
       (batch_offset st)"

text \<open>
  An example run: five events of one team, an hour apart, none with a stored cost; a
  pricing of one thousandth per input token; a clock that passes the deadline at the
  reading after the second batch (\<open>slow_env\<close>) and one that never passes it
  (\<open>fast_env\<close>); a database that never fails and always breaks ties the same way.
\<close>

definition example_event :: "int \<Rightarrow> LLMEventRow" where
  "example_event n =
     \<lparr>timestamp = (1704110400000 + n * 3600000) * 1000, trace_id = ''trace'',
      call_sequence = n,
      event_team_id = ''team-1'', model = Some ''gpt-4'', provider = Some ''openai'',
      usage_input_tokens = Some 1000, usage_output_tokens = Some 0,
      usage_cached_tokens = None, cost_total = None\<rparr>"

definition five_events :: "LLMEventRow list" where
  "five_events = map example_event [0, 1, 2, 3, 4]"

definition example_pricing :: "string \<Rightarrow> string option \<Rightarrow> int \<Rightarrow> int \<Rightarrow> int \<Rightarrow> string + real" where
  "example_pricing m p inputTokens outputTokens cachedTokens =
     Inr (real_of_int inputTokens / 1000)"

definition slow_env :: RecalcEnv where
  "slow_env =
     \<lparr>calculateCostSync = example_pricing,
      now = (\<lambda>k. if k < 2 then int k * 1000 else 300001 + int k),
      update_error = (\<lambda>n. None),
      tie_break = (\<lambda>n r. 0),
      refresh_error = (\<lambda>ca. None),
      connect_error = (\<lambda>team. None),
      pricing_load_error = None\<rparr>"

definition fast_env :: RecalcEnv where
  "fast_env = slow_env\<lparr>now := (\<lambda>k. int (min k 300) * 1000)\<rparr>"

definition example_recalc_request :: "nat \<Rightarrow> RecalcRequest" where
  "example_recalc_request batch_size =
     \<lparr>rc_ctx = Some \<lparr>team_id = ''team-1''\<rparr>,
      b_start = DateAt 1704110400000, b_end = DateAt 1704261600000,
      b_batch_size = Some batch_size\<rparr>"

text \<open>
  Events of one instant, told apart by their call sequence, and a database that ranks
  rows of equal timestamp by call sequence at its even fetches and the other way round
  at its odd ones.
\<close>

definition tied_event :: "int \<Rightarrow> LLMEventRow" where
  "tied_event n = (example_event 0)\<lparr>call_sequence := n\<rparr>"

definition reordering_env :: RecalcEnv where
  "reordering_env =
     fast_env\<lparr>tie_break :=
       (\<lambda>n r. if even n then nat (call_sequence r) else nat (10 - call_sequence r))\<rparr>"

text \<open>
  An event that is stored with microsecond digits: 250 microseconds after
  2024-01-01T12:00:00.000Z.
\<close>

definition precise_event :: LLMEventRow where
  "precise_event = (example_event 0)\<lparr>timestamp := 1704110400000250\<rparr>"

text \<open>
  Modelled from the spec: the tables are not in the sources. A database that holds
  events of one model, given by their instants, and answers the aggregation statements
  of the handler from them. The raw-table statements count the events with
  \<^verbatim>\<open>"timestamp" >= $1 AND "timestamp" <= $2\<close>, as the handler writes them; the
  rows of the rollup table aggregate the events by UTC day, as the specification says,
  and the rollup statement counts the events whose bucket lies in
  \<^verbatim>\<open>bucket >= $1 AND bucket < $2\<close>.
\<close>

definition count_row :: "int list \<Rightarrow> QueryRow list" where
  "count_row instants =
     (if instants = [] then []
      else [\<lparr>group_values = [''model'' \<mapsto> ''gpt-4''],
             request_count = Some (int (length instants)),
             total_input_tokens = Some 0, total_output_tokens = Some 0,
             total_tokens = Some 0, total_cost = Some 0, avg_latency_ms = Some 0,
             first_seen = fold min instants (hd instants),
             last_seen = fold max instants (hd instants)\<rparr>])"

definition events_db :: "int list \<Rightarrow> Env" where
  "events_db instants =
     \<lparr>connect = (\<lambda>team. None),
      agg_query =
        (\<lambda>q. case q of
           BaseAgg cols s e team \<Rightarrow>
             Inr (count_row (filter (\<lambda>t. base_counts (s, e) t) instants))
         | ModelCA p s e \<Rightarrow>
             Inr (count_row (map bucket_of (filter (\<lambda>t. ca_counts s e t) instants)))
         | AgentCA s e \<Rightarrow> Inr []
         | BaseAggPaged cols s e team l ofs \<Rightarrow>
             Inr (count_row (filter (\<lambda>t. s \<le> t \<and> t \<le> e) instants))),
      raw_query = (\<lambda>q. Inr [])\<rparr>"

section \<open>Properties\<close>

subsection \<open>Partition of the window\<close>

lemma utcDayStart_le: "utcDayStart d \<le> d"
  by (simp add: utcDayStart_def DAY_MS_def)

lemma utcDayStart_gt: "d < utcDayStart d + DAY_MS"
proof -
  have "d mod DAY_MS < DAY_MS" by (simp add: DAY_MS_def)
  then show ?thesis by (simp add: utcDayStart_def)
qed

lemma utcDayStart_mono: "a \<le> b \<Longrightarrow> utcDayStart a \<le> utcDayStart b"
proof -
  assume ab: "a \<le> b"
  have "a div DAY_MS \<le> b div DAY_MS"
    using ab by (simp add: DAY_MS_def zdiv_mono1)
  moreover have "utcDayStart a = DAY_MS * (a div DAY_MS)"
    by (simp add: utcDayStart_def minus_mod_eq_mult_div)
  moreover have "utcDayStart b = DAY_MS * (b div DAY_MS)"
    by (simp add: utcDayStart_def minus_mod_eq_mult_div)
  ultimately show ?thesis by (simp add: DAY_MS_def)
qed

lemma fullBucketStart_ge: "startDate \<le> fullBucketStart startDate"
  using utcDayStart_gt [of startDate]
  by (simp add: fullBucketStart_def addUtcDays_def DAY_MS_def)

lemma fullBucketEnd_le: "fullBucketEnd endDate \<le> endDate"
  by (simp add: fullBucketEnd_def utcDayStart_le)

lemma utcDayStart_mult: "utcDayStart d = DAY_MS * (d div DAY_MS)"
  by (simp add: utcDayStart_def minus_mod_eq_mult_div)

lemma utcDayStart_same_day:
  assumes "utcDayStart a \<le> utcDayStart b" and "utcDayStart b < utcDayStart a + DAY_MS"
  shows "utcDayStart b = utcDayStart a"
proof -
  have "a div DAY_MS \<le> b div DAY_MS"
    using assms(1) by (simp add: utcDayStart_mult DAY_MS_def)
  moreover have "b div DAY_MS < a div DAY_MS + 1"
    using assms(2) by (simp add: utcDayStart_mult DAY_MS_def)
  ultimately have "b div DAY_MS = a div DAY_MS" by simp
  then show ?thesis by (simp add: utcDayStart_mult)
qed

text \<open>
  A window inside one UTC day that does not start at midnight: the first day start on or
  after \<open>startDate\<close> lies after the start of the day of \<open>endDate\<close>, both
  \<^verbatim>\<open>pushRange\<close> calls are clamped to the whole window, and both push it.
\<close>

lemma partialRanges_same_day:
  assumes "startDate < endDate" and "fullBucketEnd endDate < fullBucketStart startDate"
  shows "partialRanges startDate endDate = [(startDate, endDate), (startDate, endDate)]"
proof -
  have c: "utcDayStart startDate \<le> utcDayStart endDate"
    using assms(1) by (simp add: utcDayStart_mono)
  have g: "utcDayStart endDate = utcDayStart startDate"
    using c assms(2) utcDayStart_same_day [of startDate endDate]
    by (auto simp add: fullBucketStart_def fullBucketEnd_def addUtcDays_def DAY_MS_def
        split: if_splits)
  have e: "endDate < fullBucketStart startDate"
    using g assms(2) utcDayStart_gt [of endDate]
    by (auto simp add: fullBucketStart_def fullBucketEnd_def addUtcDays_def DAY_MS_def
        split: if_splits)
  have f: "fullBucketEnd endDate \<le> startDate"
    using g utcDayStart_le [of startDate] by (simp add: fullBucketEnd_def)
  have "min endDate (fullBucketStart startDate) = endDate" using e by simp
  moreover have "max startDate (fullBucketEnd endDate) = startDate" using f by simp
  ultimately show ?thesis
    using assms(1) by (simp add: partialRanges_def pushRange_def)
qed

text \<open>Every other window: a head up to the first full day and a tail from the last one.\<close>

lemma partialRanges_split:
  assumes "startDate < endDate" and "fullBucketStart startDate \<le> fullBucketEnd endDate"
  shows "partialRanges startDate endDate =
     (if startDate < fullBucketStart startDate
      then [(startDate, fullBucketStart startDate)] else [])
     @ (if fullBucketEnd endDate < endDate then [(fullBucketEnd endDate, endDate)] else [])"
proof -
  have a: "startDate \<le> fullBucketStart startDate" by (rule fullBucketStart_ge)
  have b: "fullBucketEnd endDate \<le> endDate" by (rule fullBucketEnd_le)
  have "min endDate (fullBucketStart startDate) = fullBucketStart startDate"
    using b assms(2) by simp
  moreover have "max startDate (fullBucketEnd endDate) = fullBucketEnd endDate"
    using a assms(2) by simp
  ultimately show ?thesis
    by (simp add: partialRanges_def pushRange_def not_le)
qed

subsection \<open>Percent change and derived ratios\<close>

text \<open>
  C7. The \<^verbatim>\<open>change_pct\<close> of every metric is \<open>(curr - prev) / prev * 100\<close> when
  \<open>prev \<noteq> 0\<close>, and for \<open>prev = 0\<close> it is 100 if \<open>curr > 0\<close> and 0 otherwise; the
  cache-hit rate, the streaming rate, the average calls per trace and the cost per 1000
  tokens are 0 whenever their denominator is 0.
\<close>

theorem zero_guarded_ratios:
  "metrics_change_pct current previous =
     map (\<lambda>(name, c, p). (name,
            if num p = 0 then (if num c > 0 then 100 else 0)
            else (num c - num p) / num p * 100))
         (metric_operands current previous)
   \<and> (num p \<noteq> 0 \<longrightarrow> pctChange c p = (num c - num p) / num p * 100)
   \<and> (num p = 0 \<and> num c > 0 \<longrightarrow> pctChange c p = 100)
   \<and> (num p = 0 \<and> \<not> num c > 0 \<longrightarrow> pctChange c p = 0)
   \<and> (num (MetricRow.total_input_tokens r) = 0 \<longrightarrow> cacheHitRate r = 0)
   \<and> (int' (MetricRow.total_requests r) = 0 \<longrightarrow> streamingRate r = 0)
   \<and> (int' (MetricRow.unique_traces r) = 0 \<longrightarrow> avgCallsPerTrace r = 0)
   \<and> (num (MetricRow.total_tokens r) = 0 \<longrightarrow> costPer1kTokens r = 0)"
  by (simp add: metrics_change_pct_def pctChange_def Let_def cacheHitRate_def
      streamingRate_def avgCallsPerTrace_def costPer1kTokens_def)

text \<open>
  The examples of the specification (\<open>prev = 0, curr = 5\<close> gives 100; \<open>prev = 0,
  curr = 0\<close> gives 0), a change from 120 to 150, and the ratios of a period without
  events.
\<close>

theorem zero_guarded_ratios_witness:
  "pctChange (Some 5) None = 100 \<and> pctChange (Some 0) (Some 0) = 0
   \<and> pctChange (Some 150) (Some 120) = 25
   \<and> cacheHitRate missing_period_row = 0 \<and> streamingRate missing_period_row = 0
   \<and> avgCallsPerTrace missing_period_row = 0 \<and> costPer1kTokens missing_period_row = 0"
proof -
  have a: "pctChange (Some 5) None = 100"
    using zero_guarded_ratios [of missing_period_row missing_period_row None "Some 5"]
    by (simp add: num_def)
  have b: "pctChange (Some 0) (Some 0) = 0"
    using zero_guarded_ratios [of missing_period_row missing_period_row "Some 0" "Some 0"]
    by (simp add: num_def)
  have c: "pctChange (Some 150) (Some 120) = 25"
    using zero_guarded_ratios [of missing_period_row missing_period_row "Some 120" "Some 150"]
    by (simp add: num_def)
  have d: "cacheHitRate missing_period_row = 0 \<and> streamingRate missing_period_row = 0
     \<and> avgCallsPerTrace missing_period_row = 0 \<and> costPer1kTokens missing_period_row = 0"
    using zero_guarded_ratios [of missing_period_row missing_period_row None None
        missing_period_row]
    by (simp add: num_def int'_def missing_period_row_def)
  show ?thesis using a b c d by simp
qed

subsection \<open>Merging partial aggregates\<close>

lemma map_of_addRow_other:
  "row_key keyFields row \<noteq> k \<Longrightarrow> map_of (addRow keyFields row merged) k = map_of merged k"
  by (simp add: addRow_def Let_def update_conv split: option.split)

lemma map_of_addRow_cong:
  "map_of merged k = map_of merged' k \<Longrightarrow>
   map_of (addRow keyFields row merged) k = map_of (addRow keyFields row merged') k"
  by (cases "row_key keyFields row = k")
     (simp_all add: addRow_def Let_def update_conv split: option.split)

lemma map_of_fold_addRow_filter:
  "map_of merged k = map_of merged' k \<Longrightarrow>
   map_of (fold (addRow keyFields) rows merged) k
     = map_of (fold (addRow keyFields) (filter (\<lambda>r. row_key keyFields r = k) rows) merged') k"
proof (induction rows arbitrary: merged merged')
  case Nil
  then show ?case by simp
next
  case (Cons r rows)
  show ?case
  proof (cases "row_key keyFields r = k")
    case True
    have "map_of (addRow keyFields r merged) k = map_of (addRow keyFields r merged') k"
      using Cons.prems by (rule map_of_addRow_cong)
    then show ?thesis using True Cons.IH by simp
  next
    case False
    have "map_of (addRow keyFields r merged) k = map_of merged' k"
      using False Cons.prems by (simp add: map_of_addRow_other)
    then show ?thesis using False Cons.IH by simp
  qed
qed

lemma map_of_merged_map:
  "map_of (merged_map caRows baseRows keyFields) k
     = map_of (fold (addRow keyFields)
         (filter (\<lambda>r. row_key keyFields r = k) (caRows @ baseRows)) []) k"
proof -
  have "merged_map caRows baseRows keyFields = fold (addRow keyFields) (caRows @ baseRows) []"
    by (simp add: merged_map_def)
  then show ?thesis
    using map_of_fold_addRow_filter [of "[]" k "[]" keyFields "caRows @ baseRows"] by simp
qed

lemma mergeResults_member:
  assumes "map_of (merged_map caRows baseRows keyFields) k = Some m"
  shows "m\<lparr>latency_sum := 0\<rparr> \<in> set (mergeResults caRows baseRows keyFields)"
proof -
  have "(k, m) \<in> set (merged_map caRows baseRows keyFields)"
    using assms by (rule map_of_SomeD)
  then have "m\<lparr>latency_sum := 0\<rparr>
      \<in> (\<lambda>x. snd x\<lparr>latency_sum := 0\<rparr>) ` set (merged_map caRows baseRows keyFields)"
    by (rule rev_image_eqI) simp
  then show ?thesis by (simp add: mergeResults_def image_image)
qed

lemma addRow_existing:
  assumes "row_key keyFields x = k" and "map_of merged k = Some m"
  shows "map_of (addRow keyFields x merged) k = Some (m
     \<lparr>request_count := request_count m + int' (QueryRow.request_count x),
      total_input_tokens := total_input_tokens m + int' (QueryRow.total_input_tokens x),
      total_output_tokens := total_output_tokens m + int' (QueryRow.total_output_tokens x),
      total_tokens := total_tokens m + int' (QueryRow.total_tokens x),
      total_cost := total_cost m + num (QueryRow.total_cost x),
      avg_latency_ms :=
        (if request_count m + int' (QueryRow.request_count x) > 0
         then (latency_sum m + num (QueryRow.avg_latency_ms x)
                 * real_of_int (int' (QueryRow.request_count x)))
              / real_of_int (request_count m + int' (QueryRow.request_count x))
         else 0),
      latency_sum := latency_sum m + num (QueryRow.avg_latency_ms x)
                       * real_of_int (int' (QueryRow.request_count x)),
      first_seen := min (first_seen m) (QueryRow.first_seen x),
      last_seen := max (last_seen m) (QueryRow.last_seen x)\<rparr>)"
  using assms by (simp add: addRow_def Let_def update_conv min_def max_def)

lemma addRow_new:
  assumes "row_key keyFields x = k"
  shows "map_of (addRow keyFields x []) k = Some
     \<lparr>key_values = map (\<lambda>f. (f, group_values x f)) keyFields,
      request_count = int' (QueryRow.request_count x),
      total_input_tokens = int' (QueryRow.total_input_tokens x),
      total_output_tokens = int' (QueryRow.total_output_tokens x),
      total_tokens = int' (QueryRow.total_tokens x),
      total_cost = num (QueryRow.total_cost x),
      avg_latency_ms = num (QueryRow.avg_latency_ms x),
      latency_sum = num (QueryRow.avg_latency_ms x)
                      * real_of_int (int' (QueryRow.request_count x)),
      first_seen = QueryRow.first_seen x,
      last_seen = QueryRow.last_seen x\<rparr>"
  using assms by (simp add: addRow_def Let_def)

lemma fold_addRow_key:
  assumes keys: "\<forall>r \<in> set rs. row_key keyFields r = k"
    and found: "map_of merged k = Some e"
  shows "\<exists>m. map_of (fold (addRow keyFields) rs merged) k = Some m
     \<and> key_values m = key_values e
     \<and> request_count m
         = request_count e + sum_list (map (\<lambda>r. int' (QueryRow.request_count r)) rs)
     \<and> total_input_tokens m
         = total_input_tokens e + sum_list (map (\<lambda>r. int' (QueryRow.total_input_tokens r)) rs)
     \<and> total_output_tokens m
         = total_output_tokens e
           + sum_list (map (\<lambda>r. int' (QueryRow.total_output_tokens r)) rs)
     \<and> total_tokens m
         = total_tokens e + sum_list (map (\<lambda>r. int' (QueryRow.total_tokens r)) rs)
     \<and> total_cost m = total_cost e + sum_list (map (\<lambda>r. num (QueryRow.total_cost r)) rs)
     \<and> latency_sum m
         = latency_sum e
           + sum_list (map (\<lambda>r. num (QueryRow.avg_latency_ms r)
                                  * real_of_int (int' (QueryRow.request_count r))) rs)
     \<and> avg_latency_ms m
         = (if rs = [] then avg_latency_ms e
            else if 0 < request_count m then latency_sum m / real_of_int (request_count m)
            else 0)
     \<and> first_seen m = fold min (map QueryRow.first_seen rs) (first_seen e)
     \<and> last_seen m = fold max (map QueryRow.last_seen rs) (last_seen e)"
  using keys
proof (induction rs rule: rev_induct)
  case Nil
  then show ?case using found by simp
next
  case (snoc x xs)
  then obtain m where m: "map_of (fold (addRow keyFields) xs merged) k = Some m"
    and fields: "key_values m = key_values e"
      "request_count m
         = request_count e + sum_list (map (\<lambda>r. int' (QueryRow.request_count r)) xs)"
      "total_input_tokens m
         = total_input_tokens e + sum_list (map (\<lambda>r. int' (QueryRow.total_input_tokens r)) xs)"
      "total_output_tokens m
         = total_output_tokens e
           + sum_list (map (\<lambda>r. int' (QueryRow.total_output_tokens r)) xs)"
      "total_tokens m
         = total_tokens e + sum_list (map (\<lambda>r. int' (QueryRow.total_tokens r)) xs)"
      "total_cost m = total_cost e + sum_list (map (\<lambda>r. num (QueryRow.total_cost r)) xs)"
      "latency_sum m
         = latency_sum e
           + sum_list (map (\<lambda>r. num (QueryRow.avg_latency_ms r)
                                  * real_of_int (int' (QueryRow.request_count r))) xs)"
      "first_seen m = fold min (map QueryRow.first_seen xs) (first_seen e)"
      "last_seen m = fold max (map QueryRow.last_seen xs) (last_seen e)"
    by auto
  have key: "row_key keyFields x = k" using snoc.prems by simp
  define m' where "m' = m
     \<lparr>request_count := request_count m + int' (QueryRow.request_count x),
      total_input_tokens := total_input_tokens m + int' (QueryRow.total_input_tokens x),
      total_output_tokens := total_output_tokens m + int' (QueryRow.total_output_tokens x),
      total_tokens := total_tokens m + int' (QueryRow.total_tokens x),
      total_cost := total_cost m + num (QueryRow.total_cost x),
      avg_latency_ms :=
        (if request_count m + int' (QueryRow.request_count x) > 0
         then (latency_sum m + num (QueryRow.avg_latency_ms x)
                 * real_of_int (int' (QueryRow.request_count x)))
              / real_of_int (request_count m + int' (QueryRow.request_count x))
         else 0),
      latency_sum := latency_sum m + num (QueryRow.avg_latency_ms x)
                       * real_of_int (int' (QueryRow.request_count x)),
      first_seen := min (first_seen m) (QueryRow.first_seen x),
      last_seen := max (last_seen m) (QueryRow.last_seen x)\<rparr>"
  have "map_of (fold (addRow keyFields) (xs @ [x]) merged) k = Some m'"
    using m key by (simp add: addRow_existing m'_def)
  moreover have "key_values m' = key_values e"
    and "request_count m'
         = request_count e + sum_list (map (\<lambda>r. int' (QueryRow.request_count r)) (xs @ [x]))"
    and "total_input_tokens m'
         = total_input_tokens e
           + sum_list (map (\<lambda>r. int' (QueryRow.total_input_tokens r)) (xs @ [x]))"
    and "total_output_tokens m'
         = total_output_tokens e
           + sum_list (map (\<lambda>r. int' (QueryRow.total_output_tokens r)) (xs @ [x]))"
    and "total_tokens m'
         = total_tokens e + sum_list (map (\<lambda>r. int' (QueryRow.total_tokens r)) (xs @ [x]))"
    and "total_cost m'
         = total_cost e + sum_list (map (\<lambda>r. num (QueryRow.total_cost r)) (xs @ [x]))"
    and "latency_sum m'
         = latency_sum e
           + sum_list (map (\<lambda>r. num (QueryRow.avg_latency_ms r)
                                  * real_of_int (int' (QueryRow.request_count r))) (xs @ [x]))"
    and "avg_latency_ms m'
         = (if xs @ [x] = [] then avg_latency_ms e
            else if 0 < request_count m' then latency_sum m' / real_of_int (request_count m')
            else 0)"
    and "first_seen m' = fold min (map QueryRow.first_seen (xs @ [x])) (first_seen e)"
    and "last_seen m' = fold max (map QueryRow.last_seen (xs @ [x])) (last_seen e)"
    using fields by (simp_all add: m'_def min.commute max.commute)
  ultimately show ?case by blast
qed

text \<open>
  C3. For every group key \<open>k\<close> that occurs among the rows handed to the merger, whatever
  their number, their order and their source: \<open>rs\<close> are the rows of that key, as the
  merger meets them, with request counts that are not negative. The merged row of
  \<open>k\<close> is in the output, and its \<open>avg_latency_ms\<close> is the mean of the averages
  weighted by the request counts, \<open>(avgA * countA + avgB * countB + \<dots>) / (countA +
  countB + \<dots>)\<close>, or 0 when the combined count is 0 (a row that is alone with its key
  keeps its own average); request count, token sums and total cost are the sums,
  \<open>first_seen\<close> and \<open>last_seen\<close> are the minimum and the maximum, and the key
  values are those of the first row.
\<close>

theorem weighted_average_merge:
  assumes rows: "rs = filter (\<lambda>r. row_key keyFields r = k) (caRows @ baseRows)"
    and present: "rs \<noteq> []"
    and counts: "\<forall>r \<in> set rs. 0 \<le> int' (QueryRow.request_count r)"
  shows "\<exists>m. map_of (merged_map caRows baseRows keyFields) k = Some m
     \<and> m\<lparr>latency_sum := 0\<rparr> \<in> set (mergeResults caRows baseRows keyFields)
     \<and> avg_latency_ms m =
         (if length rs = 1 then num (QueryRow.avg_latency_ms (hd rs))
          else if sum_list (map (\<lambda>r. int' (QueryRow.request_count r)) rs) = 0 then 0
          else sum_list (map (\<lambda>r. num (QueryRow.avg_latency_ms r)
                                   * real_of_int (int' (QueryRow.request_count r))) rs)
               / real_of_int (sum_list (map (\<lambda>r. int' (QueryRow.request_count r)) rs)))
     \<and> request_count m = sum_list (map (\<lambda>r. int' (QueryRow.request_count r)) rs)
     \<and> total_input_tokens m = sum_list (map (\<lambda>r. int' (QueryRow.total_input_tokens r)) rs)
     \<and> total_output_tokens m = sum_list (map (\<lambda>r. int' (QueryRow.total_output_tokens r)) rs)
     \<and> total_tokens m = sum_list (map (\<lambda>r. int' (QueryRow.total_tokens r)) rs)
     \<and> total_cost m = sum_list (map (\<lambda>r. num (QueryRow.total_cost r)) rs)
     \<and> first_seen m = Min (QueryRow.first_seen ` set rs)
     \<and> last_seen m = Max (QueryRow.last_seen ` set rs)
     \<and> key_values m = map (\<lambda>f. (f, group_values (hd rs) f)) keyFields"
proof -
  obtain r rest where rs: "rs = r # rest"
    using present by (cases rs) auto
  have all_k: "\<forall>x \<in> set rs. row_key keyFields x = k"
    by (auto simp add: rows)
  then have key_r: "row_key keyFields r = k" and key_rest: "\<forall>x \<in> set rest. row_key keyFields x = k"
    by (simp_all add: rs)
  define e where "e =
     \<lparr>key_values = map (\<lambda>f. (f, group_values r f)) keyFields,
      request_count = int' (QueryRow.request_count r),
      total_input_tokens = int' (QueryRow.total_input_tokens r),
      total_output_tokens = int' (QueryRow.total_output_tokens r),
      total_tokens = int' (QueryRow.total_tokens r),
      total_cost = num (QueryRow.total_cost r),
      avg_latency_ms = num (QueryRow.avg_latency_ms r),
      latency_sum = num (QueryRow.avg_latency_ms r)
                      * real_of_int (int' (QueryRow.request_count r)),
      first_seen = QueryRow.first_seen r,
      last_seen = QueryRow.last_seen r\<rparr>"
  have first: "map_of (addRow keyFields r []) k = Some e"
    unfolding e_def by (rule addRow_new [OF key_r])
  obtain m where m: "map_of (fold (addRow keyFields) rest (addRow keyFields r [])) k = Some m"
    and fields: "key_values m = key_values e"
      "request_count m
         = request_count e + sum_list (map (\<lambda>r. int' (QueryRow.request_count r)) rest)"
      "total_input_tokens m
         = total_input_tokens e
           + sum_list (map (\<lambda>r. int' (QueryRow.total_input_tokens r)) rest)"
      "total_output_tokens m
         = total_output_tokens e
           + sum_list (map (\<lambda>r. int' (QueryRow.total_output_tokens r)) rest)"
      "total_tokens m
         = total_tokens e + sum_list (map (\<lambda>r. int' (QueryRow.total_tokens r)) rest)"
      "total_cost m = total_cost e + sum_list (map (\<lambda>r. num (QueryRow.total_cost r)) rest)"
    and latency: "latency_sum m
         = latency_sum e
           + sum_list (map (\<lambda>r. num (QueryRow.avg_latency_ms r)
                                  * real_of_int (int' (QueryRow.request_count r))) rest)"
      "avg_latency_ms m
         = (if rest = [] then avg_latency_ms e
            else if 0 < request_count m then latency_sum m / real_of_int (request_count m)
            else 0)"
    and seen: "first_seen m = fold min (map QueryRow.first_seen rest) (first_seen e)"
      "last_seen m = fold max (map QueryRow.last_seen rest) (last_seen e)"
    using fold_addRow_key [OF key_rest first] by blast
  have "map_of (merged_map caRows baseRows keyFields) k
      = map_of (fold (addRow keyFields) rs []) k"
    unfolding rows by (rule map_of_merged_map)
  then have found: "map_of (merged_map caRows baseRows keyFields) k = Some m"
    using m by (simp add: rs)
  have nonneg: "0 \<le> sum_list (map (\<lambda>r. int' (QueryRow.request_count r)) rs)"
    using counts by (intro sum_list_nonneg) auto
  have sums: "request_count m = sum_list (map (\<lambda>r. int' (QueryRow.request_count r)) rs)"
    "total_input_tokens m = sum_list (map (\<lambda>r. int' (QueryRow.total_input_tokens r)) rs)"
    "total_output_tokens m = sum_list (map (\<lambda>r. int' (QueryRow.total_output_tokens r)) rs)"
    "total_tokens m = sum_list (map (\<lambda>r. int' (QueryRow.total_tokens r)) rs)"
    "total_cost m = sum_list (map (\<lambda>r. num (QueryRow.total_cost r)) rs)"
    "latency_sum m = sum_list (map (\<lambda>r. num (QueryRow.avg_latency_ms r)
                                   * real_of_int (int' (QueryRow.request_count r))) rs)"
    using fields latency(1) by (simp_all add: rs e_def)
  have average: "avg_latency_ms m =
         (if length rs = 1 then num (QueryRow.avg_latency_ms (hd rs))
          else if sum_list (map (\<lambda>r. int' (QueryRow.request_count r)) rs) = 0 then 0
          else sum_list (map (\<lambda>r. num (QueryRow.avg_latency_ms r)
                                   * real_of_int (int' (QueryRow.request_count r))) rs)
               / real_of_int (sum_list (map (\<lambda>r. int' (QueryRow.request_count r)) rs)))"
  proof (cases "rest = []")
    case True
    then show ?thesis using latency(2) by (simp add: rs e_def)
  next
    case False
    then have "avg_latency_ms m
         = (if 0 < request_count m then latency_sum m / real_of_int (request_count m)
            else 0)"
      using latency(2) by simp
    moreover have "length rs \<noteq> 1" using False by (simp add: rs)
    ultimately show ?thesis
      using nonneg by (simp only: sums) auto
  qed
  have earliest: "first_seen m = Min (QueryRow.first_seen ` set rs)"
  proof -
    have "Min (QueryRow.first_seen ` set rs)
        = Min (set (QueryRow.first_seen r # map QueryRow.first_seen rest))"
      by (simp add: rs)
    also have "\<dots> = fold min (map QueryRow.first_seen rest) (QueryRow.first_seen r)"
      by (rule Min.set_eq_fold)
    finally show ?thesis using seen(1) by (simp add: e_def)
  qed
  have latest: "last_seen m = Max (QueryRow.last_seen ` set rs)"
  proof -
    have "Max (QueryRow.last_seen ` set rs)
        = Max (set (QueryRow.last_seen r # map QueryRow.last_seen rest))"
      by (simp add: rs)
    also have "\<dots> = fold max (map QueryRow.last_seen rest) (QueryRow.last_seen r)"
      by (rule Max.set_eq_fold)
    finally show ?thesis using seen(2) by (simp add: e_def)
  qed
  have key_values: "key_values m = map (\<lambda>f. (f, group_values (hd rs) f)) keyFields"
    using fields(1) by (simp add: rs e_def)
  show ?thesis
    using found mergeResults_member [OF found] average sums(1-5) earliest latest key_values
    by blast
qed

text \<open>
  The example of the specification: 10 ms over 1 request merged with 100 ms over 9
  requests is 91 ms, not 55 ms. And the three rows that the hybrid path has for a key,
  from the rollup, the head range and the tail range: merging 100 ms over 9 requests,
  10 ms over 1 and 50 ms over 10 gives 70.5 ms over 20 requests.
\<close>

theorem weighted_average_merge_witness:
  "filter (\<lambda>r. row_key [''model''] r = ''gpt-4'') ([example_row_A] @ [example_row_B])
     = [example_row_A, example_row_B]
   \<and> (\<exists>m. map_of (merged_map [example_row_A] [example_row_B] [''model'']) ''gpt-4'' = Some m
        \<and> m\<lparr>latency_sum := 0\<rparr> \<in> set (mergeResults [example_row_A] [example_row_B] [''model''])
        \<and> avg_latency_ms m = 91 \<and> request_count m = 10
        \<and> total_input_tokens m = 1000 \<and> total_output_tokens m = 200
        \<and> total_tokens m = 1200 \<and> total_cost m = 1 / 10
        \<and> first_seen m = 1704110400000 \<and> last_seen m = 1704153600000)
   \<and> filter (\<lambda>r. row_key [''model''] r = ''gpt-4'')
        ([example_row_B] @ [example_row_A, example_row_C])
     = [example_row_B, example_row_A, example_row_C]
   \<and> (\<exists>m. map_of (merged_map [example_row_B] [example_row_A, example_row_C] [''model''])
              ''gpt-4'' = Some m
        \<and> m\<lparr>latency_sum := 0\<rparr>
            \<in> set (mergeResults [example_row_B] [example_row_A, example_row_C] [''model''])
        \<and> avg_latency_ms m = 141 / 2 \<and> request_count m = 20
        \<and> total_input_tokens m = 2000 \<and> total_output_tokens m = 400
        \<and> total_tokens m = 2400 \<and> total_cost m = 1 / 5
        \<and> first_seen m = 1704110400000 \<and> last_seen m = 1704260000000)"
proof -
  have two: "filter (\<lambda>r. row_key [''model''] r = ''gpt-4'') ([example_row_A] @ [example_row_B])
     = [example_row_A, example_row_B]"
    by (simp add: row_key_def example_row_A_def example_row_B_def)
  have three: "filter (\<lambda>r. row_key [''model''] r = ''gpt-4'')
        ([example_row_B] @ [example_row_A, example_row_C])
     = [example_row_B, example_row_A, example_row_C]"
    by (simp add: row_key_def example_row_A_def example_row_B_def example_row_C_def)
  have nonneg: "0 \<le> int' (QueryRow.request_count example_row_A)"
    "0 \<le> int' (QueryRow.request_count example_row_B)"
    "0 \<le> int' (QueryRow.request_count example_row_C)"
    by (simp_all add: int'_def example_row_A_def example_row_B_def example_row_C_def)
  have a: "\<exists>m. map_of (merged_map [example_row_A] [example_row_B] [''model'']) ''gpt-4'' = Some m
        \<and> m\<lparr>latency_sum := 0\<rparr> \<in> set (mergeResults [example_row_A] [example_row_B] [''model''])
        \<and> avg_latency_ms m = 91 \<and> request_count m = 10
        \<and> total_input_tokens m = 1000 \<and> total_output_tokens m = 200
        \<and> total_tokens m = 1200 \<and> total_cost m = 1 / 10
        \<and> first_seen m = 1704110400000 \<and> last_seen m = 1704153600000"
    using weighted_average_merge [OF two [symmetric], of] nonneg
    by (simp add: int'_def num_def example_row_A_def example_row_B_def) blast
  have b: "\<exists>m. map_of (merged_map [example_row_B] [example_row_A, example_row_C] [''model''])
              ''gpt-4'' = Some m
        \<and> m\<lparr>latency_sum := 0\<rparr>
            \<in> set (mergeResults [example_row_B] [example_row_A, example_row_C] [''model''])
        \<and> avg_latency_ms m = 141 / 2 \<and> request_count m = 20
        \<and> total_input_tokens m = 2000 \<and> total_output_tokens m = 400
        \<and> total_tokens m = 2400 \<and> total_cost m = 1 / 5
        \<and> first_seen m = 1704110400000 \<and> last_seen m = 1704260000000"
    using weighted_average_merge [OF three [symmetric]] nonneg
    by (simp add: int'_def num_def example_row_A_def example_row_B_def example_row_C_def)
       blast
  show ?thesis using two a three b by blast
qed

text \<open>The whole output of the merger on the example.\<close>

lemma merge_example:
  "mergeResults [example_row_A] [example_row_B] [''model'']
     = [\<lparr>key_values = [(''model'', Some ''gpt-4'')], request_count = 10,
         total_input_tokens = 1000, total_output_tokens = 200, total_tokens = 1200,
         total_cost = 1 / 10, avg_latency_ms = 91, latency_sum = 0,
         first_seen = 1704110400000, last_seen = 1704153600000\<rparr>]"
  by (simp add: mergeResults_def merged_map_def addRow_def row_key_def Let_def int'_def num_def
      example_row_A_def example_row_B_def)

subsection \<open>The \<^verbatim>\<open>/logs\<close> handler: status of the response\<close>

lemma status_grouped_response [simp]:
  "status (grouped_response startDate endDate groupFields rows usedCA) = 200"
  by (simp add: grouped_response_def res_json_def)

lemma status_logs_failed [simp]: "status (logs_failed message) = 500"
  by (simp add: logs_failed_def res_status_json_def)

lemma base_table_fallback_status:
  "base_table_fallback env team startDate endDate groupFields limit offset = Inr r
   \<Longrightarrow> status r = 200"
  by (auto simp add: base_table_fallback_def split: sum.splits)

lemma logs_grouped_invalid:
  "parse_group_fields g = [] \<Longrightarrow>
   logs_grouped env team startDate endDate limit offset g =
     Inr (res_status_json 400 (JObj
             [(''error'', JStr ''invalid_group_by''),
              (''detail'',
                 JStr ''group_by must be one or more of: model, agent, provider'')]))"
  by (simp add: logs_grouped_def)

lemma logs_grouped_valid_status:
  "parse_group_fields g \<noteq> [] \<Longrightarrow>
   logs_grouped env team startDate endDate limit offset g = Inr r \<Longrightarrow> status r = 200"
  by (auto simp add: logs_grouped_def Let_def base_table_fallback_status
      split: option.splits if_splits)

lemma logs_raw_status:
  "logs_raw env team startDate endDate limit offset typeFilter successFilter = Inr r
   \<Longrightarrow> status r = 200"
  by (auto simp add: logs_raw_def res_json_def split: sum.splits)

text \<open>When the handler answers 400.\<close>

lemma logs_handler_400_iff:
  "status (logs_handler env req) = 400 \<longleftrightarrow>
     (\<exists>c. ctx req = Some c \<and> team_id c \<noteq> []
        \<and> (q_start req = None \<or> q_end req = None
            \<or> (connect env (team_id c) = None
                \<and> (\<exists>g. q_group_by req = Some g \<and> g \<noteq> [] \<and> parse_group_fields g = []))))"
proof (cases "ctx req")
  case None
  then show ?thesis
    by (simp add: logs_handler_def invalid_token_def res_status_json_def)
next
  case (Some c)
  show ?thesis
  proof (cases "team_id c = []")
    case True
    then show ?thesis
      using Some by (simp add: logs_handler_def invalid_token_def res_status_json_def)
  next
    case team: False
    show ?thesis
    proof (cases "q_start req = None \<or> q_end req = None")
      case True
      then show ?thesis
        using Some team
        by (auto simp add: logs_handler_def invalid_time_window_def res_status_json_def
            split: option.splits)
    next
      case False
      then obtain s e where se: "q_start req = Some s" "q_end req = Some e" by auto
      show ?thesis
      proof (cases "connect env (team_id c)")
        case (Some err)
        then show ?thesis
          using \<open>ctx req = Some c\<close> team se by (simp add: logs_handler_def)
      next
        case None
        show ?thesis
        proof (cases "\<exists>g. q_group_by req = Some g \<and> g \<noteq> []")
          case True
          then obtain g where g: "q_group_by req = Some g" "g \<noteq> []" by auto
          show ?thesis
          proof (cases "parse_group_fields g = []")
            case True
            then show ?thesis
              using \<open>ctx req = Some c\<close> team se None g
              by (simp add: logs_handler_def logs_grouped_invalid res_status_json_def)
          next
            case False
            have "status (case logs_grouped env (team_id c) s e (effective_limit (q_limit req))
                     (effective_offset (q_offset req)) g of
                   Inl err \<Rightarrow> logs_failed err | Inr response \<Rightarrow> response) \<noteq> 400"
              using logs_grouped_valid_status [OF False]
              by (auto split: sum.splits)
            then show ?thesis
              using \<open>ctx req = Some c\<close> team se None g False
              by (simp add: logs_handler_def Let_def)
          qed
        next
          case False
          have "status (case logs_raw env (team_id c) s e (effective_limit (q_limit req))
                     (effective_offset (q_offset req)) (q_type req) (q_success req) of
                   Inl err \<Rightarrow> logs_failed err | Inr response \<Rightarrow> response) \<noteq> 400"
            using logs_raw_status by (auto split: sum.splits)
          then show ?thesis
            using \<open>ctx req = Some c\<close> team se None False
            by (auto simp add: logs_handler_def Let_def split: option.splits)
        qed
      qed
    qed
  qed
qed

subsection \<open>Fail-open routing\<close>

lemma ca_attempt_eligible:
  assumes "rollup_eligible groupFields"
  shows "ca_attempt env team startDate endDate groupFields limit offset =
     (case hybrid_fetch env team startDate endDate (rollup_key_fields groupFields)
             (rollup_statement groupFields startDate endDate) limit offset of
        Inl err \<Rightarrow> None | Inr rows \<Rightarrow> Some rows)"
  using assms
  by (auto simp add: ca_attempt_def rollup_eligible_def rollup_key_fields_def
      rollup_statement_def Let_def)

lemma hybrid_fetch_rollup_throws:
  assumes "hasFullBuckets startDate endDate" and "agg_query env caSql = Inl err"
  shows "\<exists>err'. hybrid_fetch env team startDate endDate keyFields caSql limit offset = Inl err'"
  using assms by (simp add: hybrid_fetch_def split: sum.split)

lemma source_grouped_response:
  "property (body (grouped_response startDate endDate groupFields rows usedCA)) ''source''
     = Some (JStr (if usedCA then ''continuous_aggregate'' else ''base_table''))"
  by (simp add: grouped_response_def res_json_def)

lemma logs_handler_grouped:
  assumes "ctx req = Some c" and "team_id c \<noteq> []"
    and "q_start req = Some startDate" and "q_end req = Some endDate"
    and "connect env (team_id c) = None"
    and "q_group_by req = Some g" and "g \<noteq> []"
  shows "logs_handler env req =
     (case logs_grouped env (team_id c) startDate endDate (effective_limit (q_limit req))
             (effective_offset (q_offset req)) g of
        Inl err \<Rightarrow> logs_failed err | Inr response \<Rightarrow> response)"
  using assms by (simp add: logs_handler_def Let_def)


lemma example_fields: "parse_group_fields ''model'' = [''model'']"
  by (simp add: parse_group_fields_def validGroupFields_def trim_def js_whitespace_def)


subsection \<open>The partition and the grouped path\<close>

text \<open>
  C1, as stated, fails. For the window from 2024-01-01T12:00Z to 2024-01-01T18:00Z
  (inside one UTC day, not starting at midnight) the handler computes the partial
  range \<open>[start, end)\<close> twice, so the computed ranges are not pairwise disjoint.
\<close>

theorem partition_same_day_counterexample:
  "partialRanges 1704110400000 1704132000000
     = [(1704110400000, 1704132000000), (1704110400000, 1704132000000)]
   \<and> \<not> pairwise_disjoint (map range_set (window_ranges 1704110400000 1704132000000))"
  by (simp add: window_ranges_def partialRanges_def pushRange_def fullBucketStart_def
      fullBucketEnd_def utcDayStart_def addUtcDays_def DAY_MS_def range_set_def)

lemma logs_grouped_no_full_buckets:
  assumes "\<not> hasFullBuckets startDate endDate" and "parse_group_fields g \<noteq> []"
  shows "logs_grouped env team startDate endDate limit offset g
     = base_table_fallback env team startDate endDate (parse_group_fields g) limit offset"
  using assms by (simp add: logs_grouped_def Let_def split: option.split)

text \<open>
  C1, amended. For every window with \<open>start < end\<close> the union of the full-bucket range
  and the partial ranges, read as half-open intervals, is exactly \<open>[start, end)\<close>; and
  whenever \<open>fullBucketStart \<le> fullBucketEnd\<close>, which holds whenever there are full
  buckets, the full-bucket range and the partial ranges are pairwise disjoint. When
  there are no full buckets, the rows fetched for the partial ranges are not used: the
  grouped path answers from the one raw-table aggregation over the whole window.
\<close>

theorem window_partition:
  assumes "startDate < endDate"
  shows "\<Union> (set (map range_set (window_ranges startDate endDate))) = {startDate ..< endDate}
    \<and> (fullBucketStart startDate \<le> fullBucketEnd endDate \<longrightarrow>
         pairwise_disjoint (map range_set (window_ranges startDate endDate)))
    \<and> (\<not> hasFullBuckets startDate endDate \<and> parse_group_fields g \<noteq> [] \<longrightarrow>
         logs_grouped env team startDate endDate limit offset g
           = base_table_fallback env team startDate endDate (parse_group_fields g)
               limit offset)"
proof -
  have a: "startDate \<le> fullBucketStart startDate" by (rule fullBucketStart_ge)
  have b: "fullBucketEnd endDate \<le> endDate" by (rule fullBucketEnd_le)
  have partition: "\<Union> (set (map range_set (window_ranges startDate endDate)))
        = {startDate ..< endDate}
      \<and> (fullBucketStart startDate \<le> fullBucketEnd endDate \<longrightarrow>
           pairwise_disjoint (map range_set (window_ranges startDate endDate)))"
  proof (cases "fullBucketStart startDate \<le> fullBucketEnd endDate")
    case True
    show ?thesis
      using assms a b True
      by (auto simp add: window_ranges_def partialRanges_split range_set_def)
  next
    case False
    then have "fullBucketEnd endDate < fullBucketStart startDate" by simp
    then show ?thesis
      using assms False
      by (auto simp add: window_ranges_def partialRanges_same_day range_set_def)
  qed
  show ?thesis
    using partition logs_grouped_no_full_buckets [of startDate endDate g env team limit offset]
    by blast
qed

text \<open>
  The window of the specification's example, 2024-01-01T12:00Z to 2024-01-03T06:00Z:
  head \<open>[01-01T12:00, 01-02T00:00)\<close>, full \<open>[01-02T00:00, 01-03T00:00)\<close>, tail
  \<open>[01-03T00:00, 01-03T06:00)\<close>. And the window from 12:00 to 18:00 of one day, which
  has no full bucket and is answered from the raw table.
\<close>

theorem window_partition_witness:
  "(1704110400000::int) < 1704261600000
   \<and> window_ranges 1704110400000 1704261600000
       = [(1704153600000, 1704240000000), (1704110400000, 1704153600000),
          (1704240000000, 1704261600000)]
   \<and> \<Union> (set (map range_set (window_ranges 1704110400000 1704261600000)))
       = {1704110400000 ..< 1704261600000}
   \<and> pairwise_disjoint (map range_set (window_ranges 1704110400000 1704261600000))
   \<and> \<not> hasFullBuckets 1704110400000 1704132000000
   \<and> \<Union> (set (map range_set (window_ranges 1704110400000 1704132000000)))
       = {1704110400000 ..< 1704132000000}
   \<and> logs_grouped (answering_env [example_row_A]) ''team-1'' 1704110400000 1704132000000
        (Some 500) (Some 0) ''model''
       = Inr (grouped_response 1704110400000 1704132000000 [''model''] [example_row_A] False)"
proof -
  have lt: "(1704110400000::int) < 1704261600000" by simp
  have ranges: "window_ranges 1704110400000 1704261600000
       = [(1704153600000, 1704240000000), (1704110400000, 1704153600000),
          (1704240000000, 1704261600000)]"
    by (simp add: window_ranges_def partialRanges_def pushRange_def fullBucketStart_def
        fullBucketEnd_def utcDayStart_def addUtcDays_def DAY_MS_def)
  have le: "fullBucketStart 1704110400000 \<le> fullBucketEnd 1704261600000"
    by (simp add: fullBucketStart_def fullBucketEnd_def utcDayStart_def addUtcDays_def
        DAY_MS_def)
  have two_days: "\<Union> (set (map range_set (window_ranges 1704110400000 1704261600000)))
       = {1704110400000 ..< 1704261600000}
     \<and> pairwise_disjoint (map range_set (window_ranges 1704110400000 1704261600000))"
    using window_partition [OF lt] le by blast
  have lt': "(1704110400000::int) < 1704132000000" by simp
  have none: "\<not> hasFullBuckets 1704110400000 1704132000000"
    by (simp add: hasFullBuckets_def fullBucketStart_def fullBucketEnd_def utcDayStart_def
        addUtcDays_def DAY_MS_def)
  have fields: "parse_group_fields ''model'' \<noteq> []"
    by (simp add: example_fields)
  have one_day: "\<Union> (set (map range_set (window_ranges 1704110400000 1704132000000)))
       = {1704110400000 ..< 1704132000000}
     \<and> logs_grouped (answering_env [example_row_A]) ''team-1'' 1704110400000 1704132000000
          (Some 500) (Some 0) ''model''
        = base_table_fallback (answering_env [example_row_A]) ''team-1'' 1704110400000
            1704132000000 (parse_group_fields ''model'') (Some 500) (Some 0)"
    using window_partition [OF lt'] none fields by blast
  have fallback: "base_table_fallback (answering_env [example_row_A]) ''team-1''
        1704110400000 1704132000000 (parse_group_fields ''model'') (Some 500) (Some 0)
      = Inr (grouped_response 1704110400000 1704132000000 [''model''] [example_row_A] False)"
    by (simp add: base_table_fallback_def answering_env_def example_fields)
  show ?thesis
    using lt ranges two_days none one_day fallback by simp
qed

subsection \<open>Validation of the group fields\<close>

lemma logs_grouped_status:
  "logs_grouped env team startDate endDate limit offset g = Inr r \<Longrightarrow> status r \<noteq> 401"
proof (cases "parse_group_fields g = []")
  case True
  assume "logs_grouped env team startDate endDate limit offset g = Inr r"
  then show ?thesis
    using True by (auto simp add: logs_grouped_invalid res_status_json_def)
next
  case False
  assume "logs_grouped env team startDate endDate limit offset g = Inr r"
  then show ?thesis
    using logs_grouped_valid_status [OF False] by fastforce
qed

lemma logs_handler_401_iff:
  "status (logs_handler env req) = 401 \<longleftrightarrow>
     (ctx req = None \<or> (\<exists>c. ctx req = Some c \<and> team_id c = []))"
proof (cases "ctx req")
  case None
  then show ?thesis
    by (simp add: logs_handler_def invalid_token_def res_status_json_def)
next
  case (Some c)
  show ?thesis
  proof (cases "team_id c = []")
    case True
    then show ?thesis
      using Some by (simp add: logs_handler_def invalid_token_def res_status_json_def)
  next
    case False
    have "status (logs_handler env req) \<noteq> 401"
      using Some False logs_grouped_status logs_raw_status
      by (auto simp add: logs_handler_def Let_def invalid_time_window_def res_status_json_def
          split: option.splits sum.splits)
    then show ?thesis using Some False by simp
  qed
qed

lemma group_by_grouped_response:
  "property (body (grouped_response startDate endDate groupFields rows usedCA)) ''group_by''
     = Some (JArr (map JStr groupFields))"
  by (simp add: grouped_response_def res_json_def)

lemma logs_grouped_valid_group_by:
  "parse_group_fields g \<noteq> [] \<Longrightarrow>
   logs_grouped env team startDate endDate limit offset g = Inr r \<Longrightarrow>
   property (body r) ''group_by'' = Some (JArr (map JStr (parse_group_fields g)))"
  by (auto simp add: logs_grouped_def Let_def base_table_fallback_def group_by_grouped_response
      split: option.splits if_splits sum.splits)

lemma hybrid_fetch_answer:
  assumes "hasFullBuckets startDate endDate"
  shows "hybrid_fetch env team startDate endDate keyFields caSql limit offset = Inr merged \<longleftrightarrow>
     (\<exists>caRows results. agg_query env caSql = Inr caRows
        \<and> promise_all
             (map (\<lambda>r. if snd r \<le> fst r then Inr []
                        else agg_query env (BaseAgg keyFields (fst r) (snd r) team))
                (partialRanges startDate endDate)) = Inr results
        \<and> merged = slice (map merged_as_query_row
                             (mergeResults caRows (concat results) keyFields))
                      offset (js_plus offset limit))"
proof -
  have "(\<lambda>r. getBaseAggData env team (fst r) (snd r) keyFields)
      = (\<lambda>r. if snd r \<le> fst r then Inr []
              else agg_query env (BaseAgg keyFields (fst r) (snd r) team))"
    by (simp add: getBaseAggData_def)
  then show ?thesis
    using assms by (auto simp add: hybrid_fetch_def split: sum.splits)
qed

lemma ca_attempt_ineligible:
  assumes "\<not> rollup_eligible groupFields"
  shows "ca_attempt env team startDate endDate groupFields limit offset = None"
  using assms by (auto simp add: ca_attempt_def rollup_eligible_def Let_def)

lemma rollup_key_fields_set:
  assumes "rollup_eligible groupFields"
  shows "set (rollup_key_fields groupFields) = set groupFields"
proof -
  consider (model) "groupFields = [''model'']"
    | (both) a b where "groupFields = [a, b]" "''model'' \<in> {a, b}" "''provider'' \<in> {a, b}"
    | (agent) "groupFields = [''agent'']"
  proof -
    have one: "groupFields = [groupFields ! 0]" if "length groupFields = 1"
      using that by (cases groupFields) simp_all
    have two: "\<exists>a b. groupFields = [a, b]" if "length groupFields = 2"
      using that by (auto simp add: length_Suc_conv numeral_2_eq_2)
    from assms have "(length groupFields = 1 \<and> groupFields ! 0 = ''model'')
        \<or> (length groupFields = 2 \<and> ''model'' \<in> set groupFields
            \<and> ''provider'' \<in> set groupFields)
        \<or> (length groupFields = 1 \<and> groupFields ! 0 = ''agent'')"
      by (simp only: rollup_eligible_def)
    then show thesis
    proof (elim disjE conjE)
      assume "length groupFields = 1" and "groupFields ! 0 = ''model''"
      then have "groupFields = [''model'']" using one by simp
      then show thesis by (rule model)
    next
      assume len: "length groupFields = 2" and m: "''model'' \<in> set groupFields"
        and p: "''provider'' \<in> set groupFields"
      obtain a b where ab: "groupFields = [a, b]" using two [OF len] by blast
      show thesis using both [OF ab] m p ab by simp
    next
      assume "length groupFields = 1" and "groupFields ! 0 = ''agent''"
      then have "groupFields = [''agent'']" using one by simp
      then show thesis by (rule agent)
    qed
  qed
  then show ?thesis
  proof cases
    case model
    then show ?thesis by (simp add: rollup_key_fields_def)
  next
    case (both a b)
    then show ?thesis by (simp add: rollup_key_fields_def) blast
  next
    case agent
    then show ?thesis by (simp add: rollup_key_fields_def)
  qed
qed

lemma logs_grouped_answer:
  assumes "parse_group_fields g \<noteq> []"
  shows "logs_grouped env team startDate endDate limit offset g =
     (case (if rollup_eligible (parse_group_fields g) \<and> hasFullBuckets startDate endDate
            then hybrid_fetch env team startDate endDate
                   (rollup_key_fields (parse_group_fields g))
                   (rollup_statement (parse_group_fields g) startDate endDate) limit offset
            else Inl []) of
        Inr merged \<Rightarrow>
          Inr (grouped_response startDate endDate (parse_group_fields g) merged True)
      | Inl err \<Rightarrow>
          base_table_fallback env team startDate endDate (parse_group_fields g) limit offset)"
proof (cases "rollup_eligible (parse_group_fields g)")
  case True
  show ?thesis
    using assms True
    by (simp add: logs_grouped_def ca_attempt_eligible [OF True] split: sum.split)
next
  case False
  show ?thesis
    using assms False
    by (simp add: logs_grouped_def ca_attempt_ineligible [OF False])
qed

text \<open>
  C8, amended. The group fields are the comma-separated, trimmed entries of
  \<^verbatim>\<open>group_by\<close> that are in the allow-list; the others are dropped without a word.
  A request that passes the earlier checks and has a non-empty \<^verbatim>\<open>group_by\<close> is
  answered 400 \<^verbatim>\<open>invalid_group_by\<close> when no entry is in the allow-list. When one
  is, the answer is never a 400, a 200 reports the remaining fields as its
  \<^verbatim>\<open>group_by\<close>, and the aggregation runs over the remaining fields: either the
  remaining fields have a rollup, the window has full buckets and the hybrid fetch
  completes, and then the response is built from the rows merged by the remaining
  fields, out of the rollup statement for them and the raw-table statements that
  select and group by them; or the response is built from the rows of the raw-table
  statement over the whole window that selects and groups by the remaining fields, and
  is a 500 when that statement fails.
\<close>

theorem group_by_validation:
  assumes "ctx req = Some c" and "team_id c \<noteq> []"
    and "q_start req = Some startDate" and "q_end req = Some endDate"
    and "connect env (team_id c) = None"
    and "q_group_by req = Some g" and "g \<noteq> []"
    and fields: "groupFields = parse_group_fields g"
    and limit: "limit = effective_limit (q_limit req)"
    and offset: "offset = effective_offset (q_offset req)"
  shows "groupFields = filter (\<lambda>f. f \<in> {''model'', ''agent'', ''provider''})
                    (map trim (split_str CHR '','' g))
       \<and> (groupFields = [] \<longrightarrow>
            logs_handler env req =
              res_status_json 400 (JObj
                [(''error'', JStr ''invalid_group_by''),
                 (''detail'',
                    JStr ''group_by must be one or more of: model, agent, provider'')]))
       \<and> (groupFields \<noteq> [] \<longrightarrow>
            status (logs_handler env req) \<noteq> 400
            \<and> (status (logs_handler env req) = 200 \<longrightarrow>
                 property (body (logs_handler env req)) ''group_by''
                   = Some (JArr (map JStr groupFields)))
            \<and> (rollup_eligible groupFields \<and> hasFullBuckets startDate endDate
                 \<and> hybrid_fetch env (team_id c) startDate endDate (rollup_key_fields groupFields)
                      (rollup_statement groupFields startDate endDate) limit offset = Inr merged
               \<longrightarrow> logs_handler env req
                     = grouped_response startDate endDate groupFields merged True
                   \<and> set (rollup_key_fields groupFields) = set groupFields
                   \<and> (\<exists>caRows results.
                         agg_query env (rollup_statement groupFields startDate endDate)
                           = Inr caRows
                         \<and> promise_all
                              (map (\<lambda>r. if snd r \<le> fst r then Inr []
                                         else agg_query env
                                                (BaseAgg (rollup_key_fields groupFields)
                                                   (fst r) (snd r) (team_id c)))
                                 (partialRanges startDate endDate)) = Inr results
                         \<and> merged = slice (map merged_as_query_row
                                              (mergeResults caRows (concat results)
                                                 (rollup_key_fields groupFields)))
                                       offset (js_plus offset limit)))
            \<and> (\<not> (rollup_eligible groupFields \<and> hasFullBuckets startDate endDate
                    \<and> (\<exists>rows. hybrid_fetch env (team_id c) startDate endDate
                                 (rollup_key_fields groupFields)
                                 (rollup_statement groupFields startDate endDate) limit offset
                               = Inr rows))
               \<longrightarrow> logs_handler env req
                     = (case agg_query env
                               (BaseAggPaged groupFields startDate endDate (team_id c)
                                  limit offset) of
                          Inl err \<Rightarrow> logs_failed err
                        | Inr rows \<Rightarrow>
                            grouped_response startDate endDate groupFields rows False)))"
proof -
  define outcome where "outcome =
     logs_grouped env (team_id c) startDate endDate limit offset g"
  have handler: "logs_handler env req =
     (case outcome of Inl err \<Rightarrow> logs_failed err | Inr response \<Rightarrow> response)"
    unfolding outcome_def limit offset by (rule logs_handler_grouped [OF assms(1-7)])
  have a: "groupFields = filter (\<lambda>f. f \<in> {''model'', ''agent'', ''provider''})
                      (map trim (split_str CHR '','' g))"
    by (simp add: fields parse_group_fields_def validGroupFields_def)
  have b: "logs_handler env req =
              res_status_json 400 (JObj
                [(''error'', JStr ''invalid_group_by''),
                 (''detail'',
                    JStr ''group_by must be one or more of: model, agent, provider'')])"
    if "groupFields = []"
    using that handler by (simp add: outcome_def fields logs_grouped_invalid)
  have c: "status (logs_handler env req) \<noteq> 400
         \<and> (status (logs_handler env req) = 200 \<longrightarrow>
                 property (body (logs_handler env req)) ''group_by''
                   = Some (JArr (map JStr groupFields)))"
    if valid: "groupFields \<noteq> []"
  proof (cases outcome)
    case (Inl err)
    then show ?thesis using handler by simp
  next
    case (Inr r)
    have valid': "parse_group_fields g \<noteq> []" using valid by (simp add: fields)
    have "status r = 200"
      and "property (body r) ''group_by'' = Some (JArr (map JStr (parse_group_fields g)))"
      using Inr logs_grouped_valid_status [OF valid'] logs_grouped_valid_group_by [OF valid']
      unfolding outcome_def by blast+
    then show ?thesis using handler Inr by (simp add: fields)
  qed
  have answer: "outcome =
     (case (if rollup_eligible groupFields \<and> hasFullBuckets startDate endDate
            then hybrid_fetch env (team_id c) startDate endDate (rollup_key_fields groupFields)
                   (rollup_statement groupFields startDate endDate) limit offset
            else Inl []) of
        Inr merged \<Rightarrow> Inr (grouped_response startDate endDate groupFields merged True)
      | Inl err \<Rightarrow>
          base_table_fallback env (team_id c) startDate endDate groupFields limit offset)"
    if valid: "groupFields \<noteq> []"
    using valid unfolding outcome_def fields by (intro logs_grouped_answer)
  have d: "logs_handler env req = grouped_response startDate endDate groupFields merged True
         \<and> set (rollup_key_fields groupFields) = set groupFields
         \<and> (\<exists>caRows results.
               agg_query env (rollup_statement groupFields startDate endDate) = Inr caRows
               \<and> promise_all
                    (map (\<lambda>r. if snd r \<le> fst r then Inr []
                               else agg_query env
                                      (BaseAgg (rollup_key_fields groupFields)
                                         (fst r) (snd r) (team_id c)))
                       (partialRanges startDate endDate)) = Inr results
               \<and> merged = slice (map merged_as_query_row
                                    (mergeResults caRows (concat results)
                                       (rollup_key_fields groupFields)))
                             offset (js_plus offset limit))"
    if valid: "groupFields \<noteq> []"
      and eligible: "rollup_eligible groupFields" and full: "hasFullBuckets startDate endDate"
      and fetched: "hybrid_fetch env (team_id c) startDate endDate (rollup_key_fields groupFields)
                      (rollup_statement groupFields startDate endDate) limit offset = Inr merged"
  proof -
    have "outcome = Inr (grouped_response startDate endDate groupFields merged True)"
      using answer [OF valid] eligible full fetched by simp
    then have "logs_handler env req = grouped_response startDate endDate groupFields merged True"
      using handler by simp
    then show ?thesis
      using rollup_key_fields_set [OF eligible] fetched
      by (simp add: hybrid_fetch_answer [OF full])
  qed
  have e: "logs_handler env req
         = (case agg_query env
                   (BaseAggPaged groupFields startDate endDate (team_id c) limit offset) of
              Inl err \<Rightarrow> logs_failed err
            | Inr rows \<Rightarrow> grouped_response startDate endDate groupFields rows False)"
    if valid: "groupFields \<noteq> []"
      and unused: "\<not> (rollup_eligible groupFields \<and> hasFullBuckets startDate endDate
                    \<and> (\<exists>rows. hybrid_fetch env (team_id c) startDate endDate
                                 (rollup_key_fields groupFields)
                                 (rollup_statement groupFields startDate endDate) limit offset
                               = Inr rows))"
  proof -
    have "outcome
        = base_table_fallback env (team_id c) startDate endDate groupFields limit offset"
      using answer [OF valid] unused by (auto split: sum.splits)
    then show ?thesis
      using handler by (simp add: base_table_fallback_def split: sum.splits)
  qed
  show ?thesis using a b c d e by blast
qed

lemma example_fields_foo: "parse_group_fields ''model,foo'' = [''model'']"
  by (simp add: parse_group_fields_def validGroupFields_def trim_def js_whitespace_def)

lemma example_window_full: "hasFullBuckets 1704110400000 1704261600000"
  by (simp add: hasFullBuckets_def fullBucketStart_def fullBucketEnd_def utcDayStart_def
      addUtcDays_def DAY_MS_def)

lemma example_request_grouped:
  "g \<noteq> [] \<Longrightarrow>
   logs_handler (answering_env rows) (example_request g) =
     (case logs_grouped (answering_env rows) ''team-1'' 1704110400000 1704261600000
             (Some 500) (Some 0) g of
        Inl err \<Rightarrow> logs_failed err | Inr response \<Rightarrow> response)"
  by (simp add: logs_handler_def example_request_def answering_env_def Let_def
      effective_limit_def effective_offset_def or_default_def math_min_def math_max_def
      parseInt10_def js_whitespace_def is_digit_def digits_value_def)

text \<open>
  C8, as stated, fails: \<^verbatim>\<open>group_by=model,foo\<close> names a field outside the allow-list,
  and the request is answered 200 with the aggregation by \<^verbatim>\<open>model\<close>.
\<close>

theorem unsupported_field_ignored_counterexample:
  "status (logs_handler (answering_env []) (example_request ''model,foo'')) = 200
   \<and> property (body (logs_handler (answering_env []) (example_request ''model,foo'')))
        ''group_by'' = Some (JArr [JStr ''model''])"
proof -
  have "\<exists>rows. ca_attempt (answering_env []) ''team-1'' 1704110400000 1704261600000
          [''model''] (Some 500) (Some 0) = Some rows"
    by (simp add: ca_attempt_def hybrid_fetch_def answering_env_def getBaseAggData_def
        partialRanges_def pushRange_def example_window_full fullBucketStart_def
        fullBucketEnd_def utcDayStart_def addUtcDays_def DAY_MS_def)
  then obtain rows where
    "logs_grouped (answering_env []) ''team-1'' 1704110400000 1704261600000
       (Some 500) (Some 0) ''model,foo''
     = Inr (grouped_response 1704110400000 1704261600000 [''model''] rows True)"
    by (auto simp add: logs_grouped_def example_fields_foo example_window_full)
  then show ?thesis
    by (simp add: example_request_grouped group_by_grouped_response)
qed

text \<open>
  \<^verbatim>\<open>group_by=foo, bar\<close> is rejected. \<^verbatim>\<open>group_by=model, foo\<close> is not: against
  a database that answers every statement with the row \<open>A\<close>, the response is built
  from the rows of the rollup, the head range and the tail range merged by
  \<^verbatim>\<open>model\<close>; against a database without the rollup table, it is built from the rows
  of the raw-table aggregation by \<^verbatim>\<open>model\<close>.
\<close>

theorem group_by_validation_witness:
  "logs_handler (answering_env []) (example_request ''foo, bar'')
     = res_status_json 400 (JObj
         [(''error'', JStr ''invalid_group_by''),
          (''detail'', JStr ''group_by must be one or more of: model, agent, provider'')])
   \<and> status (logs_handler (answering_env []) (example_request ''model, foo'')) \<noteq> 400
   \<and> logs_handler (answering_env [example_row_A]) (example_request ''model, foo'')
       = grouped_response 1704110400000 1704261600000 [''model'']
           (slice (map merged_as_query_row
                     (mergeResults [example_row_A] [example_row_A, example_row_A] [''model'']))
              (Some 0) (Some 500)) True
   \<and> logs_handler (rollup_down_env [example_row_B]) (example_request ''model, foo'')
       = grouped_response 1704110400000 1704261600000 [''model''] [example_row_B] False"
proof -
  define c :: TokenContext where "c = \<lparr>team_id = ''team-1''\<rparr>"
  have h1: "ctx (example_request g) = Some c" for g
    by (simp add: c_def example_request_def)
  have h2: "team_id c \<noteq> []" by (simp add: c_def)
  have h3: "q_start (example_request g) = Some 1704110400000" for g
    by (simp add: example_request_def)
  have h4: "q_end (example_request g) = Some 1704261600000" for g
    by (simp add: example_request_def)
  have h5: "connect (answering_env rows) (team_id c) = None" for rows
    by (simp add: answering_env_def)
  have h5': "connect (rollup_down_env rows) (team_id c) = None" for rows
    by (simp add: rollup_down_env_def)
  have h6: "q_group_by (example_request g) = Some g" for g
    by (simp add: example_request_def)
  have limit: "Some 500 = effective_limit (q_limit (example_request g))" for g
    by (simp add: example_request_def effective_limit_def or_default_def math_min_def
        parseInt10_def js_whitespace_def is_digit_def digits_value_def)
  have offset: "Some 0 = effective_offset (q_offset (example_request g))" for g
    by (simp add: example_request_def effective_offset_def or_default_def math_max_def
        parseInt10_def js_whitespace_def is_digit_def digits_value_def)
  have none: "[] = parse_group_fields ''foo, bar''"
    by (simp add: parse_group_fields_def validGroupFields_def trim_def js_whitespace_def)
  have some: "[''model''] = parse_group_fields ''model, foo''"
    by (simp add: parse_group_fields_def validGroupFields_def trim_def js_whitespace_def)
  have g1: "''foo, bar'' \<noteq> []" by simp
  have g2: "''model, foo'' \<noteq> []" by simp
  have eligible: "rollup_eligible [''model'']"
    by (simp add: rollup_eligible_def)
  have fetched: "hybrid_fetch (answering_env [example_row_A]) (team_id c)
        1704110400000 1704261600000 (rollup_key_fields [''model''])
        (rollup_statement [''model''] 1704110400000 1704261600000) (Some 500) (Some 0)
      = Inr (slice (map merged_as_query_row
                     (mergeResults [example_row_A] [example_row_A, example_row_A] [''model'']))
              (Some 0) (Some 500))"
    by (simp add: hybrid_fetch_def answering_env_def getBaseAggData_def rollup_key_fields_def
        partialRanges_def pushRange_def example_window_full fullBucketStart_def
        fullBucketEnd_def utcDayStart_def addUtcDays_def DAY_MS_def js_plus_def)
  have thrown: "\<not> (rollup_eligible [''model''] \<and> hasFullBuckets 1704110400000 1704261600000
        \<and> (\<exists>rows. hybrid_fetch (rollup_down_env [example_row_B]) (team_id c)
                     1704110400000 1704261600000 (rollup_key_fields [''model''])
                     (rollup_statement [''model''] 1704110400000 1704261600000)
                     (Some 500) (Some 0) = Inr rows))"
    by (simp add: hybrid_fetch_def rollup_down_env_def rollup_statement_def
        example_window_full split: sum.split)
  have raw: "agg_query (rollup_down_env [example_row_B])
        (BaseAggPaged [''model''] 1704110400000 1704261600000 (team_id c) (Some 500) (Some 0))
      = Inr [example_row_B]"
    by (simp add: rollup_down_env_def)
  have ne: "[''model''] \<noteq> ([] :: string list)" by simp
  note rejected = group_by_validation [OF h1 h2 h3 h4 h5 h6 g1 none limit offset]
  have a: "logs_handler (answering_env []) (example_request ''foo, bar'')
     = res_status_json 400 (JObj
         [(''error'', JStr ''invalid_group_by''),
          (''detail'', JStr ''group_by must be one or more of: model, agent, provider'')])"
    using rejected [THEN conjunct2, THEN conjunct1] by simp
  note accepted = group_by_validation [OF h1 h2 h3 h4 h5 h6 g2 some limit offset,
      THEN conjunct2, THEN conjunct2, rule_format, OF ne]
  have b: "status (logs_handler (answering_env []) (example_request ''model, foo'')) \<noteq> 400"
    using accepted [THEN conjunct1] .
  have c: "logs_handler (answering_env [example_row_A]) (example_request ''model, foo'')
       = grouped_response 1704110400000 1704261600000 [''model'']
           (slice (map merged_as_query_row
                     (mergeResults [example_row_A] [example_row_A, example_row_A] [''model'']))
              (Some 0) (Some 500)) True"
    using accepted [THEN conjunct2, THEN conjunct2, THEN conjunct1, rule_format,
        OF conjI [OF eligible conjI [OF example_window_full fetched]], THEN conjunct1] .
  note fallback = group_by_validation [OF h1 h2 h3 h4 h5' h6 g2 some limit offset,
      THEN conjunct2, THEN conjunct2, rule_format, OF ne,
      THEN conjunct2, THEN conjunct2, THEN conjunct2, rule_format, OF thrown]
  have d: "logs_handler (rollup_down_env [example_row_B]) (example_request ''model, foo'')
       = grouped_response 1704110400000 1704261600000 [''model''] [example_row_B] False"
    by (simp only: fallback raw sum.case)
  show ?thesis using a b c d by blast
qed

subsection \<open>Double counting at a day boundary\<close>

text \<open>
  The whole response for a table that holds one event, at 2024-01-02T00:00:00.000Z,
  and the window of the specification's example.
\<close>

lemma midnight_response:
  "body (logs_handler (events_db [1704153600000]) (example_request ''model''))
     = JObj
        [(''window'', JObj [(''start'', JDate 1704110400000), (''end'', JDate 1704261600000)]),
         (''group_by'', JArr [JStr ''model'']),
         (''count'', JNum 1),
         (''source'', JStr ''continuous_aggregate''),
         (''aggregations'', JArr
            [JObj [(''model'', JStr ''gpt-4''), (''request_count'', JNum 2),
                   (''total_input_tokens'', JNum 0), (''total_output_tokens'', JNum 0),
                   (''total_tokens'', JNum 0), (''total_cost'', JNum 0),
                   (''avg_latency_ms'', JNum 0), (''first_seen'', JDate 1704153600000),
                   (''last_seen'', JDate 1704153600000)]])]"
proof -
  have fields: "parse_group_fields ''model'' = [''model'']" by (rule example_fields)
  have full: "hasFullBuckets 1704110400000 1704261600000" by (rule example_window_full)
  have ranges: "partialRanges 1704110400000 1704261600000
      = [(1704110400000, 1704153600000), (1704240000000, 1704261600000)]"
    by (simp add: partialRanges_def pushRange_def fullBucketStart_def fullBucketEnd_def
        utcDayStart_def addUtcDays_def DAY_MS_def)
  have fetch: "hybrid_fetch (events_db [1704153600000]) ''team-1'' 1704110400000 1704261600000
         [''model''] (ModelCA False (fullBucketStart 1704110400000) (fullBucketEnd 1704261600000))
         (Some 500) (Some 0)
      = Inr [\<lparr>group_values = [''model'' \<mapsto> ''gpt-4''], request_count = Some 2,
              total_input_tokens = Some 0, total_output_tokens = Some 0,
              total_tokens = Some 0, total_cost = Some 0, avg_latency_ms = Some 0,
              first_seen = 1704153600000, last_seen = 1704153600000\<rparr>]"
    apply (simp add: hybrid_fetch_def ranges full getBaseAggData_def events_db_def
        count_row_def base_counts_def ca_counts_def bucket_of_def fullBucketStart_def
        fullBucketEnd_def utcDayStart_def addUtcDays_def DAY_MS_def)
    apply (simp add: mergeResults_def merged_map_def addRow_def row_key_def Let_def int'_def
        num_def merged_as_query_row_def slice_def slice_index_def js_plus_def)
    apply (rule ext)
    apply simp
    done
  have up: "connect (events_db [1704153600000]) ''team-1'' = None"
    by (simp add: events_db_def)
  have handler: "logs_handler (events_db [1704153600000]) (example_request ''model'')
      = grouped_response 1704110400000 1704261600000 [''model'']
          [\<lparr>group_values = [''model'' \<mapsto> ''gpt-4''], request_count = Some 2,
              total_input_tokens = Some 0, total_output_tokens = Some 0,
              total_tokens = Some 0, total_cost = Some 0, avg_latency_ms = Some 0,
              first_seen = 1704153600000, last_seen = 1704153600000\<rparr>] True"
    by (simp add: logs_handler_def example_request_def Let_def logs_grouped_def fields full
        ca_attempt_def fetch effective_limit_def effective_offset_def or_default_def
        math_min_def math_max_def parseInt10_def js_whitespace_def is_digit_def
        digits_value_def up)
  show ?thesis
    by (simp add: handler grouped_response_def res_json_def aggregation_json_def fromEntries_def
        int'_def num_def)
qed

text \<open>
  C2. The window is the one of the specification's example, 2024-01-01T12:00Z to
  2024-01-03T06:00Z, and the event is at 2024-01-02T00:00:00.000Z, inside the window.
  The head fetch \<^verbatim>\<open>getBaseAggData(start, fullBucketStart)\<close> counts it, because its
  upper bound is inclusive (\<^verbatim>\<open>"timestamp" <= $2\<close>), and so does the rollup fetch,
  whose first bucket is that day: the event is counted twice, and the response reports
  a request count of 2 for the one event. An event a millisecond later is counted once.
\<close>

theorem hybrid_counts_midnight_event_twice:
  "hybrid_contributions 1704110400000 1704261600000 1704153600000 = 2
   \<and> hasFullBuckets 1704110400000 1704261600000
   \<and> base_counts (1704110400000, 1704153600000) 1704153600000
   \<and> ca_counts (fullBucketStart 1704110400000) (fullBucketEnd 1704261600000) 1704153600000
   \<and> hybrid_contributions 1704110400000 1704261600000 1704153600001 = 1
   \<and> property (body (logs_handler (events_db [1704153600000]) (example_request ''model'')))
        ''aggregations''
      = Some (JArr
          [JObj [(''model'', JStr ''gpt-4''), (''request_count'', JNum 2),
                 (''total_input_tokens'', JNum 0), (''total_output_tokens'', JNum 0),
                 (''total_tokens'', JNum 0), (''total_cost'', JNum 0),
                 (''avg_latency_ms'', JNum 0), (''first_seen'', JDate 1704153600000),
                 (''last_seen'', JDate 1704153600000)]])"
  by (simp add: midnight_response)
     (simp add: hybrid_contributions_def hasFullBuckets_def ca_counts_def bucket_of_def
      base_counts_def partialRanges_def pushRange_def fullBucketStart_def fullBucketEnd_def
      utcDayStart_def addUtcDays_def DAY_MS_def)

subsection \<open>Pagination\<close>

lemma logs_handler_raw:
  assumes "ctx req = Some c" and "team_id c \<noteq> []"
    and "q_start req = Some startDate" and "q_end req = Some endDate"
    and "connect env (team_id c) = None"
    and "q_group_by req = None \<or> q_group_by req = Some []"
  shows "logs_handler env req =
     (case logs_raw env (team_id c) startDate endDate (effective_limit (q_limit req))
             (effective_offset (q_offset req)) (q_type req) (q_success req) of
        Inl err \<Rightarrow> logs_failed err | Inr response \<Rightarrow> response)"
  using assms by (auto simp add: logs_handler_def Let_def)

text \<open>
  C10, amended. The handler does not validate \<^verbatim>\<open>limit\<close> and \<^verbatim>\<open>offset\<close>: no value
  of them changes whether the request is answered 400 or 401. The effective limit is
  500 when the parameter is absent or empty and otherwise \<open>min n 5000\<close> for the integer
  \<open>n\<close> that \<^verbatim>\<open>parseInt\<close> reads, so that a negative limit stays as it is, and
  \<^verbatim>\<open>NaN\<close> when it reads none; the effective offset is 0 when absent and otherwise
  \<open>max m 0\<close>, or \<^verbatim>\<open>NaN\<close>. A request that passes the checks hands these values on
  as they are. The ungrouped path and the raw-table aggregation of the grouped path
  issue their statement with them as \<^verbatim>\<open>LIMIT\<close> and \<^verbatim>\<open>OFFSET\<close>: the response is
  a 200 built from the rows when the database answers the statement, and a 500
  \<^verbatim>\<open>logs_failed\<close> with the database's message when it refuses it. The rollup path
  takes \<^verbatim>\<open>slice(offset, offset + limit)\<close> of the merged rows.
\<close>

theorem pagination_passed_on:
  assumes "ctx req = Some c" and "team_id c \<noteq> []"
    and "q_start req = Some startDate" and "q_end req = Some endDate"
    and "connect env (team_id c) = None"
    and limit: "limit = effective_limit (q_limit req)"
    and offset: "offset = effective_offset (q_offset req)"
  shows "effective_limit None = Some 500
   \<and> effective_limit (Some []) = Some 500
   \<and> (parseInt10 (or_default l ''500'') = Some n \<longrightarrow> effective_limit l = Some (min n 5000))
   \<and> (parseInt10 (or_default l ''500'') = None \<longrightarrow> effective_limit l = None)
   \<and> effective_offset None = Some 0
   \<and> effective_offset (Some []) = Some 0
   \<and> (parseInt10 (or_default ofs ''0'') = Some m \<longrightarrow> effective_offset ofs = Some (max m 0))
   \<and> (parseInt10 (or_default ofs ''0'') = None \<longrightarrow> effective_offset ofs = None)
   \<and> (status (logs_handler env (req\<lparr>q_limit := l, q_offset := ofs\<rparr>)) = 400
        \<longleftrightarrow> status (logs_handler env req) = 400)
   \<and> (status (logs_handler env (req\<lparr>q_limit := l, q_offset := ofs\<rparr>)) = 401
        \<longleftrightarrow> status (logs_handler env req) = 401)
   \<and> (q_group_by req = None \<or> q_group_by req = Some [] \<longrightarrow>
        (raw_query env
           (RawLogs (type_conditions (q_type req) @ success_conditions (q_success req))
              startDate endDate (team_id c) limit offset) = Inl err
         \<longrightarrow> logs_handler env req = logs_failed err)
        \<and> (raw_query env
             (RawLogs (type_conditions (q_type req) @ success_conditions (q_success req))
                startDate endDate (team_id c) limit offset) = Inr rows
           \<longrightarrow> status (logs_handler env req) = 200
               \<and> property (body (logs_handler env req)) ''rows'' = Some (JArr rows)
               \<and> property (body (logs_handler env req)) ''count''
                   = Some (JNum (real (length rows)))))
   \<and> (q_group_by req = Some g \<and> g \<noteq> [] \<and> groupFields = parse_group_fields g
        \<and> groupFields \<noteq> [] \<longrightarrow>
        (rollup_eligible groupFields \<and> hasFullBuckets startDate endDate
           \<and> agg_query env (rollup_statement groupFields startDate endDate) = Inr caRows
           \<and> promise_all
                (map (\<lambda>r. if snd r \<le> fst r then Inr []
                           else agg_query env
                                  (BaseAgg (rollup_key_fields groupFields)
                                     (fst r) (snd r) (team_id c)))
                   (partialRanges startDate endDate)) = Inr results
         \<longrightarrow> logs_handler env req
               = grouped_response startDate endDate groupFields
                   (slice (map merged_as_query_row
                             (mergeResults caRows (concat results)
                                (rollup_key_fields groupFields)))
                      offset (js_plus offset limit)) True)
        \<and> (\<not> (rollup_eligible groupFields \<and> hasFullBuckets startDate endDate
                \<and> (\<exists>merged. hybrid_fetch env (team_id c) startDate endDate
                               (rollup_key_fields groupFields)
                               (rollup_statement groupFields startDate endDate) limit offset
                             = Inr merged))
           \<longrightarrow> (agg_query env
                   (BaseAggPaged groupFields startDate endDate (team_id c) limit offset)
                 = Inl err
                 \<longrightarrow> logs_handler env req = logs_failed err)
               \<and> (agg_query env
                     (BaseAggPaged groupFields startDate endDate (team_id c) limit offset)
                   = Inr aggRows
                   \<longrightarrow> logs_handler env req
                         = grouped_response startDate endDate groupFields aggRows False)))"
proof -
  have defaults: "effective_limit None = Some 500 \<and> effective_limit (Some []) = Some 500
      \<and> effective_offset None = Some 0 \<and> effective_offset (Some []) = Some 0"
    by (simp add: effective_limit_def effective_offset_def or_default_def math_min_def
        math_max_def parseInt10_def js_whitespace_def is_digit_def digits_value_def)
  have clamp: "(parseInt10 (or_default l ''500'') = Some n \<longrightarrow>
        effective_limit l = Some (min n 5000))
      \<and> (parseInt10 (or_default l ''500'') = None \<longrightarrow> effective_limit l = None)
      \<and> (parseInt10 (or_default ofs ''0'') = Some m \<longrightarrow>
        effective_offset ofs = Some (max m 0))
      \<and> (parseInt10 (or_default ofs ''0'') = None \<longrightarrow> effective_offset ofs = None)"
    by (simp add: effective_limit_def effective_offset_def math_min_def math_max_def)
  have bad_request: "status (logs_handler env (req\<lparr>q_limit := l, q_offset := ofs\<rparr>)) = 400
        \<longleftrightarrow> status (logs_handler env req) = 400"
    by (simp add: logs_handler_400_iff)
  have unauthorized: "status (logs_handler env (req\<lparr>q_limit := l, q_offset := ofs\<rparr>)) = 401
        \<longleftrightarrow> status (logs_handler env req) = 401"
    by (simp add: logs_handler_401_iff)
  have raw: "(raw_query env
           (RawLogs (type_conditions (q_type req) @ success_conditions (q_success req))
              startDate endDate (team_id c) limit offset) = Inl err
         \<longrightarrow> logs_handler env req = logs_failed err)
        \<and> (raw_query env
             (RawLogs (type_conditions (q_type req) @ success_conditions (q_success req))
                startDate endDate (team_id c) limit offset) = Inr rows
           \<longrightarrow> status (logs_handler env req) = 200
               \<and> property (body (logs_handler env req)) ''rows'' = Some (JArr rows)
               \<and> property (body (logs_handler env req)) ''count''
                   = Some (JNum (real (length rows))))"
    if ungrouped: "q_group_by req = None \<or> q_group_by req = Some []"
  proof -
    have "logs_handler env req =
       (case logs_raw env (team_id c) startDate endDate limit offset
               (q_type req) (q_success req) of
          Inl err \<Rightarrow> logs_failed err | Inr response \<Rightarrow> response)"
      unfolding limit offset by (rule logs_handler_raw [OF assms(1-5) ungrouped])
    then show ?thesis
      by (simp add: logs_raw_def res_json_def)
  qed
  have grouped: "(rollup_eligible groupFields \<and> hasFullBuckets startDate endDate
           \<and> agg_query env (rollup_statement groupFields startDate endDate) = Inr caRows
           \<and> promise_all
                (map (\<lambda>r. if snd r \<le> fst r then Inr []
                           else agg_query env
                                  (BaseAgg (rollup_key_fields groupFields)
                                     (fst r) (snd r) (team_id c)))
                   (partialRanges startDate endDate)) = Inr results
         \<longrightarrow> logs_handler env req
               = grouped_response startDate endDate groupFields
                   (slice (map merged_as_query_row
                             (mergeResults caRows (concat results)
                                (rollup_key_fields groupFields)))
                      offset (js_plus offset limit)) True)
        \<and> (\<not> (rollup_eligible groupFields \<and> hasFullBuckets startDate endDate
                \<and> (\<exists>merged. hybrid_fetch env (team_id c) startDate endDate
                               (rollup_key_fields groupFields)
                               (rollup_statement groupFields startDate endDate) limit offset
                             = Inr merged))
           \<longrightarrow> (agg_query env
                   (BaseAggPaged groupFields startDate endDate (team_id c) limit offset)
                 = Inl err
                 \<longrightarrow> logs_handler env req = logs_failed err)
               \<and> (agg_query env
                     (BaseAggPaged groupFields startDate endDate (team_id c) limit offset)
                   = Inr aggRows
                   \<longrightarrow> logs_handler env req
                         = grouped_response startDate endDate groupFields aggRows False))"
    if g: "q_group_by req = Some g" "g \<noteq> []"
      and gf: "groupFields = parse_group_fields g" and valid: "groupFields \<noteq> []"
  proof -
    define outcome where "outcome =
       logs_grouped env (team_id c) startDate endDate limit offset g"
    have handler: "logs_handler env req =
       (case outcome of Inl err \<Rightarrow> logs_failed err | Inr response \<Rightarrow> response)"
      unfolding outcome_def limit offset by (rule logs_handler_grouped [OF assms(1-5) g])
    have answer: "outcome =
       (case (if rollup_eligible groupFields \<and> hasFullBuckets startDate endDate
              then hybrid_fetch env (team_id c) startDate endDate
                     (rollup_key_fields groupFields)
                     (rollup_statement groupFields startDate endDate) limit offset
              else Inl []) of
          Inr merged \<Rightarrow> Inr (grouped_response startDate endDate groupFields merged True)
        | Inl err \<Rightarrow>
            base_table_fallback env (team_id c) startDate endDate groupFields limit offset)"
      using valid unfolding outcome_def gf by (intro logs_grouped_answer)
    have merged: "logs_handler env req
               = grouped_response startDate endDate groupFields
                   (slice (map merged_as_query_row
                             (mergeResults caRows (concat results)
                                (rollup_key_fields groupFields)))
                      offset (js_plus offset limit)) True"
      if eligible: "rollup_eligible groupFields" and full: "hasFullBuckets startDate endDate"
        and ca: "agg_query env (rollup_statement groupFields startDate endDate) = Inr caRows"
        and base: "promise_all
                (map (\<lambda>r. if snd r \<le> fst r then Inr []
                           else agg_query env
                                  (BaseAgg (rollup_key_fields groupFields)
                                     (fst r) (snd r) (team_id c)))
                   (partialRanges startDate endDate)) = Inr results"
    proof -
      have "hybrid_fetch env (team_id c) startDate endDate (rollup_key_fields groupFields)
              (rollup_statement groupFields startDate endDate) limit offset
            = Inr (slice (map merged_as_query_row
                             (mergeResults caRows (concat results)
                                (rollup_key_fields groupFields)))
                      offset (js_plus offset limit))"
        using ca base by (simp add: hybrid_fetch_answer [OF full])
      then show ?thesis
        using answer handler eligible full by simp
    qed
    have fallback: "(agg_query env
                   (BaseAggPaged groupFields startDate endDate (team_id c) limit offset)
                 = Inl err
                 \<longrightarrow> logs_handler env req = logs_failed err)
               \<and> (agg_query env
                     (BaseAggPaged groupFields startDate endDate (team_id c) limit offset)
                   = Inr aggRows
                   \<longrightarrow> logs_handler env req
                         = grouped_response startDate endDate groupFields aggRows False)"
      if unused: "\<not> (rollup_eligible groupFields \<and> hasFullBuckets startDate endDate
                \<and> (\<exists>merged. hybrid_fetch env (team_id c) startDate endDate
                               (rollup_key_fields groupFields)
                               (rollup_statement groupFields startDate endDate) limit offset
                             = Inr merged))"
    proof -
      have "outcome
          = base_table_fallback env (team_id c) startDate endDate groupFields limit offset"
        using answer unused by (auto split: sum.splits)
      then show ?thesis
        using handler by (simp add: base_table_fallback_def)
    qed
    show ?thesis using merged fallback by blast
  qed
  show ?thesis
    using defaults clamp bad_request unauthorized raw grouped by blast
qed

lemma parse_examples:
  "parseInt10 (or_default (Some ''10000'') ''500'') = Some 10000"
  "parseInt10 (or_default (Some ''25'') ''500'') = Some 25"
  "parseInt10 (or_default (Some ''many'') ''500'') = None"
  "parseInt10 (or_default (Some ''-5'') ''500'') = Some (- 5)"
  "parseInt10 (or_default (Some ''-1'') ''500'') = Some (- 1)"
  "parseInt10 (or_default (Some ''-5'') ''0'') = Some (- 5)"
  "parseInt10 (or_default None ''500'') = Some 500"
  "parseInt10 (or_default None ''0'') = Some 0"
  by (simp_all add: or_default_def parseInt10_def js_whitespace_def is_digit_def
      digits_value_def)

lemma effective_examples:
  "effective_limit (Some ''10000'') = Some 5000"
  "effective_limit (Some ''25'') = Some 25"
  "effective_limit (Some ''many'') = None"
  "effective_limit (Some ''-5'') = Some (- 5)"
  "effective_limit (Some ''-1'') = Some (- 1)"
  "effective_offset (Some ''-5'') = Some 0"
  "effective_limit None = Some 500"
  "effective_offset None = Some 0"
  by (simp_all add: effective_limit_def effective_offset_def math_min_def math_max_def
      parse_examples)

text \<open>
  C10, as stated, fails. \<^verbatim>\<open>limit=-5\<close> is not clamped: the effective limit is -5,
  the statement carries it, and against a database that refuses a negative
  \<^verbatim>\<open>LIMIT\<close> the request is answered 500, on the ungrouped path and on the grouped
  one. \<^verbatim>\<open>limit=many\<close> is \<^verbatim>\<open>NaN\<close>, and the request is answered 500 as well.
\<close>

theorem negative_limit_counterexample:
  "effective_limit (Some ''-5'') = Some (- 5)
   \<and> logs_handler (postgres_env []) (example_ungrouped_request\<lparr>q_limit := Some ''-5''\<rparr>)
       = logs_failed ''LIMIT must not be negative''
   \<and> status (logs_handler (postgres_env [])
        (example_ungrouped_request\<lparr>q_limit := Some ''-5''\<rparr>)) = 500
   \<and> status (logs_handler (postgres_env [])
        ((example_request ''provider'')\<lparr>q_limit := Some ''-5''\<rparr>)) = 500
   \<and> effective_limit (Some ''many'') = None
   \<and> status (logs_handler (postgres_env [])
        (example_ungrouped_request\<lparr>q_limit := Some ''many''\<rparr>)) = 500"
proof -
  have a: "logs_handler (postgres_env []) (example_ungrouped_request\<lparr>q_limit := Some ''-5''\<rparr>)
       = logs_failed ''LIMIT must not be negative''"
    by (simp add: logs_handler_def example_ungrouped_request_def effective_examples
        logs_raw_def postgres_env_def limit_error_def)
  have fields: "parse_group_fields ''provider'' = [''provider'']"
    by (simp add: parse_group_fields_def validGroupFields_def trim_def js_whitespace_def)
  have b: "logs_handler (postgres_env []) ((example_request ''provider'')\<lparr>q_limit := Some ''-5''\<rparr>)
       = logs_failed ''LIMIT must not be negative''"
    by (simp add: logs_handler_def example_request_def effective_examples
        logs_grouped_def fields ca_attempt_def base_table_fallback_def postgres_env_def
        limit_error_def)
  have c: "logs_handler (postgres_env []) (example_ungrouped_request\<lparr>q_limit := Some ''many''\<rparr>)
       = logs_failed ''invalid input syntax for type bigint: NaN''"
    by (simp add: logs_handler_def example_ungrouped_request_def effective_examples
        logs_raw_def postgres_env_def limit_error_def)
  show ?thesis
    by (simp only: a b c status_logs_failed effective_examples)
qed

text \<open>
  \<^verbatim>\<open>limit=10000\<close> becomes 5000, \<^verbatim>\<open>limit=25\<close> stays and \<^verbatim>\<open>offset=-5\<close> becomes
  0, and the request with \<^verbatim>\<open>limit=10000\<close> and \<^verbatim>\<open>offset=-5\<close> is answered 200 by
  a database that refuses negative numbers. On the rollup path \<^verbatim>\<open>limit=-1\<close> is
  answered 200: the slice from 0 to -1 of the one merged row is empty. On the
  raw-table aggregation \<^verbatim>\<open>limit=25\<close> gives the rows of the statement.
\<close>

theorem pagination_passed_on_witness:
  "effective_limit (Some ''10000'') = Some 5000
   \<and> effective_limit (Some ''25'') = Some 25
   \<and> effective_offset (Some ''-5'') = Some 0
   \<and> status (logs_handler (postgres_env [])
        (example_ungrouped_request\<lparr>q_limit := Some ''10000'', q_offset := Some ''-5''\<rparr>)) = 200
   \<and> logs_handler (answering_env [example_row_A])
        ((example_request ''model'')\<lparr>q_limit := Some ''-1''\<rparr>)
       = grouped_response 1704110400000 1704261600000 [''model'']
           (slice (map merged_as_query_row
                     (mergeResults [example_row_A] [example_row_A, example_row_A] [''model'']))
              (Some 0) (Some (- 1))) True
   \<and> slice (map merged_as_query_row
              (mergeResults [example_row_A] [example_row_A, example_row_A] [''model'']))
        (Some 0) (Some (- 1)) = []
   \<and> logs_handler (postgres_env [example_row_B])
        ((example_request ''provider'')\<lparr>q_limit := Some ''25''\<rparr>)
       = grouped_response 1704110400000 1704261600000 [''provider''] [example_row_B] False"
proof -
  define c :: TokenContext where "c = \<lparr>team_id = ''team-1''\<rparr>"
  have h2: "team_id c \<noteq> []" by (simp add: c_def)
  define req1 where
    "req1 = example_ungrouped_request\<lparr>q_limit := Some ''10000'', q_offset := Some ''-5''\<rparr>"
  have r1: "ctx req1 = Some c" "q_start req1 = Some 1704110400000"
    "q_end req1 = Some 1704261600000"
    "Some 5000 = effective_limit (q_limit req1)" "Some 0 = effective_offset (q_offset req1)"
    "q_group_by req1 = None \<or> q_group_by req1 = Some []"
    "q_type req1 = None" "q_success req1 = None"
    by (simp_all add: req1_def example_ungrouped_request_def c_def effective_examples)
  have up1: "connect (postgres_env rows) (team_id c) = None" for rows
    by (simp add: postgres_env_def)
  have answered: "raw_query (postgres_env [])
        (RawLogs (type_conditions (q_type req1) @ success_conditions (q_success req1))
           1704110400000 1704261600000 (team_id c) (Some 5000) (Some 0)) = Inr []"
    by (simp add: postgres_env_def limit_error_def)
  have a: "effective_limit (Some ''10000'') = Some 5000
      \<and> effective_limit (Some ''25'') = Some 25
      \<and> effective_offset (Some ''-5'') = Some 0"
    using pagination_passed_on [OF r1(1) h2 r1(2,3) up1 r1(4,5),
        where l = "Some ''10000''" and n = 10000 and ofs = "Some ''-5''" and m = "- 5"]
      pagination_passed_on [OF r1(1) h2 r1(2,3) up1 r1(4,5),
        where l = "Some ''25''" and n = 25]
      parse_examples
    by simp
  have b: "status (logs_handler (postgres_env []) req1) = 200"
    using pagination_passed_on [OF r1(1) h2 r1(2,3) up1 r1(4,5), where rows = "[]"]
      r1(6) answered
    by blast
  define req2 where "req2 = (example_request ''model'')\<lparr>q_limit := Some ''-1''\<rparr>"
  have r2: "ctx req2 = Some c" "q_start req2 = Some 1704110400000"
    "q_end req2 = Some 1704261600000"
    "Some (- 1) = effective_limit (q_limit req2)" "Some 0 = effective_offset (q_offset req2)"
    "q_group_by req2 = Some ''model''"
    by (simp_all add: req2_def example_request_def c_def effective_examples)
  have up2: "connect (answering_env rows) (team_id c) = None" for rows
    by (simp add: answering_env_def)
  have model: "[''model''] = parse_group_fields ''model''"
    by (simp add: example_fields)
  have eligible: "rollup_eligible [''model'']"
    by (simp add: rollup_eligible_def)
  have ca: "agg_query (answering_env [example_row_A])
        (rollup_statement [''model''] 1704110400000 1704261600000) = Inr [example_row_A]"
    by (simp add: answering_env_def)
  have base: "promise_all
        (map (\<lambda>r. if snd r \<le> fst r then Inr []
                   else agg_query (answering_env [example_row_A])
                          (BaseAgg (rollup_key_fields [''model'']) (fst r) (snd r) (team_id c)))
           (partialRanges 1704110400000 1704261600000))
      = Inr [[example_row_A], [example_row_A]]"
    by (simp add: answering_env_def partialRanges_def pushRange_def fullBucketStart_def
        fullBucketEnd_def utcDayStart_def addUtcDays_def DAY_MS_def)
  have keys: "rollup_key_fields [''model''] = [''model'']"
    by (simp add: rollup_key_fields_def)
  have "logs_handler (answering_env [example_row_A]) req2
       = grouped_response 1704110400000 1704261600000 [''model'']
           (slice (map merged_as_query_row
                     (mergeResults [example_row_A] (concat [[example_row_A], [example_row_A]])
                        (rollup_key_fields [''model''])))
              (Some 0) (js_plus (Some 0) (Some (- 1)))) True"
    using pagination_passed_on [OF r2(1) h2 r2(2,3) up2 r2(4,5),
        where g = "''model''" and groupFields = "[''model'']"
          and caRows = "[example_row_A]"
          and results = "[[example_row_A], [example_row_A]]"]
      r2(6) model eligible example_window_full ca base
    by blast
  then have d: "logs_handler (answering_env [example_row_A]) req2
       = grouped_response 1704110400000 1704261600000 [''model'']
           (slice (map merged_as_query_row
                     (mergeResults [example_row_A] [example_row_A, example_row_A] [''model'']))
              (Some 0) (Some (- 1))) True"
    by (simp add: keys js_plus_def)
  have e: "slice (map merged_as_query_row
              (mergeResults [example_row_A] [example_row_A, example_row_A] [''model'']))
        (Some 0) (Some (- 1)) = []"
    by (simp add: slice_def slice_index_def mergeResults_def merged_map_def addRow_def
        row_key_def example_row_A_def Let_def)
  define req3 where "req3 = (example_request ''provider'')\<lparr>q_limit := Some ''25''\<rparr>"
  have r3: "ctx req3 = Some c" "q_start req3 = Some 1704110400000"
    "q_end req3 = Some 1704261600000"
    "Some 25 = effective_limit (q_limit req3)" "Some 0 = effective_offset (q_offset req3)"
    "q_group_by req3 = Some ''provider''"
    by (simp_all add: req3_def example_request_def c_def effective_examples)
  have provider: "[''provider''] = parse_group_fields ''provider''"
    by (simp add: parse_group_fields_def validGroupFields_def trim_def js_whitespace_def)
  have ineligible: "\<not> rollup_eligible [''provider'']"
    by (simp add: rollup_eligible_def)
  have agg: "agg_query (postgres_env [example_row_B])
        (BaseAggPaged [''provider''] 1704110400000 1704261600000 (team_id c) (Some 25) (Some 0))
      = Inr [example_row_B]"
    by (simp add: postgres_env_def limit_error_def)
  have f: "logs_handler (postgres_env [example_row_B]) req3
       = grouped_response 1704110400000 1704261600000 [''provider''] [example_row_B] False"
    using pagination_passed_on [OF r3(1) h2 r3(2,3) up1 r3(4,5),
        where g = "''provider''" and groupFields = "[''provider'']"
          and aggRows = "[example_row_B]"]
      r3(6) provider ineligible agg
    by blast
  show ?thesis
    using a b d e f unfolding req1_def req2_def req3_def by blast
qed

subsection \<open>The recalculation loop\<close>

declare recalc_loop.simps [simp del]

lemma process_rows_result:
  "process_rows env rows (updates, n, errs) =
     (updates @ map (update_of env) (filter (needs_update env) rows),
      n + length (filter (priced env) rows),
      errs @ map (\<lambda>r. RowError (trace_id r) (call_sequence r)
                        (case row_cost env r of Inl message \<Rightarrow> message | Inr c \<Rightarrow> []))
               (filter (\<lambda>r. \<not> priced env r) rows))"
proof (induction rows arbitrary: updates n errs)
  case Nil
  then show ?case by simp
next
  case (Cons row rows)
  show ?case
  proof (cases "row_cost env row")
    case (Inl message)
    then show ?thesis
      by (simp add: Cons.IH priced_def needs_update_def)
  next
    case (Inr newCost)
    then show ?thesis
      by (simp add: Cons.IH priced_def needs_update_def update_of_def Let_def)
  qed
qed

text \<open>The fields of the state after one pass.\<close>

lemma process_batch_fields:
  "batches (process_batch env batch_size rows st) = batches st + 1"
  "fetched (process_batch env batch_size rows st) = fetched st @ [rows]"
  "processed (process_batch env batch_size rows st)
     = processed st + length (filter (priced env) rows)"
  "length (table (process_batch env batch_size rows st)) = length (table st)"
  by (simp_all add: process_batch_def process_rows_result Let_def)

lemma process_batch_errors:
  "\<exists>es. errors (process_batch env batch_size rows st) = errors st @ es
        \<and> timeout_warning \<notin> set es"
  by (auto simp add: process_batch_def process_rows_result Let_def timeout_warning_def
      split: option.split)

lemma process_batch_table:
  "table (process_batch env batch_size rows st) = table st
   \<or> table (process_batch env batch_size rows st)
       = updateSql (map (update_of env) (filter (needs_update env) rows)) (table st)"
  by (simp add: process_batch_def process_rows_result Let_def)

lemma matches_update_of:
  "matches r (update_of env b) \<longleftrightarrow> composite_key r = update_key b"
  by (auto simp add: matches_def update_of_def composite_key_def update_key_def)

lemma update_key_whole_milliseconds:
  "whole_milliseconds r \<Longrightarrow> update_key r = composite_key r"
proof -
  assume "whole_milliseconds r"
  then have "timestamp r mod 1000 = 0"
    by (simp add: whole_milliseconds_def)
  then have "timestamp r div 1000 * 1000 = timestamp r"
    using div_mult_mod_eq [of "timestamp r" 1000] by simp
  then show ?thesis
    by (simp add: update_key_def composite_key_def date_of_timestamptz_def
        timestamptz_of_date_def)
qed

lemma find_matches_None:
  assumes "composite_key r \<notin> update_key ` set rows"
  shows "find (matches r) (map (update_of env) (filter (needs_update env) rows)) = None"
  using assms by (auto simp add: find_None_iff matches_update_of)

lemma updateSql_untouched:
  assumes "i < length tbl" and "composite_key (tbl ! i) \<notin> update_key ` set rows"
  shows "updateSql (map (update_of env) (filter (needs_update env) rows)) tbl ! i = tbl ! i"
  using assms by (simp add: updateSql_def find_matches_None)

lemma process_batch_untouched:
  assumes "i < length (table st)"
    and "composite_key (table st ! i) \<notin> update_key ` set rows"
  shows "table (process_batch env batch_size rows st) ! i = table st ! i"
  using process_batch_table [of env batch_size rows st] assms
  by (auto simp add: updateSql_untouched)

lemma without_cost_updateSql:
  "map without_cost (updateSql updates tbl) = map without_cost tbl"
  by (simp add: updateSql_def without_cost_def split: option.split)

lemma process_batch_without_cost:
  "map without_cost (table (process_batch env batch_size rows st))
     = map without_cost (table st)"
  using process_batch_table [of env batch_size rows st]
  by (auto simp add: without_cost_updateSql)

lemma recalc_loop_stop:
  "next_batch env startDate endDate team batch_size st = [] \<Longrightarrow>
   recalc_loop env startDate endDate team batch_size st = st"
  by (subst recalc_loop.simps) (simp add: next_batch_def)

lemma recalc_loop_timeout:
  "next_batch env startDate endDate team batch_size st \<noteq> [] \<Longrightarrow>
   deadline_exceeded env (batches st + 1) \<Longrightarrow>
   recalc_loop env startDate endDate team batch_size st
     = (process_batch env batch_size (next_batch env startDate endDate team batch_size st) st)
         \<lparr>errors := errors (process_batch env batch_size
                              (next_batch env startDate endDate team batch_size st) st)
                       @ [timeout_warning]\<rparr>"
  by (subst recalc_loop.simps) (simp add: next_batch_def Let_def process_batch_fields)

lemma recalc_loop_continue:
  "next_batch env startDate endDate team batch_size st \<noteq> [] \<Longrightarrow>
   \<not> deadline_exceeded env (batches st + 1) \<Longrightarrow>
   recalc_loop env startDate endDate team batch_size st
     = recalc_loop env startDate endDate team batch_size
         (process_batch env batch_size (next_batch env startDate endDate team batch_size st) st)"
  by (subst recalc_loop.simps) (simp add: next_batch_def Let_def process_batch_fields)

text \<open>
  A proof rule for the loop: a relation between a state and the final state holds when
  it holds for the three ways a pass can go.
\<close>

lemma recalc_loop_rule:
  assumes stop: "\<And>st. next_batch env startDate endDate team batch_size st = [] \<Longrightarrow> P st st"
    and timeout: "\<And>st. next_batch env startDate endDate team batch_size st \<noteq> [] \<Longrightarrow>
        deadline_exceeded env (batches st + 1) \<Longrightarrow>
        P st ((process_batch env batch_size
                 (next_batch env startDate endDate team batch_size st) st)
              \<lparr>errors := errors (process_batch env batch_size
                                   (next_batch env startDate endDate team batch_size st) st)
                            @ [timeout_warning]\<rparr>)"
    and continue: "\<And>st final. next_batch env startDate endDate team batch_size st \<noteq> [] \<Longrightarrow>
        \<not> deadline_exceeded env (batches st + 1) \<Longrightarrow>
        P (process_batch env batch_size
             (next_batch env startDate endDate team batch_size st) st) final \<Longrightarrow>
        P st final"
  shows "P st (recalc_loop env startDate endDate team batch_size st)"
  using assms
proof (induction env startDate endDate team batch_size st rule: recalc_loop.induct)
  case (1 env startDate endDate team batch_size st)
  define rows where "rows = next_batch env startDate endDate team batch_size st"
  define st' where "st' = process_batch env batch_size rows st"
  show ?case
  proof (cases "rows = []")
    case True
    then show ?thesis
      using "1.prems"(1) [of st] by (simp add: rows_def recalc_loop_stop)
  next
    case False
    show ?thesis
    proof (cases "deadline_exceeded env (batches st + 1)")
      case True
      then show ?thesis
        using "1.prems"(2) [of st] False
        by (simp add: rows_def recalc_loop_timeout)
    next
      case ok: False
      have "length (selectSql (tie_break env (batches st)) (table st) startDate endDate team
                     batch_size (batch_offset st)) \<noteq> 0"
        using False by (simp add: rows_def next_batch_def)
      moreover have "\<not> deadline_exceeded env (batches (process_batch env batch_size
          (selectSql (tie_break env (batches st)) (table st) startDate endDate team
             batch_size (batch_offset st)) st))"
        using ok by (simp add: process_batch_fields)
      ultimately have "P (process_batch env batch_size
            (selectSql (tie_break env (batches st)) (table st) startDate endDate team
               batch_size (batch_offset st)) st)
          (recalc_loop env startDate endDate team batch_size
            (process_batch env batch_size
              (selectSql (tie_break env (batches st)) (table st) startDate endDate team
                 batch_size (batch_offset st)) st))"
        using "1.IH" [OF refl _ refl _ "1.prems"] by blast
      then have "P st' (recalc_loop env startDate endDate team batch_size st')"
        by (simp add: st'_def rows_def next_batch_def)
      then have "P st (recalc_loop env startDate endDate team batch_size st')"
        using "1.prems"(3) [of st] False ok by (simp add: st'_def rows_def)
      then show ?thesis
        using False ok by (simp add: recalc_loop_continue st'_def rows_def)
    qed
  qed
qed

lemma composite_key_without_cost:
  "map without_cost xs = map without_cost ys \<Longrightarrow> i < length xs \<Longrightarrow>
   composite_key (xs ! i) = composite_key (ys ! i)"
proof -
  assume eq: "map without_cost xs = map without_cost ys" and i: "i < length xs"
  have len: "length ys = length xs" using eq by (metis length_map)
  have "without_cost (xs ! i) = without_cost (ys ! i)"
    using eq i len by (metis nth_map)
  then have "composite_key (without_cost (xs ! i)) = composite_key (without_cost (ys ! i))"
    by simp
  then show ?thesis by (simp add: composite_key_def without_cost_def)
qed

text \<open>What the loop does to the history, the counters and the table.\<close>

lemma recalc_loop_trace:
  "\<exists>F. fetched (recalc_loop env startDate endDate team batch_size st) = fetched st @ F
     \<and> batches (recalc_loop env startDate endDate team batch_size st) = batches st + length F
     \<and> processed (recalc_loop env startDate endDate team batch_size st)
         = processed st + length (filter (priced env) (concat F))
     \<and> map without_cost (table (recalc_loop env startDate endDate team batch_size st))
         = map without_cost (table st)
     \<and> (\<forall>i < length (table st).
           composite_key (table st ! i) \<notin> update_key ` set (concat F) \<longrightarrow>
           table (recalc_loop env startDate endDate team batch_size st) ! i = table st ! i)"
proof (rule recalc_loop_rule [where P = "\<lambda>st final.
     \<exists>F. fetched final = fetched st @ F
        \<and> batches final = batches st + length F
        \<and> processed final = processed st + length (filter (priced env) (concat F))
        \<and> map without_cost (table final) = map without_cost (table st)
        \<and> (\<forall>i < length (table st).
              composite_key (table st ! i) \<notin> update_key ` set (concat F) \<longrightarrow>
              table final ! i = table st ! i)"])
  fix st :: RecalcState
  show "\<exists>F. fetched st = fetched st @ F
        \<and> batches st = batches st + length F
        \<and> processed st = processed st + length (filter (priced env) (concat F))
        \<and> map without_cost (table st) = map without_cost (table st)
        \<and> (\<forall>i < length (table st).
              composite_key (table st ! i) \<notin> update_key ` set (concat F) \<longrightarrow>
              table st ! i = table st ! i)"
    by (rule exI [of _ "[]"]) simp
next
  fix st :: RecalcState
  define rows where "rows = next_batch env startDate endDate team batch_size st"
  define st' where "st' = process_batch env batch_size rows st"
  have "fetched (st'\<lparr>errors := errors st' @ [timeout_warning]\<rparr>) = fetched st @ [rows]
        \<and> batches (st'\<lparr>errors := errors st' @ [timeout_warning]\<rparr>) = batches st + length [rows]
        \<and> processed (st'\<lparr>errors := errors st' @ [timeout_warning]\<rparr>)
            = processed st + length (filter (priced env) (concat [rows]))
        \<and> map without_cost (table (st'\<lparr>errors := errors st' @ [timeout_warning]\<rparr>))
            = map without_cost (table st)
        \<and> (\<forall>i < length (table st).
              composite_key (table st ! i) \<notin> update_key ` set (concat [rows]) \<longrightarrow>
              table (st'\<lparr>errors := errors st' @ [timeout_warning]\<rparr>) ! i = table st ! i)"
    by (simp add: st'_def process_batch_fields process_batch_without_cost
        process_batch_untouched)
  then show "\<exists>F. fetched (process_batch env batch_size
                 (next_batch env startDate endDate team batch_size st) st
              \<lparr>errors := errors (process_batch env batch_size
                                   (next_batch env startDate endDate team batch_size st) st)
                            @ [timeout_warning]\<rparr>) = fetched st @ F
        \<and> batches (process_batch env batch_size
                 (next_batch env startDate endDate team batch_size st) st
              \<lparr>errors := errors (process_batch env batch_size
                                   (next_batch env startDate endDate team batch_size st) st)
                            @ [timeout_warning]\<rparr>) = batches st + length F
        \<and> processed (process_batch env batch_size
                 (next_batch env startDate endDate team batch_size st) st
              \<lparr>errors := errors (process_batch env batch_size
                                   (next_batch env startDate endDate team batch_size st) st)
                            @ [timeout_warning]\<rparr>)
            = processed st + length (filter (priced env) (concat F))
        \<and> map without_cost (table (process_batch env batch_size
                 (next_batch env startDate endDate team batch_size st) st
              \<lparr>errors := errors (process_batch env batch_size
                                   (next_batch env startDate endDate team batch_size st) st)
                            @ [timeout_warning]\<rparr>))
            = map without_cost (table st)
        \<and> (\<forall>i < length (table st).
              composite_key (table st ! i) \<notin> update_key ` set (concat F) \<longrightarrow>
              table (process_batch env batch_size
                 (next_batch env startDate endDate team batch_size st) st
              \<lparr>errors := errors (process_batch env batch_size
                                   (next_batch env startDate endDate team batch_size st) st)
                            @ [timeout_warning]\<rparr>) ! i = table st ! i)"
    unfolding st'_def rows_def by (rule exI [of _ "[next_batch env startDate endDate team batch_size st]"])
next
  fix st final :: RecalcState
  define rows where "rows = next_batch env startDate endDate team batch_size st"
  define st' where "st' = process_batch env batch_size rows st"
  assume "\<exists>F. fetched final
           = fetched (process_batch env batch_size
                        (next_batch env startDate endDate team batch_size st) st) @ F
        \<and> batches final
           = batches (process_batch env batch_size
                        (next_batch env startDate endDate team batch_size st) st) + length F
        \<and> processed final
           = processed (process_batch env batch_size
                          (next_batch env startDate endDate team batch_size st) st)
             + length (filter (priced env) (concat F))
        \<and> map without_cost (table final)
           = map without_cost (table (process_batch env batch_size
                                        (next_batch env startDate endDate team batch_size st) st))
        \<and> (\<forall>i < length (table (process_batch env batch_size
                                 (next_batch env startDate endDate team batch_size st) st)).
              composite_key (table (process_batch env batch_size
                                      (next_batch env startDate endDate team batch_size st) st) ! i)
                \<notin> update_key ` set (concat F) \<longrightarrow>
              table final ! i
                = table (process_batch env batch_size
                           (next_batch env startDate endDate team batch_size st) st) ! i)"
  then obtain F where F: "fetched final = fetched st' @ F"
      "batches final = batches st' + length F"
      "processed final = processed st' + length (filter (priced env) (concat F))"
      "map without_cost (table final) = map without_cost (table st')"
      "\<forall>i < length (table st').
          composite_key (table st' ! i) \<notin> update_key ` set (concat F) \<longrightarrow>
          table final ! i = table st' ! i"
    unfolding st'_def rows_def by blast
  have same: "map without_cost (table st') = map without_cost (table st)"
    by (simp add: st'_def process_batch_without_cost)
  have len: "length (table st') = length (table st)"
    by (simp add: st'_def process_batch_fields)
  have untouched: "table final ! i = table st ! i"
    if i: "i < length (table st)"
      and out: "composite_key (table st ! i) \<notin> update_key ` set (concat (rows # F))"
    for i
  proof -
    have key: "composite_key (table st' ! i) = composite_key (table st ! i)"
      using composite_key_without_cost [OF same] i len by simp
    have out_rows: "composite_key (table st ! i) \<notin> update_key ` set rows"
      and out_F: "composite_key (table st ! i) \<notin> update_key ` set (concat F)"
      using out by auto
    have "table st' ! i = table st ! i"
      unfolding st'_def using i out_rows by (rule process_batch_untouched)
    moreover have "table final ! i = table st' ! i"
      using F(5) i len key out_F by simp
    ultimately show ?thesis by simp
  qed
  have "fetched final = fetched st @ (rows # F)
        \<and> batches final = batches st + length (rows # F)
        \<and> processed final = processed st + length (filter (priced env) (concat (rows # F)))
        \<and> map without_cost (table final) = map without_cost (table st)
        \<and> (\<forall>i < length (table st).
              composite_key (table st ! i) \<notin> update_key ` set (concat (rows # F)) \<longrightarrow>
              table final ! i = table st ! i)"
    using F(1-4) same untouched by (simp add: st'_def process_batch_fields)
  then show "\<exists>F. fetched final = fetched st @ F
        \<and> batches final = batches st + length F
        \<and> processed final = processed st + length (filter (priced env) (concat F))
        \<and> map without_cost (table final) = map without_cost (table st)
        \<and> (\<forall>i < length (table st).
              composite_key (table st ! i) \<notin> update_key ` set (concat F) \<longrightarrow>
              table final ! i = table st ! i)"
    by (rule exI [of _ "rows # F"])
qed

text \<open>When the loop stops and what it reports.\<close>

lemma recalc_loop_deadline:
  "batches st \<le> batches (recalc_loop env startDate endDate team batch_size st)
   \<and> (\<forall>j. batches st < j \<and> j < batches (recalc_loop env startDate endDate team batch_size st)
         \<longrightarrow> \<not> deadline_exceeded env j)
   \<and> (\<exists>es. errors (recalc_loop env startDate endDate team batch_size st) = errors st @ es
         \<and> (timeout_warning \<in> set es \<longleftrightarrow>
              batches st < batches (recalc_loop env startDate endDate team batch_size st)
              \<and> deadline_exceeded env
                  (batches (recalc_loop env startDate endDate team batch_size st))))"
proof (rule recalc_loop_rule [where P = "\<lambda>st final.
     batches st \<le> batches final
     \<and> (\<forall>j. batches st < j \<and> j < batches final \<longrightarrow> \<not> deadline_exceeded env j)
     \<and> (\<exists>es. errors final = errors st @ es
           \<and> (timeout_warning \<in> set es \<longleftrightarrow>
                batches st < batches final \<and> deadline_exceeded env (batches final)))"])
  fix st :: RecalcState
  show "batches st \<le> batches st
     \<and> (\<forall>j. batches st < j \<and> j < batches st \<longrightarrow> \<not> deadline_exceeded env j)
     \<and> (\<exists>es. errors st = errors st @ es
           \<and> (timeout_warning \<in> set es \<longleftrightarrow>
                batches st < batches st \<and> deadline_exceeded env (batches st)))"
    by auto
next
  fix st :: RecalcState
  define st' where "st' = process_batch env batch_size
      (next_batch env startDate endDate team batch_size st) st"
  assume exceeded: "deadline_exceeded env (batches st + 1)"
  obtain es where es: "errors st' = errors st @ es" "timeout_warning \<notin> set es"
    unfolding st'_def using process_batch_errors by blast
  have b: "batches st' = batches st + 1"
    by (simp add: st'_def process_batch_fields)
  have "errors (st'\<lparr>errors := errors st' @ [timeout_warning]\<rparr>)
          = errors st @ (es @ [timeout_warning])"
    using es by simp
  then have "batches st \<le> batches (st'\<lparr>errors := errors st' @ [timeout_warning]\<rparr>)
     \<and> (\<forall>j. batches st < j \<and> j < batches (st'\<lparr>errors := errors st' @ [timeout_warning]\<rparr>)
           \<longrightarrow> \<not> deadline_exceeded env j)
     \<and> (\<exists>es. errors (st'\<lparr>errors := errors st' @ [timeout_warning]\<rparr>) = errors st @ es
           \<and> (timeout_warning \<in> set es \<longleftrightarrow>
                batches st < batches (st'\<lparr>errors := errors st' @ [timeout_warning]\<rparr>)
                \<and> deadline_exceeded env
                    (batches (st'\<lparr>errors := errors st' @ [timeout_warning]\<rparr>))))"
    using b exceeded by auto
  then show "batches st
      \<le> batches (process_batch env batch_size
                   (next_batch env startDate endDate team batch_size st) st
                 \<lparr>errors := errors (process_batch env batch_size
                                      (next_batch env startDate endDate team batch_size st) st)
                               @ [timeout_warning]\<rparr>)
     \<and> (\<forall>j. batches st < j
            \<and> j < batches (process_batch env batch_size
                   (next_batch env startDate endDate team batch_size st) st
                 \<lparr>errors := errors (process_batch env batch_size
                                      (next_batch env startDate endDate team batch_size st) st)
                               @ [timeout_warning]\<rparr>)
           \<longrightarrow> \<not> deadline_exceeded env j)
     \<and> (\<exists>es. errors (process_batch env batch_size
                   (next_batch env startDate endDate team batch_size st) st
                 \<lparr>errors := errors (process_batch env batch_size
                                      (next_batch env startDate endDate team batch_size st) st)
                               @ [timeout_warning]\<rparr>) = errors st @ es
           \<and> (timeout_warning \<in> set es \<longleftrightarrow>
                batches st < batches (process_batch env batch_size
                   (next_batch env startDate endDate team batch_size st) st
                 \<lparr>errors := errors (process_batch env batch_size
                                      (next_batch env startDate endDate team batch_size st) st)
                               @ [timeout_warning]\<rparr>)
                \<and> deadline_exceeded env
                    (batches (process_batch env batch_size
                   (next_batch env startDate endDate team batch_size st) st
                 \<lparr>errors := errors (process_batch env batch_size
                                      (next_batch env startDate endDate team batch_size st) st)
                               @ [timeout_warning]\<rparr>))))"
    unfolding st'_def .
next
  fix st final :: RecalcState
  define st' where "st' = process_batch env batch_size
      (next_batch env startDate endDate team batch_size st) st"
  assume ok: "\<not> deadline_exceeded env (batches st + 1)"
  assume "batches (process_batch env batch_size
                     (next_batch env startDate endDate team batch_size st) st)
            \<le> batches final
     \<and> (\<forall>j. batches (process_batch env batch_size
                        (next_batch env startDate endDate team batch_size st) st) < j
            \<and> j < batches final \<longrightarrow> \<not> deadline_exceeded env j)
     \<and> (\<exists>es. errors final
                = errors (process_batch env batch_size
                            (next_batch env startDate endDate team batch_size st) st) @ es
           \<and> (timeout_warning \<in> set es \<longleftrightarrow>
                batches (process_batch env batch_size
                           (next_batch env startDate endDate team batch_size st) st)
                  < batches final
                \<and> deadline_exceeded env (batches final)))"
  then obtain es' where ih: "batches st' \<le> batches final"
      "\<forall>j. batches st' < j \<and> j < batches final \<longrightarrow> \<not> deadline_exceeded env j"
      "errors final = errors st' @ es'"
      "timeout_warning \<in> set es' \<longleftrightarrow>
         batches st' < batches final \<and> deadline_exceeded env (batches final)"
    unfolding st'_def by blast
  obtain es where es: "errors st' = errors st @ es" "timeout_warning \<notin> set es"
    unfolding st'_def using process_batch_errors by blast
  have b: "batches st' = batches st + 1"
    by (simp add: st'_def process_batch_fields)
  have le: "batches st \<le> batches final" using ih(1) b by simp
  have checks: "\<forall>j. batches st < j \<and> j < batches final \<longrightarrow> \<not> deadline_exceeded env j"
  proof (intro allI impI)
    fix j assume j: "batches st < j \<and> j < batches final"
    show "\<not> deadline_exceeded env j"
    proof (cases "j = batches st + 1")
      case True
      then show ?thesis using ok by simp
    next
      case False
      then have "batches st' < j" using j b by simp
      then show ?thesis using ih(2) j by blast
    qed
  qed
  have errs: "errors final = errors st @ (es @ es')"
    using ih(3) es(1) by simp
  have warn: "timeout_warning \<in> set (es @ es') \<longleftrightarrow>
      batches st < batches final \<and> deadline_exceeded env (batches final)"
  proof (cases "batches final = batches st + 1")
    case True
    then show ?thesis using ih(4) es(2) b ok by simp
  next
    case False
    then have "batches st' < batches final \<longleftrightarrow> batches st < batches final"
      using ih(1) b by simp
    then show ?thesis using ih(4) es(2) by simp
  qed
  show "batches st \<le> batches final
     \<and> (\<forall>j. batches st < j \<and> j < batches final \<longrightarrow> \<not> deadline_exceeded env j)
     \<and> (\<exists>es. errors final = errors st @ es
           \<and> (timeout_warning \<in> set es \<longleftrightarrow>
                batches st < batches final \<and> deadline_exceeded env (batches final)))"
    using le checks errs warn by blast
qed

text \<open>The example run, which the clock stops after its second batch.\<close>

lemmas example_defs = five_events_def example_event_def in_range_def selectSql_def
  slow_env_def fast_env_def example_pricing_def process_batch_def row_cost_def updateSql_def
  matches_def date_of_timestamptz_def timestamptz_of_date_def
  deadline_exceeded_def initial_state_def int'_def num_def Let_def next_batch_def

lemma slow_run:
  "recalc_loop slow_env 1704110400000 1704261600000 ''team-1'' 1 (initial_state five_events)
     = \<lparr>table = [(example_event 0)\<lparr>cost_total := Some 1\<rparr>,
                  (example_event 1)\<lparr>cost_total := Some 1\<rparr>,
                  example_event 2, example_event 3, example_event 4],
         updated = 2, processed = 2, errors = [timeout_warning], batches = 2,
         batch_offset = 2, fetched = [[example_event 0], [example_event 1]]\<rparr>"
  apply (subst recalc_loop.simps)
  apply (simp add: example_defs)
  apply (subst recalc_loop.simps)
  apply (simp add: example_defs)
  done

lemma recalculate_costs_valid:
  assumes "rc_ctx req = Some c" and "team_id c \<noteq> []"
    and "b_start req = DateAt startDate" and "b_end req = DateAt endDate"
    and "startDate \<le> endDate"
    and "connect_error env (team_id c) = None" and "pricing_load_error env = None"
  shows "recalculate_costs env req rows =
     (recalculation_response env startDate endDate
        (recalc_loop env startDate endDate (team_id c)
           (case b_batch_size req of None \<Rightarrow> 1000 | Some n \<Rightarrow> n) (initial_state rows)),
      table (recalc_loop env startDate endDate (team_id c)
           (case b_batch_size req of None \<Rightarrow> 1000 | Some n \<Rightarrow> n) (initial_state rows)))"
  using assms by (simp add: recalculate_costs_def Let_def)

lemma recalculation_response_properties:
  "property (body (recalculation_response env startDate endDate st)) ''partial'' = None"
  "property (body (recalculation_response env startDate endDate st)) ''stats''
     = Some (JObj
         [(''processed'', JNum (real (processed st))),
          (''updated'', JNum (real (updated st))),
          (''batches'', JNum (real (batches st))),
          (''duration_ms'', JNum (real_of_int (now env (batches st + 1) - now env 0)))])"
  "property (body (recalculation_response env startDate endDate st)) ''errors''
     = Some (JArr (map error_json (take 10 (errors st))))"
  "property (body (recalculation_response env startDate endDate st)) ''error_count''
     = Some (JNum (real (length (errors st))))"
  "property (body (recalculation_response env startDate endDate st)) ''message''
     = Some (JStr ''recalculation_complete'')"
  by (simp_all add: recalculation_response_def res_json_def)

text \<open>
  C5, amended. A run never makes another pass after a check that found the deadline (5
  minutes after the start, read after every batch) exceeded, so it stops at that batch
  boundary. The response has no property \<^verbatim>\<open>partial\<close> and its message stays
  \<^verbatim>\<open>recalculation_complete\<close>: a run that timed out is told by the warning entry
  that is in its error list exactly when the last check found the deadline exceeded
  (the response shows the first ten entries and the count). \<^verbatim>\<open>stats.processed\<close> is
  the number of fetched rows whose cost could be computed, and a row whose composite
  key is not the key that the \<^verbatim>\<open>UPDATE\<close> statement looks for on behalf of a fetched
  row is left as it was; that key is the fetched row's own when its timestamp has no
  microsecond digits, so that then a row whose composite key is not that of a fetched
  row is left as it was.
\<close>

theorem timeout_partial_completion:
  assumes "rc_ctx req = Some c" and "team_id c \<noteq> []"
    and "b_start req = DateAt startDate" and "b_end req = DateAt endDate"
    and "startDate \<le> endDate"
    and "connect_error env (team_id c) = None" and "pricing_load_error env = None"
    and final: "final = recalc_loop env startDate endDate (team_id c)
           (case b_batch_size req of None \<Rightarrow> 1000 | Some n \<Rightarrow> n) (initial_state rows)"
  shows "recalculate_costs env req rows
           = (recalculation_response env startDate endDate final, table final)
     \<and> (\<forall>j. 0 < j \<and> j < batches final \<longrightarrow> \<not> deadline_exceeded env j)
     \<and> (timeout_warning \<in> set (errors final)
          \<longleftrightarrow> 0 < batches final \<and> deadline_exceeded env (batches final))
     \<and> length (fetched final) = batches final
     \<and> processed final = length (filter (priced env) (concat (fetched final)))
     \<and> length (table final) = length rows
     \<and> (\<forall>i < length rows.
           composite_key (rows ! i) \<notin> update_key ` set (concat (fetched final)) \<longrightarrow>
           table final ! i = rows ! i)
     \<and> ((\<forall>r \<in> set (concat (fetched final)). whole_milliseconds r) \<longrightarrow>
          (\<forall>i < length rows.
             composite_key (rows ! i) \<notin> composite_key ` set (concat (fetched final)) \<longrightarrow>
             table final ! i = rows ! i))
     \<and> property (body (recalculation_response env startDate endDate final)) ''partial'' = None
     \<and> property (body (recalculation_response env startDate endDate final)) ''message''
         = Some (JStr ''recalculation_complete'')
     \<and> property (body (recalculation_response env startDate endDate final)) ''stats''
         = Some (JObj
             [(''processed'', JNum (real (processed final))),
              (''updated'', JNum (real (updated final))),
              (''batches'', JNum (real (batches final))),
              (''duration_ms'',
                 JNum (real_of_int (now env (batches final + 1) - now env 0)))])
     \<and> property (body (recalculation_response env startDate endDate final)) ''errors''
         = Some (JArr (map error_json (take 10 (errors final))))
     \<and> property (body (recalculation_response env startDate endDate final)) ''error_count''
         = Some (JNum (real (length (errors final))))"
proof -
  define bs where "bs = (case b_batch_size req of None \<Rightarrow> 1000 | Some n \<Rightarrow> n)"
  define st where "st = initial_state rows"
  have fin: "final = recalc_loop env startDate endDate (team_id c) bs st"
    using final by (simp add: bs_def st_def)
  have init: "fetched st = []" "batches st = 0" "processed st = 0" "errors st = []"
    "table st = rows"
    by (simp_all add: st_def initial_state_def)
  have response: "recalculate_costs env req rows
           = (recalculation_response env startDate endDate final, table final)"
    unfolding final by (rule recalculate_costs_valid [OF assms(1-7)])
  obtain F where F: "fetched final = fetched st @ F"
      "batches final = batches st + length F"
      "processed final = processed st + length (filter (priced env) (concat F))"
      "map without_cost (table final) = map without_cost (table st)"
      "\<forall>i < length (table st).
           composite_key (table st ! i) \<notin> update_key ` set (concat F) \<longrightarrow>
           table final ! i = table st ! i"
    unfolding fin using recalc_loop_trace [of env startDate endDate "team_id c" bs st]
    by blast
  have trace: "length (fetched final) = batches final"
    "processed final = length (filter (priced env) (concat (fetched final)))"
    using F(1-3) init by simp_all
  have len: "length (table final) = length rows"
    using F(4) init by (metis length_map)
  have untouched: "\<forall>i < length rows.
           composite_key (rows ! i) \<notin> update_key ` set (concat (fetched final)) \<longrightarrow>
           table final ! i = rows ! i"
    using F(1,5) init by simp
  have untouched_whole: "\<forall>i < length rows.
             composite_key (rows ! i) \<notin> composite_key ` set (concat (fetched final)) \<longrightarrow>
             table final ! i = rows ! i"
    if whole: "\<forall>r \<in> set (concat (fetched final)). whole_milliseconds r"
  proof -
    have "update_key ` set (concat (fetched final))
        = composite_key ` set (concat (fetched final))"
      using whole by (intro image_cong refl) (auto simp add: update_key_whole_milliseconds)
    then show ?thesis using untouched by simp
  qed
  obtain es where deadline:
      "\<forall>j. batches st < j \<and> j < batches final \<longrightarrow> \<not> deadline_exceeded env j"
      "errors final = errors st @ es"
      "timeout_warning \<in> set es \<longleftrightarrow>
         batches st < batches final \<and> deadline_exceeded env (batches final)"
    unfolding fin using recalc_loop_deadline [of st env startDate endDate "team_id c" bs]
    by blast
  have checks: "\<forall>j. 0 < j \<and> j < batches final \<longrightarrow> \<not> deadline_exceeded env j"
    using deadline(1) init by simp
  have warning: "timeout_warning \<in> set (errors final)
          \<longleftrightarrow> 0 < batches final \<and> deadline_exceeded env (batches final)"
    using deadline(2,3) init by simp
  show ?thesis
    using response checks warning trace len untouched untouched_whole
    by (simp add: recalculation_response_properties)
qed

lemma slow_request:
  "recalculate_costs slow_env (example_recalc_request 1) five_events
     = (recalculation_response slow_env 1704110400000 1704261600000
          (recalc_loop slow_env 1704110400000 1704261600000 ''team-1'' 1
             (initial_state five_events)),
        table (recalc_loop slow_env 1704110400000 1704261600000 ''team-1'' 1
             (initial_state five_events)))"
  by (simp add: recalculate_costs_def example_recalc_request_def slow_env_def Let_def)

text \<open>
  C5, as stated, fails. Five rows, batches of one, and the deadline exceeded at the
  check after the second batch: the run stops there, and this is its whole response. It
  has no \<^verbatim>\<open>partial\<close>.
\<close>

theorem timeout_without_partial_counterexample:
  "deadline_exceeded slow_env 2
   \<and> body (fst (recalculate_costs slow_env (example_recalc_request 1) five_events))
       = JObj
          [(''message'', JStr ''recalculation_complete''),
           (''period'', JObj [(''start'', JDate 1704110400000), (''end'', JDate 1704261600000)]),
           (''stats'', JObj
              [(''processed'', JNum 2), (''updated'', JNum 2), (''batches'', JNum 2),
               (''duration_ms'', JNum 300004)]),
           (''continuous_aggregates'', JArr
              [JObj [(''ca'', JStr ''llm_events_daily_ca''), (''status'', JStr ''refreshed'')],
               JObj [(''ca'', JStr ''llm_events_daily_by_model_ca''),
                     (''status'', JStr ''refreshed'')],
               JObj [(''ca'', JStr ''llm_events_daily_by_agent_ca''),
                     (''status'', JStr ''refreshed'')]]),
           (''errors'', JArr
              [JObj [(''warning'',
                 JStr ''Timeout reached after 5 minutes. Partial recalculation completed.'')]]),
           (''error_count'', JNum 1)]
   \<and> property (body (fst (recalculate_costs slow_env (example_recalc_request 1) five_events)))
        ''partial'' = None"
proof -
  have response: "fst (recalculate_costs slow_env (example_recalc_request 1) five_events)
      = recalculation_response slow_env 1704110400000 1704261600000
         \<lparr>table = [(example_event 0)\<lparr>cost_total := Some 1\<rparr>,
                  (example_event 1)\<lparr>cost_total := Some 1\<rparr>,
                  example_event 2, example_event 3, example_event 4],
         updated = 2, processed = 2, errors = [timeout_warning], batches = 2,
         batch_offset = 2, fetched = [[example_event 0], [example_event 1]]\<rparr>"
    by (simp only: slow_request slow_run fst_conv)
  have clock: "deadline_exceeded slow_env 2"
    by (simp add: deadline_exceeded_def slow_env_def)
  show ?thesis
    unfolding response using clock
    by (simp add: recalculation_response_def res_json_def slow_env_def cas_def
        refresh_result_def error_json_def timeout_warning_def)
qed

text \<open>
  The same run: two batches, two rows processed, the warning in the error list, and the
  last three rows of the table as they were.
\<close>

theorem timeout_partial_completion_witness:
  "\<not> deadline_exceeded slow_env 1 \<and> deadline_exceeded slow_env 2
   \<and> batches (recalc_loop slow_env 1704110400000 1704261600000 ''team-1'' 1
        (initial_state five_events)) = 2
   \<and> processed (recalc_loop slow_env 1704110400000 1704261600000 ''team-1'' 1
        (initial_state five_events)) = 2
   \<and> timeout_warning \<in> set (errors (recalc_loop slow_env 1704110400000 1704261600000
        ''team-1'' 1 (initial_state five_events)))
   \<and> drop 2 (snd (recalculate_costs slow_env (example_recalc_request 1) five_events))
       = drop 2 five_events
   \<and> property (body (fst (recalculate_costs slow_env (example_recalc_request 1) five_events)))
        ''partial'' = None"
proof -
  define c :: TokenContext where "c = \<lparr>team_id = ''team-1''\<rparr>"
  define req where "req = example_recalc_request 1"
  define final where "final = recalc_loop slow_env 1704110400000 1704261600000 (team_id c)
           (case b_batch_size req of None \<Rightarrow> 1000 | Some n \<Rightarrow> n) (initial_state five_events)"
  have h1: "rc_ctx req = Some c" by (simp add: req_def c_def example_recalc_request_def)
  have h2: "team_id c \<noteq> []" by (simp add: c_def)
  have h3: "b_start req = DateAt 1704110400000"
    by (simp add: req_def example_recalc_request_def)
  have h4: "b_end req = DateAt 1704261600000"
    by (simp add: req_def example_recalc_request_def)
  have h5: "(1704110400000::int) \<le> 1704261600000" by simp
  have h6: "connect_error slow_env (team_id c) = None" by (simp add: slow_env_def)
  have h7: "pricing_load_error slow_env = None" by (simp add: slow_env_def)
  note run = timeout_partial_completion [OF h1 h2 h3 h4 h5 h6 h7 final_def]
  have final: "final = recalc_loop slow_env 1704110400000 1704261600000 ''team-1'' 1
        (initial_state five_events)"
    by (simp add: final_def c_def req_def example_recalc_request_def)
  have clock: "\<not> deadline_exceeded slow_env 1 \<and> deadline_exceeded slow_env 2"
    by (simp add: deadline_exceeded_def slow_env_def)
  have final_state: "final
     = \<lparr>table = [(example_event 0)\<lparr>cost_total := Some 1\<rparr>,
                  (example_event 1)\<lparr>cost_total := Some 1\<rparr>,
                  example_event 2, example_event 3, example_event 4],
         updated = 2, processed = 2, errors = [timeout_warning], batches = 2,
         batch_offset = 2, fetched = [[example_event 0], [example_event 1]]\<rparr>"
    unfolding final by (rule slow_run)
  have b: "batches final = 2" by (simp add: final_state)
  have fetched: "fetched final = [[example_event 0], [example_event 1]]"
    by (simp add: final_state)
  have p: "processed final = 2"
    using run fetched
    by (simp add: priced_def row_cost_def slow_env_def example_pricing_def)
  have w: "timeout_warning \<in> set (errors final)"
    using run b clock by simp
  have rest: "\<forall>i < length five_events.
           composite_key (five_events ! i) \<notin> update_key ` set (concat (fetched final)) \<longrightarrow>
           table final ! i = five_events ! i"
    and len: "length (table final) = length five_events"
    and response: "recalculate_costs slow_env req five_events
           = (recalculation_response slow_env 1704110400000 1704261600000 final, table final)"
    and no_partial: "property (body (recalculation_response slow_env 1704110400000
           1704261600000 final)) ''partial'' = None"
    using run by blast+
  have "table final ! i = five_events ! i" if "2 \<le> i" and "i < 5" for i
  proof -
    have "i = 2 \<or> i = 3 \<or> i = 4" using that by auto
    then have "composite_key (five_events ! i)
        \<notin> update_key ` set (concat (fetched final))"
      by (auto simp add: fetched five_events_def example_event_def composite_key_def
          update_key_def date_of_timestamptz_def timestamptz_of_date_def)
    then show ?thesis using rest that by (simp add: five_events_def)
  qed
  then have "drop 2 (table final) = drop 2 five_events"
    using len by (intro nth_equalityI) (simp_all add: five_events_def)
  then have "drop 2 (snd (recalculate_costs slow_env req five_events)) = drop 2 five_events"
    using response by simp
  moreover have "property (body (fst (recalculate_costs slow_env req five_events)))
        ''partial'' = None"
    using response no_partial by simp
  ultimately show ?thesis
    using clock b p w unfolding final req_def by blast
qed

subsection \<open>Paging through the rows\<close>

text \<open>Sorting by a key that a function preserves commutes with mapping that function.\<close>

lemma map_insort_key:
  "map f (insort_key (\<lambda>x. k (f x)) x xs) = insort_key k (f x) (map f xs)"
  by (induction xs) simp_all

lemma map_sort_key:
  "map f (sort_key (\<lambda>x. k (f x)) xs) = sort_key k (map f xs)"
  by (induction xs) (simp_all add: map_insort_key)

lemma sorted_fst_of_pairs:
  "sorted (map (\<lambda>x. (f x, g x)) xs) \<Longrightarrow> sorted (map f xs)"
  by (induction xs) (auto simp add: less_eq_prod_def)

lemma in_range_without_cost [simp]:
  "in_range startDate endDate team (without_cost r) = in_range startDate endDate team r"
  by (simp add: without_cost_def)

lemma timestamp_without_cost [simp]: "timestamp (without_cost r) = timestamp r"
  by (simp add: without_cost_def)

lemma without_cost_idem [simp]: "without_cost (without_cost r) = without_cost r"
  by (simp add: without_cost_def)

text \<open>
  With stable ties, every fetch of a run sees the rows in range in one and the same
  order, whatever costs the run has written.
\<close>

lemma stable_order:
  assumes ties: "stable_ties env"
    and same: "map without_cost tbl = map without_cost rows"
  shows "map without_cost
           (sort_key (\<lambda>r. (timestamp r, tie_break env n r))
              (filter (in_range startDate endDate team) tbl))
         = rows_in_order env startDate endDate team rows"
proof -
  define k where "k = (\<lambda>r. (timestamp r, tie_break env 0 r))"
  have tie: "tie_break env m r = tie_break env 0 (without_cost r)" for m r
    using ties unfolding stable_ties_def by blast
  have key: "(\<lambda>r. (timestamp r, tie_break env m r)) = (\<lambda>r. k (without_cost r))" for m
    by (intro ext) (metis k_def tie timestamp_without_cost without_cost_idem)
  have filtered: "map without_cost (filter (in_range startDate endDate team) xs)
      = filter (in_range startDate endDate team) (map without_cost xs)" for xs
    by (induction xs) simp_all
  have "map without_cost
           (sort_key (\<lambda>r. (timestamp r, tie_break env m r))
              (filter (in_range startDate endDate team) xs))
        = sort_key k (filter (in_range startDate endDate team) (map without_cost xs))" for m xs
    by (simp only: key map_sort_key filtered)
  then show ?thesis
    using same by (simp add: rows_in_order_def)
qed

lemma sorted_rows_in_order:
  "sorted (map timestamp (rows_in_order env startDate endDate team rows))"
proof -
  have "sorted (map (\<lambda>r. (timestamp r, tie_break env 0 r))
          (sort_key (\<lambda>r. (timestamp r, tie_break env 0 r))
             (filter (in_range startDate endDate team) rows)))"
    by (rule sorted_sort_key)
  then have "sorted (map timestamp
          (sort_key (\<lambda>r. (timestamp r, tie_break env 0 r))
             (filter (in_range startDate endDate team) rows)))"
    by (rule sorted_fst_of_pairs)
  then show ?thesis
    by (simp add: rows_in_order_def comp_def)
qed

lemma mset_rows_in_order:
  "mset (rows_in_order env startDate endDate team rows)
     = mset (map without_cost (filter (in_range startDate endDate team) rows))"
  by (simp add: rows_in_order_def)

lemma selectSql_sorted:
  "sorted (map timestamp (selectSql tie rows startDate endDate team batch_size offset))"
proof -
  have "sorted (map (\<lambda>r. (timestamp r, tie r))
          (sort_key (\<lambda>r. (timestamp r, tie r)) (filter (in_range startDate endDate team) rows)))"
    by (rule sorted_sort_key)
  then have "sorted (map timestamp
          (sort_key (\<lambda>r. (timestamp r, tie r)) (filter (in_range startDate endDate team) rows)))"
    by (rule sorted_fst_of_pairs)
  then show ?thesis
    by (simp add: selectSql_def sorted_wrt_take sorted_wrt_drop take_map [symmetric]
        drop_map [symmetric])
qed

text \<open>How the loop ends: on the deadline, or on a fetch that returns nothing.\<close>

lemma recalc_loop_end:
  "timeout_warning \<in> set (errors (recalc_loop env startDate endDate team batch_size st))
   \<or> next_batch env startDate endDate team batch_size
        (recalc_loop env startDate endDate team batch_size st) = []"
  by (rule recalc_loop_rule [where P = "\<lambda>st final.
        timeout_warning \<in> set (errors final)
        \<or> next_batch env startDate endDate team batch_size final = []"])
     simp_all

text \<open>
  With stable ties the pages are consecutive slices of the one ordered list of the rows
  in range.
\<close>

lemma recalc_loop_pages:
  assumes ties: "stable_ties env"
  shows "map without_cost (table st) = map without_cost rows \<longrightarrow>
     (\<exists>F. fetched (recalc_loop env startDate endDate team batch_size st) = fetched st @ F
        \<and> batch_offset (recalc_loop env startDate endDate team batch_size st)
            = batch_offset st + length F * batch_size
        \<and> map without_cost (concat F)
            = take (length F * batch_size)
                (drop (batch_offset st) (rows_in_order env startDate endDate team rows)))"
proof (rule recalc_loop_rule [where P = "\<lambda>st final.
     map without_cost (table st) = map without_cost rows \<longrightarrow>
     (\<exists>F. fetched final = fetched st @ F
        \<and> batch_offset final = batch_offset st + length F * batch_size
        \<and> map without_cost (concat F)
            = take (length F * batch_size)
                (drop (batch_offset st) (rows_in_order env startDate endDate team rows)))"])
  fix st :: RecalcState
  show "map without_cost (table st) = map without_cost rows \<longrightarrow>
     (\<exists>F. fetched st = fetched st @ F
        \<and> batch_offset st = batch_offset st + length F * batch_size
        \<and> map without_cost (concat F)
            = take (length F * batch_size)
                (drop (batch_offset st) (rows_in_order env startDate endDate team rows)))"
    by simp
next
  fix st :: RecalcState
  define B where "B = next_batch env startDate endDate team batch_size st"
  define st' where "st' = process_batch env batch_size B st"
  have page: "map without_cost B
      = take batch_size (drop (batch_offset st)
          (rows_in_order env startDate endDate team rows))"
    if "map without_cost (table st) = map without_cost rows"
  proof -
    have "map without_cost B
        = take batch_size (drop (batch_offset st)
            (map without_cost
               (sort_key (\<lambda>r. (timestamp r, tie_break env (batches st) r))
                  (filter (in_range startDate endDate team) (table st)))))"
      by (simp add: B_def next_batch_def selectSql_def take_map drop_map)
    then show ?thesis
      by (simp only: stable_order [OF ties that])
  qed
  have "map without_cost (table st) = map without_cost rows \<longrightarrow>
     (fetched (st'\<lparr>errors := errors st' @ [timeout_warning]\<rparr>) = fetched st @ [B]
        \<and> batch_offset (st'\<lparr>errors := errors st' @ [timeout_warning]\<rparr>)
            = batch_offset st + length [B] * batch_size
        \<and> map without_cost (concat [B])
            = take (length [B] * batch_size)
                (drop (batch_offset st) (rows_in_order env startDate endDate team rows)))"
    using page by (simp add: st'_def process_batch_fields)
  then show "map without_cost (table st) = map without_cost rows \<longrightarrow>
     (\<exists>F. fetched (process_batch env batch_size
                 (next_batch env startDate endDate team batch_size st) st
              \<lparr>errors := errors (process_batch env batch_size
                                   (next_batch env startDate endDate team batch_size st) st)
                            @ [timeout_warning]\<rparr>) = fetched st @ F
        \<and> batch_offset (process_batch env batch_size
                 (next_batch env startDate endDate team batch_size st) st
              \<lparr>errors := errors (process_batch env batch_size
                                   (next_batch env startDate endDate team batch_size st) st)
                            @ [timeout_warning]\<rparr>)
            = batch_offset st + length F * batch_size
        \<and> map without_cost (concat F)
            = take (length F * batch_size)
                (drop (batch_offset st) (rows_in_order env startDate endDate team rows)))"
    unfolding st'_def B_def by blast
next
  fix st final :: RecalcState
  define B where "B = next_batch env startDate endDate team batch_size st"
  define st' where "st' = process_batch env batch_size B st"
  define Z where "Z = rows_in_order env startDate endDate team rows"
  assume ih: "map without_cost (table (process_batch env batch_size
                 (next_batch env startDate endDate team batch_size st) st))
        = map without_cost rows \<longrightarrow>
     (\<exists>F. fetched final
            = fetched (process_batch env batch_size
                 (next_batch env startDate endDate team batch_size st) st) @ F
        \<and> batch_offset final
            = batch_offset (process_batch env batch_size
                 (next_batch env startDate endDate team batch_size st) st)
              + length F * batch_size
        \<and> map without_cost (concat F)
            = take (length F * batch_size)
                (drop (batch_offset (process_batch env batch_size
                         (next_batch env startDate endDate team batch_size st) st))
                   (rows_in_order env startDate endDate team rows)))"
  show "map without_cost (table st) = map without_cost rows \<longrightarrow>
     (\<exists>F. fetched final = fetched st @ F
        \<and> batch_offset final = batch_offset st + length F * batch_size
        \<and> map without_cost (concat F)
            = take (length F * batch_size)
                (drop (batch_offset st) (rows_in_order env startDate endDate team rows)))"
  proof
    assume same: "map without_cost (table st) = map without_cost rows"
    have "map without_cost B
        = take batch_size (drop (batch_offset st)
            (map without_cost
               (sort_key (\<lambda>r. (timestamp r, tie_break env (batches st) r))
                  (filter (in_range startDate endDate team) (table st)))))"
      by (simp add: B_def next_batch_def selectSql_def take_map drop_map)
    then have page: "map without_cost B = take batch_size (drop (batch_offset st) Z)"
      by (simp only: stable_order [OF ties same] Z_def)
    have "map without_cost (table st') = map without_cost rows"
      using same by (simp add: st'_def process_batch_without_cost)
    then obtain F where F: "fetched final = fetched st' @ F"
        "batch_offset final = batch_offset st' + length F * batch_size"
        "map without_cost (concat F)
           = take (length F * batch_size) (drop (batch_offset st') Z)"
      using ih unfolding st'_def B_def Z_def by blast
    have off: "batch_offset st' = batch_offset st + batch_size"
      by (simp add: st'_def)
    have "map without_cost (concat (B # F))
        = take batch_size (drop (batch_offset st) Z)
          @ take (length F * batch_size) (drop batch_size (drop (batch_offset st) Z))"
      using page F(3) off by (simp add: add.commute)
    also have "\<dots> = take (batch_size + length F * batch_size) (drop (batch_offset st) Z)"
      by (simp add: take_add)
    finally have slices: "map without_cost (concat (B # F))
        = take (length (B # F) * batch_size) (drop (batch_offset st) Z)"
      by simp
    have "fetched final = fetched st @ (B # F)
        \<and> batch_offset final = batch_offset st + length (B # F) * batch_size"
      using F(1,2) off by (simp add: st'_def process_batch_fields)
    then show "\<exists>F. fetched final = fetched st @ F
        \<and> batch_offset final = batch_offset st + length F * batch_size
        \<and> map without_cost (concat F)
            = take (length F * batch_size)
                (drop (batch_offset st) (rows_in_order env startDate endDate team rows))"
      using slices unfolding Z_def by blast
  qed
qed

lemma next_batch_sorted:
  "sorted (map timestamp (next_batch env startDate endDate team batch_size st))"
  by (simp add: next_batch_def selectSql_sorted)

text \<open>
  C9, amended. Every batch fetch orders the rows by timestamp only, ascending. If the
  database orders rows of equal timestamp the same way at every fetch of the run, the
  successive pages are consecutive slices of one list of the rows in range, in which
  every such row occurs once and timestamps ascend: no row is fetched twice, progress
  is monotonic in the timestamp, and a run with a positive batch size that does not
  time out fetches every row in range exactly once.
\<close>

theorem deterministic_paging:
  assumes ties: "stable_ties env"
    and final: "final = recalc_loop env startDate endDate team batch_size (initial_state rows)"
  shows "sorted (map timestamp (next_batch env startDate endDate team batch_size st))
     \<and> map without_cost (concat (fetched final))
         = take (batches final * batch_size) (rows_in_order env startDate endDate team rows)
     \<and> mset (rows_in_order env startDate endDate team rows)
         = mset (map without_cost (filter (in_range startDate endDate team) rows))
     \<and> sorted (map timestamp (rows_in_order env startDate endDate team rows))
     \<and> sorted (map timestamp (concat (fetched final)))
     \<and> (0 < batch_size \<and> timeout_warning \<notin> set (errors final) \<longrightarrow>
          map without_cost (concat (fetched final))
            = rows_in_order env startDate endDate team rows)"
proof -
  define st0 where "st0 = initial_state rows"
  define Z where "Z = rows_in_order env startDate endDate team rows"
  have init: "fetched st0 = []" "batches st0 = 0" "batch_offset st0 = 0" "table st0 = rows"
    by (simp_all add: st0_def initial_state_def)
  have fin: "final = recalc_loop env startDate endDate team batch_size st0"
    using final by (simp add: st0_def)
  obtain F where F: "fetched final = fetched st0 @ F"
      "batch_offset final = batch_offset st0 + length F * batch_size"
      "map without_cost (concat F) = take (length F * batch_size) (drop (batch_offset st0) Z)"
    using recalc_loop_pages [OF ties, of st0 rows startDate endDate team batch_size] init(4)
    unfolding fin Z_def by blast
  obtain F' where F': "fetched final = fetched st0 @ F'"
      "batches final = batches st0 + length F'"
      "map without_cost (table final) = map without_cost (table st0)"
    using recalc_loop_trace [of env startDate endDate team batch_size st0]
    unfolding fin by blast
  have count: "batches final = length F" using F(1) F'(1,2) init by simp
  have fetched: "fetched final = F" using F(1) init by simp
  have offset: "batch_offset final = batches final * batch_size"
    using F(2) count init by simp
  have pages: "map without_cost (concat (fetched final)) = take (batches final * batch_size) Z"
    using F(3) fetched count init by simp
  have sorted_Z: "sorted (map timestamp Z)"
    unfolding Z_def by (rule sorted_rows_in_order)
  have "map timestamp (concat (fetched final))
      = map timestamp (map without_cost (concat (fetched final)))"
    by (simp add: comp_def)
  also have "\<dots> = take (batches final * batch_size) (map timestamp Z)"
    by (simp add: pages take_map)
  finally have monotonic: "sorted (map timestamp (concat (fetched final)))"
    using sorted_Z by (simp add: sorted_wrt_take)
  have complete: "map without_cost (concat (fetched final)) = Z"
    if positive: "0 < batch_size" and finished: "timeout_warning \<notin> set (errors final)"
  proof -
    have "next_batch env startDate endDate team batch_size final = []"
      using recalc_loop_end [of env startDate endDate team batch_size st0] finished
      unfolding fin by blast
    then have "drop (batch_offset final)
          (sort_key (\<lambda>r. (timestamp r, tie_break env (batches final) r))
             (filter (in_range startDate endDate team) (table final))) = []"
      using positive by (simp add: next_batch_def selectSql_def)
    then have "length (sort_key (\<lambda>r. (timestamp r, tie_break env (batches final) r))
             (filter (in_range startDate endDate team) (table final))) \<le> batch_offset final"
      by simp
    moreover have "map without_cost
           (sort_key (\<lambda>r. (timestamp r, tie_break env (batches final) r))
              (filter (in_range startDate endDate team) (table final))) = Z"
      unfolding Z_def using F'(3) init(4) by (intro stable_order [OF ties]) simp
    ultimately have "length Z \<le> batch_offset final"
      by (metis length_map)
    then show ?thesis using pages offset by simp
  qed
  show ?thesis
    using pages monotonic complete sorted_Z
    by (simp add: Z_def next_batch_sorted mset_rows_in_order)
qed

lemma fast_run:
  "recalc_loop fast_env 1704110400000 1704261600000 ''team-1'' 2 (initial_state five_events)
     = \<lparr>table = map (\<lambda>r. r\<lparr>cost_total := Some 1\<rparr>) five_events,
         updated = 5, processed = 5, errors = [], batches = 3,
         batch_offset = 6,
         fetched = [[example_event 0, example_event 1], [example_event 2, example_event 3],
                    [example_event 4]]\<rparr>"
  apply (subst recalc_loop.simps)
  apply (simp add: example_defs)
  apply (subst recalc_loop.simps)
  apply (simp add: example_defs)
  apply (subst recalc_loop.simps)
  apply (simp add: example_defs)
  apply (subst recalc_loop.simps)
  apply (simp add: example_defs)
  done

lemma stable_ties_fast_env: "stable_ties fast_env"
  by (simp add: stable_ties_def fast_env_def slow_env_def)

text \<open>
  Five rows in batches of two, with stable ties: three pages, which together are the
  rows in range in their order.
\<close>

theorem deterministic_paging_witness:
  "stable_ties fast_env
   \<and> fetched (recalc_loop fast_env 1704110400000 1704261600000 ''team-1'' 2
        (initial_state five_events))
       = [[example_event 0, example_event 1], [example_event 2, example_event 3],
          [example_event 4]]
   \<and> map without_cost (concat (fetched (recalc_loop fast_env 1704110400000 1704261600000
        ''team-1'' 2 (initial_state five_events))))
       = rows_in_order fast_env 1704110400000 1704261600000 ''team-1'' five_events
   \<and> sorted (map timestamp (concat (fetched (recalc_loop fast_env 1704110400000
        1704261600000 ''team-1'' 2 (initial_state five_events)))))"
proof -
  define final where "final = recalc_loop fast_env 1704110400000 1704261600000 ''team-1'' 2
        (initial_state five_events)"
  note paging = deterministic_paging [OF stable_ties_fast_env final_def]
  have finished: "timeout_warning \<notin> set (errors final)"
    unfolding final_def by (simp only: fast_run) simp
  have fetched: "fetched final
       = [[example_event 0, example_event 1], [example_event 2, example_event 3],
          [example_event 4]]"
    unfolding final_def by (simp only: fast_run) simp
  have positive: "(0::nat) < 2" by simp
  have "map without_cost (concat (fetched final))
       = rows_in_order fast_env 1704110400000 1704261600000 ''team-1'' five_events"
    using paging positive finished by blast
  moreover have "sorted (map timestamp (concat (fetched final)))"
    using paging by blast
  ultimately show ?thesis
    using stable_ties_fast_env fetched unfolding final_def by blast
qed

lemmas tied_defs = tied_event_def reordering_env_def

lemma reordered_run:
  "recalc_loop reordering_env 1704110400000 1704261600000 ''team-1'' 1
     (initial_state [tied_event 1, tied_event 2])
     = \<lparr>table = [(tied_event 1)\<lparr>cost_total := Some 1\<rparr>, tied_event 2],
         updated = 1, processed = 2, errors = [], batches = 2, batch_offset = 2,
         fetched = [[tied_event 1], [(tied_event 1)\<lparr>cost_total := Some 1\<rparr>]]\<rparr>"
  apply (subst recalc_loop.simps)
  apply (simp add: example_defs tied_defs)
  apply (subst recalc_loop.simps)
  apply (simp add: example_defs tied_defs)
  apply (subst recalc_loop.simps)
  apply (simp add: example_defs tied_defs)
  done

text \<open>
  C9, as stated, fails. Two rows of one instant come back in the order the table has
  them, which is not the order of their composite keys. And when the database ranks
  rows of equal timestamp differently at the second fetch, the first row is fetched
  twice and the second one, which is in range, never, although the run does not time
  out.
\<close>

theorem timestamp_only_order_counterexample:
  "next_batch fast_env 1704110400000 1704261600000 ''team-1'' 1000
     (initial_state [tied_event 2, tied_event 1]) = [tied_event 2, tied_event 1]
   \<and> \<not> sorted (map composite_key
         (next_batch fast_env 1704110400000 1704261600000 ''team-1'' 1000
            (initial_state [tied_event 2, tied_event 1])))
   \<and> fetched (recalc_loop reordering_env 1704110400000 1704261600000 ''team-1'' 1
        (initial_state [tied_event 1, tied_event 2]))
       = [[tied_event 1], [(tied_event 1)\<lparr>cost_total := Some 1\<rparr>]]
   \<and> timeout_warning \<notin> set (errors (recalc_loop reordering_env 1704110400000
        1704261600000 ''team-1'' 1 (initial_state [tied_event 1, tied_event 2])))
   \<and> in_range 1704110400000 1704261600000 ''team-1'' (tied_event 2)"
proof -
  have batch: "next_batch fast_env 1704110400000 1704261600000 ''team-1'' 1000
     (initial_state [tied_event 2, tied_event 1]) = [tied_event 2, tied_event 1]"
    by (simp add: example_defs tied_defs)
  have unordered: "\<not> sorted (map composite_key [tied_event 2, tied_event 1])"
    by (simp add: composite_key_def tied_event_def example_event_def less_eq_prod_def)
  have twice: "fetched (recalc_loop reordering_env 1704110400000 1704261600000 ''team-1'' 1
        (initial_state [tied_event 1, tied_event 2]))
       = [[tied_event 1], [(tied_event 1)\<lparr>cost_total := Some 1\<rparr>]]"
    by (simp only: reordered_run) simp
  have finished: "timeout_warning \<notin> set (errors (recalc_loop reordering_env 1704110400000
        1704261600000 ''team-1'' 1 (initial_state [tied_event 1, tied_event 2])))"
    by (simp only: reordered_run) simp
  have inside: "in_range 1704110400000 1704261600000 ''team-1'' (tied_event 2)"
    by (simp add: in_range_def timestamptz_of_date_def tied_event_def example_event_def)
  show ?thesis
    using batch unordered twice finished inside by simp
qed

subsection \<open>Running the recalculation twice\<close>

lemma updateSql_Nil [simp]: "updateSql [] rows = rows"
  by (simp add: updateSql_def)

lemma next_batch_subset:
  "set (next_batch env startDate endDate team batch_size st)
     \<subseteq> {r \<in> set (table st). in_range startDate endDate team r}"
proof -
  have "set (next_batch env startDate endDate team batch_size st)
      \<subseteq> set (sort_key (\<lambda>r. (timestamp r, tie_break env (batches st) r))
               (filter (in_range startDate endDate team) (table st)))"
    unfolding next_batch_def selectSql_def
    by (meson set_take_subset set_drop_subset subset_trans)
  then show ?thesis by auto
qed

text \<open>A pass over rows that need no update writes nothing.\<close>

lemma process_batch_settled:
  assumes "\<forall>r \<in> set rows. \<not> needs_update env r"
  shows "table (process_batch env batch_size rows st) = table st"
    and "updated (process_batch env batch_size rows st) = updated st"
proof -
  have "filter (needs_update env) rows = []"
    using assms by (simp add: filter_empty_conv)
  then show "table (process_batch env batch_size rows st) = table st"
    and "updated (process_batch env batch_size rows st) = updated st"
    by (simp_all add: process_batch_def process_rows_result Let_def)
qed

text \<open>A run over a table whose rows in range need no update writes nothing.\<close>

lemma recalc_loop_settled:
  "(\<forall>r \<in> set (table st). in_range startDate endDate team r \<longrightarrow> \<not> needs_update env r) \<longrightarrow>
     table (recalc_loop env startDate endDate team batch_size st) = table st
     \<and> updated (recalc_loop env startDate endDate team batch_size st) = updated st"
proof (rule recalc_loop_rule [where P = "\<lambda>st final.
     (\<forall>r \<in> set (table st). in_range startDate endDate team r \<longrightarrow> \<not> needs_update env r) \<longrightarrow>
     table final = table st \<and> updated final = updated st"])
  fix st :: RecalcState
  show "(\<forall>r \<in> set (table st). in_range startDate endDate team r \<longrightarrow> \<not> needs_update env r) \<longrightarrow>
     table st = table st \<and> updated st = updated st"
    by simp
next
  fix st :: RecalcState
  define B where "B = next_batch env startDate endDate team batch_size st"
  have "table (process_batch env batch_size B st) = table st
      \<and> updated (process_batch env batch_size B st) = updated st"
    if "\<forall>r \<in> set (table st). in_range startDate endDate team r \<longrightarrow> \<not> needs_update env r"
  proof -
    have "\<forall>r \<in> set B. \<not> needs_update env r"
      using that next_batch_subset [of env startDate endDate team batch_size st]
      unfolding B_def by blast
    then show ?thesis by (simp add: process_batch_settled)
  qed
  then show "(\<forall>r \<in> set (table st). in_range startDate endDate team r \<longrightarrow> \<not> needs_update env r) \<longrightarrow>
     table (process_batch env batch_size
              (next_batch env startDate endDate team batch_size st) st
            \<lparr>errors := errors (process_batch env batch_size
                                 (next_batch env startDate endDate team batch_size st) st)
                          @ [timeout_warning]\<rparr>) = table st
     \<and> updated (process_batch env batch_size
              (next_batch env startDate endDate team batch_size st) st
            \<lparr>errors := errors (process_batch env batch_size
                                 (next_batch env startDate endDate team batch_size st) st)
                          @ [timeout_warning]\<rparr>) = updated st"
    unfolding B_def by simp
next
  fix st final :: RecalcState
  define B where "B = next_batch env startDate endDate team batch_size st"
  define st' where "st' = process_batch env batch_size B st"
  assume ih: "(\<forall>r \<in> set (table (process_batch env batch_size
                 (next_batch env startDate endDate team batch_size st) st)).
        in_range startDate endDate team r \<longrightarrow> \<not> needs_update env r) \<longrightarrow>
     table final = table (process_batch env batch_size
                 (next_batch env startDate endDate team batch_size st) st)
     \<and> updated final = updated (process_batch env batch_size
                 (next_batch env startDate endDate team batch_size st) st)"
  show "(\<forall>r \<in> set (table st). in_range startDate endDate team r \<longrightarrow> \<not> needs_update env r) \<longrightarrow>
     table final = table st \<and> updated final = updated st"
  proof
    assume settled: "\<forall>r \<in> set (table st).
        in_range startDate endDate team r \<longrightarrow> \<not> needs_update env r"
    have "\<forall>r \<in> set B. \<not> needs_update env r"
      using settled next_batch_subset [of env startDate endDate team batch_size st]
      unfolding B_def by blast
    then have same: "table st' = table st" "updated st' = updated st"
      unfolding st'_def by (simp_all add: process_batch_settled)
    then have "table final = table st' \<and> updated final = updated st'"
      using ih settled unfolding st'_def B_def by simp
    then show "table final = table st \<and> updated final = updated st"
      using same by simp
  qed
qed

lemma composite_key_strip [simp]: "composite_key (without_cost r) = composite_key r"
  by (simp add: composite_key_def without_cost_def)

lemma row_cost_cost_total [simp]: "row_cost env (r\<lparr>cost_total := c\<rparr>) = row_cost env r"
  by (simp add: row_cost_def)

lemma written_row_settled:
  "row_cost env r = Inr c \<Longrightarrow> \<not> needs_update env (r\<lparr>cost_total := Some c\<rparr>)"
  by (simp add: needs_update_def num_def)

lemma map_composite_key_without_cost:
  "map without_cost xs = map without_cost ys \<Longrightarrow> map composite_key xs = map composite_key ys"
proof -
  assume eq: "map without_cost xs = map without_cost ys"
  have "map composite_key zs = map composite_key (map without_cost zs)" for zs
    by simp
  then show ?thesis using eq by metis
qed

lemma whole_milliseconds_without_cost [simp]:
  "whole_milliseconds (without_cost r) = whole_milliseconds r"
  by (simp add: whole_milliseconds_def without_cost_def)

lemma whole_milliseconds_same:
  assumes same: "map without_cost tbl = map without_cost rows"
    and whole: "\<forall>r \<in> set rows. in_range startDate endDate team r \<longrightarrow> whole_milliseconds r"
  shows "\<forall>r \<in> set tbl. in_range startDate endDate team r \<longrightarrow> whole_milliseconds r"
proof (intro ballI impI)
  fix r
  assume r: "r \<in> set tbl" and inside: "in_range startDate endDate team r"
  have "without_cost r \<in> set (map without_cost tbl)"
    using r by simp
  then have "without_cost r \<in> set (map without_cost rows)"
    using same by simp
  then obtain x where x: "x \<in> set rows" "without_cost x = without_cost r"
    by auto
  have "in_range startDate endDate team x"
    using inside x(2) by (metis in_range_without_cost)
  then have "whole_milliseconds x" using whole x(1) by blast
  then show "whole_milliseconds r"
    using x(2) by (metis whole_milliseconds_without_cost)
qed

lemma next_batch_page:
  assumes ties: "stable_ties env"
    and same: "map without_cost (table st) = map without_cost rows"
  shows "map without_cost (next_batch env startDate endDate team batch_size st)
     = take batch_size (drop (batch_offset st)
         (rows_in_order env startDate endDate team rows))"
proof -
  have "map without_cost (next_batch env startDate endDate team batch_size st)
        = take batch_size (drop (batch_offset st)
            (map without_cost
               (sort_key (\<lambda>r. (timestamp r, tie_break env (batches st) r))
                  (filter (in_range startDate endDate team) (table st)))))"
    by (simp add: next_batch_def selectSql_def take_map drop_map)
  then show ?thesis
    by (simp only: stable_order [OF ties same])
qed

text \<open>
  One pass, when its write does not fail: the rows up to the end of the page need no
  update afterwards.
\<close>

lemma process_batch_settles:
  assumes ties: "stable_ties env"
    and keys: "distinct (map composite_key rows)"
    and whole: "\<forall>r \<in> set rows. in_range startDate endDate team r \<longrightarrow> whole_milliseconds r"
    and same: "map without_cost (table st) = map without_cost rows"
    and inv: "\<forall>r \<in> set (table st).
        without_cost r \<in> set (take (batch_offset st)
                                 (rows_in_order env startDate endDate team rows))
        \<longrightarrow> \<not> needs_update env r"
    and writes: "update_error env (batches st + 1) = None"
  shows "\<forall>r \<in> set (table (process_batch env batch_size
                           (next_batch env startDate endDate team batch_size st) st)).
        without_cost r \<in> set (take (batch_offset st + batch_size)
                                 (rows_in_order env startDate endDate team rows))
        \<longrightarrow> \<not> needs_update env r"
proof
  define Z where "Z = rows_in_order env startDate endDate team rows"
  define B where "B = next_batch env startDate endDate team batch_size st"
  define U where "U = map (update_of env) (filter (needs_update env) B)"
  fix r'
  assume r': "r' \<in> set (table (process_batch env batch_size
                           (next_batch env startDate endDate team batch_size st) st))"
  have tbl: "table (process_batch env batch_size B st) = updateSql U (table st)"
    using writes by (simp add: process_batch_def process_rows_result Let_def U_def)
  have "distinct (map composite_key (table st))"
    using keys map_composite_key_without_cost [OF same] by simp
  then have inj: "inj_on composite_key (set (table st))"
    by (simp add: distinct_map)
  have B_sub: "set B \<subseteq> set (table st)"
    using next_batch_subset [of env startDate endDate team batch_size st]
    unfolding B_def by blast
  have B_keys: "\<forall>b \<in> set B. update_key b = composite_key b"
    using next_batch_subset [of env startDate endDate team batch_size st]
      whole_milliseconds_same [OF same whole]
    unfolding B_def by (auto simp add: update_key_whole_milliseconds)
  have page: "map without_cost B = take batch_size (drop (batch_offset st) Z)"
    unfolding B_def Z_def by (rule next_batch_page [OF ties same])
  obtain r where r: "r \<in> set (table st)"
      and image: "r' = (case find (matches r) U of
                          None \<Rightarrow> r
                        | Some u \<Rightarrow> r\<lparr>cost_total := Some (new_cost u)\<rparr>)"
    using r' tbl unfolding B_def by (auto simp add: updateSql_def)
  show "without_cost r' \<in> set (take (batch_offset st + batch_size)
                                  (rows_in_order env startDate endDate team rows))
        \<longrightarrow> \<not> needs_update env r'"
  proof
    assume paged: "without_cost r' \<in> set (take (batch_offset st + batch_size)
                                  (rows_in_order env startDate endDate team rows))"
    show "\<not> needs_update env r'"
    proof (cases "find (matches r) U")
      case (Some u)
      then have "u \<in> set U" and m: "matches r u"
        by (auto simp add: find_Some_iff)
      then obtain b where b: "b \<in> set B" "needs_update env b" "u = update_of env b"
        unfolding U_def by auto
      have "composite_key r = composite_key b"
        using m b(1,3) B_keys by (simp add: matches_update_of)
      then have "r = b"
        using inj r b(1) B_sub by (meson inj_onD subsetD)
      obtain c where c: "row_cost env r = Inr c"
        using b(2) \<open>r = b\<close> by (auto simp add: needs_update_def split: sum.splits)
      have "new_cost u = c"
        using b(3) \<open>r = b\<close> c by (simp add: update_of_def)
      then have "r' = r\<lparr>cost_total := Some c\<rparr>"
        using image Some by simp
      then show ?thesis using written_row_settled [OF c] by simp
    next
      case None
      then have same_row: "r' = r" using image by simp
      have "take (batch_offset st + batch_size) Z
          = take (batch_offset st) Z @ take batch_size (drop (batch_offset st) Z)"
        by (simp add: take_add)
      then have "without_cost r \<in> set (take (batch_offset st) Z)
          \<or> without_cost r \<in> set (map without_cost B)"
        using paged same_row page unfolding Z_def by auto
      then show ?thesis
      proof
        assume "without_cost r \<in> set (take (batch_offset st) Z)"
        then show ?thesis using inv r same_row unfolding Z_def by blast
      next
        assume "without_cost r \<in> set (map without_cost B)"
        then obtain b where b: "b \<in> set B" "without_cost r = without_cost b"
          by auto
        have "composite_key r = composite_key b"
          using b(2) by (metis composite_key_strip)
        then have "r = b"
          using inj r b(1) B_sub by (meson inj_onD subsetD)
        show ?thesis
        proof
          assume "needs_update env r'"
          then have "update_of env r \<in> set U"
            using same_row \<open>r = b\<close> b(1) unfolding U_def by simp
          moreover have "matches r (update_of env r)"
            using \<open>r = b\<close> b(1) B_keys by (simp add: matches_update_of)
          ultimately have "find (matches r) U \<noteq> None"
            by (auto simp add: find_None_iff)
          then show False using None by simp
        qed
      qed
    qed
  qed
qed

text \<open>The rows that a run has paged over need no update, when no write fails.\<close>

lemma recalc_loop_settles:
  assumes ties: "stable_ties env"
    and keys: "distinct (map composite_key rows)"
    and whole: "\<forall>r \<in> set rows. in_range startDate endDate team r \<longrightarrow> whole_milliseconds r"
    and writes: "\<forall>n. update_error env n = None"
  shows "map without_cost (table st) = map without_cost rows
       \<and> (\<forall>r \<in> set (table st).
             without_cost r \<in> set (take (batch_offset st)
                                      (rows_in_order env startDate endDate team rows))
             \<longrightarrow> \<not> needs_update env r)
     \<longrightarrow> (\<forall>r \<in> set (table (recalc_loop env startDate endDate team batch_size st)).
             without_cost r
               \<in> set (take (batch_offset (recalc_loop env startDate endDate team batch_size st))
                         (rows_in_order env startDate endDate team rows))
             \<longrightarrow> \<not> needs_update env r)"
proof (rule recalc_loop_rule [where P = "\<lambda>st final.
     map without_cost (table st) = map without_cost rows
       \<and> (\<forall>r \<in> set (table st).
             without_cost r \<in> set (take (batch_offset st)
                                      (rows_in_order env startDate endDate team rows))
             \<longrightarrow> \<not> needs_update env r)
     \<longrightarrow> (\<forall>r \<in> set (table final).
             without_cost r \<in> set (take (batch_offset final)
                                      (rows_in_order env startDate endDate team rows))
             \<longrightarrow> \<not> needs_update env r)"])
  fix st :: RecalcState
  show "map without_cost (table st) = map without_cost rows
       \<and> (\<forall>r \<in> set (table st).
             without_cost r \<in> set (take (batch_offset st)
                                      (rows_in_order env startDate endDate team rows))
             \<longrightarrow> \<not> needs_update env r)
     \<longrightarrow> (\<forall>r \<in> set (table st).
             without_cost r \<in> set (take (batch_offset st)
                                      (rows_in_order env startDate endDate team rows))
             \<longrightarrow> \<not> needs_update env r)"
    by simp
next
  fix st :: RecalcState
  define st' where "st' = process_batch env batch_size
      (next_batch env startDate endDate team batch_size st) st"
  have "\<forall>r \<in> set (table st').
          without_cost r \<in> set (take (batch_offset st')
                                   (rows_in_order env startDate endDate team rows))
          \<longrightarrow> \<not> needs_update env r"
    if "map without_cost (table st) = map without_cost rows"
      and "\<forall>r \<in> set (table st).
             without_cost r \<in> set (take (batch_offset st)
                                      (rows_in_order env startDate endDate team rows))
             \<longrightarrow> \<not> needs_update env r"
    using process_batch_settles [OF ties keys whole that, of batch_size] writes
    by (simp add: st'_def)
  then show "map without_cost (table st) = map without_cost rows
       \<and> (\<forall>r \<in> set (table st).
             without_cost r \<in> set (take (batch_offset st)
                                      (rows_in_order env startDate endDate team rows))
             \<longrightarrow> \<not> needs_update env r)
     \<longrightarrow> (\<forall>r \<in> set (table (process_batch env batch_size
                 (next_batch env startDate endDate team batch_size st) st
              \<lparr>errors := errors (process_batch env batch_size
                                   (next_batch env startDate endDate team batch_size st) st)
                            @ [timeout_warning]\<rparr>)).
             without_cost r \<in> set (take (batch_offset (process_batch env batch_size
                 (next_batch env startDate endDate team batch_size st) st
              \<lparr>errors := errors (process_batch env batch_size
                                   (next_batch env startDate endDate team batch_size st) st)
                            @ [timeout_warning]\<rparr>))
                                      (rows_in_order env startDate endDate team rows))
             \<longrightarrow> \<not> needs_update env r)"
    unfolding st'_def by simp
next
  fix st final :: RecalcState
  define st' where "st' = process_batch env batch_size
      (next_batch env startDate endDate team batch_size st) st"
  assume ih: "map without_cost (table (process_batch env batch_size
                 (next_batch env startDate endDate team batch_size st) st))
         = map without_cost rows
       \<and> (\<forall>r \<in> set (table (process_batch env batch_size
                 (next_batch env startDate endDate team batch_size st) st)).
             without_cost r \<in> set (take (batch_offset (process_batch env batch_size
                 (next_batch env startDate endDate team batch_size st) st))
                                      (rows_in_order env startDate endDate team rows))
             \<longrightarrow> \<not> needs_update env r)
     \<longrightarrow> (\<forall>r \<in> set (table final).
             without_cost r \<in> set (take (batch_offset final)
                                      (rows_in_order env startDate endDate team rows))
             \<longrightarrow> \<not> needs_update env r)"
  show "map without_cost (table st) = map without_cost rows
       \<and> (\<forall>r \<in> set (table st).
             without_cost r \<in> set (take (batch_offset st)
                                      (rows_in_order env startDate endDate team rows))
             \<longrightarrow> \<not> needs_update env r)
     \<longrightarrow> (\<forall>r \<in> set (table final).
             without_cost r \<in> set (take (batch_offset final)
                                      (rows_in_order env startDate endDate team rows))
             \<longrightarrow> \<not> needs_update env r)"
  proof
    assume a: "map without_cost (table st) = map without_cost rows
       \<and> (\<forall>r \<in> set (table st).
             without_cost r \<in> set (take (batch_offset st)
                                      (rows_in_order env startDate endDate team rows))
             \<longrightarrow> \<not> needs_update env r)"
    then have same: "map without_cost (table st) = map without_cost rows"
      and inv: "\<forall>r \<in> set (table st).
             without_cost r \<in> set (take (batch_offset st)
                                      (rows_in_order env startDate endDate team rows))
             \<longrightarrow> \<not> needs_update env r"
      by blast+
    have same': "map without_cost (table st') = map without_cost rows"
      using same by (simp add: st'_def process_batch_without_cost)
    have inv': "\<forall>r \<in> set (table st').
          without_cost r \<in> set (take (batch_offset st')
                                   (rows_in_order env startDate endDate team rows))
          \<longrightarrow> \<not> needs_update env r"
      using process_batch_settles [OF ties keys whole same inv, of batch_size] writes
      by (simp add: st'_def)
    show "\<forall>r \<in> set (table final).
             without_cost r \<in> set (take (batch_offset final)
                                      (rows_in_order env startDate endDate team rows))
             \<longrightarrow> \<not> needs_update env r"
      using ih same' inv' unfolding st'_def by blast
  qed
qed

text \<open>A run that does not time out pages over every row in range.\<close>

lemma recalc_loop_covers:
  assumes ties: "stable_ties env"
    and positive: "0 < batch_size"
    and same: "map without_cost (table st) = map without_cost rows"
    and finished: "timeout_warning
        \<notin> set (errors (recalc_loop env startDate endDate team batch_size st))"
  shows "length (rows_in_order env startDate endDate team rows)
     \<le> batch_offset (recalc_loop env startDate endDate team batch_size st)"
proof -
  define final where "final = recalc_loop env startDate endDate team batch_size st"
  have same': "map without_cost (table final) = map without_cost rows"
    using recalc_loop_trace [of env startDate endDate team batch_size st] same
    unfolding final_def by auto
  have "next_batch env startDate endDate team batch_size final = []"
    using recalc_loop_end [of env startDate endDate team batch_size st] finished
    unfolding final_def by blast
  then have "map without_cost (next_batch env startDate endDate team batch_size final) = []"
    by simp
  then have "take batch_size (drop (batch_offset final)
         (rows_in_order env startDate endDate team rows)) = []"
    by (simp only: next_batch_page [OF ties same'])
  then show ?thesis
    using positive unfolding final_def by simp
qed

text \<open>
  After a complete run with stable ties and unique keys, no row in range needs an
  update.
\<close>

lemma first_run_settles:
  assumes ties: "stable_ties env"
    and keys: "distinct (map composite_key rows)"
    and whole: "\<forall>r \<in> set rows. in_range startDate endDate team r \<longrightarrow> whole_milliseconds r"
    and writes: "\<forall>n. update_error env n = None"
    and positive: "0 < batch_size"
    and finished: "timeout_warning
        \<notin> set (errors (recalc_loop env startDate endDate team batch_size
                          (initial_state rows)))"
  shows "\<forall>r \<in> set (table (recalc_loop env startDate endDate team batch_size
                              (initial_state rows))).
           in_range startDate endDate team r \<longrightarrow> \<not> needs_update env r"
proof (intro ballI impI)
  define st0 where "st0 = initial_state rows"
  define final where "final = recalc_loop env startDate endDate team batch_size st0"
  define Z where "Z = rows_in_order env startDate endDate team rows"
  fix r
  assume "r \<in> set (table (recalc_loop env startDate endDate team batch_size
                              (initial_state rows)))"
    and inside: "in_range startDate endDate team r"
  then have r: "r \<in> set (table final)" by (simp add: final_def st0_def)
  have init: "table st0 = rows" "batch_offset st0 = 0"
    by (simp_all add: st0_def initial_state_def)
  have same0: "map without_cost (table st0) = map without_cost rows"
    using init by simp
  have same: "map without_cost (table final) = map without_cost rows"
    using recalc_loop_trace [of env startDate endDate team batch_size st0] same0
    unfolding final_def by auto
  have inv: "\<forall>r \<in> set (table final).
        without_cost r \<in> set (take (batch_offset final) Z) \<longrightarrow> \<not> needs_update env r"
    using recalc_loop_settles [OF ties keys whole writes, of st0 batch_size]
      same0 init(2)
    unfolding final_def Z_def by simp
  have "length Z \<le> batch_offset final"
    using finished
    unfolding final_def Z_def st0_def [symmetric]
    by (intro recalc_loop_covers [OF ties positive same0])
  then have all: "take (batch_offset final) Z = Z" by simp
  have "without_cost r \<in> set (map without_cost (table final))"
    using r by simp
  then have "without_cost r \<in> set (map without_cost rows)"
    using same by simp
  then obtain x where x: "x \<in> set rows" "without_cost x = without_cost r"
    by auto
  have "in_range startDate endDate team x"
    using inside x(2) by (metis in_range_without_cost)
  then have "x \<in> set (sort_key (\<lambda>r. (timestamp r, tie_break env 0 r))
                        (filter (in_range startDate endDate team) rows))"
    using x(1) by simp
  then have "without_cost x \<in> set Z"
    unfolding Z_def rows_in_order_def by (simp only: set_map image_eqI)
  then have "without_cost r \<in> set Z"
    using x(2) by simp
  then show "\<not> needs_update env r"
    using inv r all by simp
qed

lemma needs_update_pricing:
  "calculateCostSync env2 = calculateCostSync env1 \<Longrightarrow>
   needs_update env2 r = needs_update env1 r"
  by (simp add: needs_update_def row_cost_def)

lemma needs_update_iff:
  "needs_update env r \<longleftrightarrow>
     (\<exists>newCost. row_cost env r = Inr newCost
        \<and> \<bar>newCost - num (cost_total r)\<bar> > 1 / 1000000)"
  by (auto simp add: needs_update_def split: sum.splits)


lemma after_reordered_run:
  "recalc_loop fast_env 1704110400000 1704261600000 ''team-1'' 5
     (initial_state [(tied_event 1)\<lparr>cost_total := Some 1\<rparr>, tied_event 2])
   = \<lparr>table = [(tied_event 1)\<lparr>cost_total := Some 1\<rparr>,
                (tied_event 2)\<lparr>cost_total := Some 1\<rparr>],
       updated = 1, processed = 2, errors = [], batches = 1, batch_offset = 5,
       fetched = [[(tied_event 1)\<lparr>cost_total := Some 1\<rparr>, tied_event 2]]\<rparr>"
  apply (subst recalc_loop.simps)
  apply (simp add: example_defs tied_defs)
  apply (subst recalc_loop.simps)
  apply (simp add: example_defs tied_defs)
  done

lemma precise_run:
  "recalc_loop fast_env 1704110400000 1704261600000 ''team-1'' 5
     (initial_state [precise_event])
   = \<lparr>table = [precise_event],
       updated = 1, processed = 1, errors = [], batches = 1, batch_offset = 5,
       fetched = [[precise_event]]\<rparr>"
  apply (subst recalc_loop.simps)
  apply (simp add: example_defs precise_event_def)
  apply (subst recalc_loop.simps)
  apply (simp add: example_defs precise_event_def)
  done

lemma example_request_run:
  "connect_error env ''team-1'' = None \<Longrightarrow> pricing_load_error env = None \<Longrightarrow>
   recalculate_costs env (example_recalc_request n) rows
     = (recalculation_response env 1704110400000 1704261600000
          (recalc_loop env 1704110400000 1704261600000 ''team-1'' n (initial_state rows)),
        table (recalc_loop env 1704110400000 1704261600000 ''team-1'' n (initial_state rows)))"
  by (simp add: recalculate_costs_def example_recalc_request_def Let_def)

lemma example_envs_up:
  "connect_error fast_env ''team-1'' = None" "pricing_load_error fast_env = None"
  "connect_error slow_env ''team-1'' = None" "pricing_load_error slow_env = None"
  "connect_error reordering_env ''team-1'' = None" "pricing_load_error reordering_env = None"
  by (simp_all add: fast_env_def slow_env_def reordering_env_def)


lemma fast_env_never_late: "\<forall>k. \<not> deadline_exceeded fast_env k"
  by (simp add: deadline_exceeded_def fast_env_def min_def)

lemma fast_env_writes: "\<forall>n. update_error fast_env n = None"
  by (simp add: fast_env_def slow_env_def)

lemma five_events_keys: "distinct (map composite_key five_events)"
  by (simp add: five_events_def example_event_def composite_key_def)

lemma five_events_whole:
  "\<forall>r \<in> set five_events.
     in_range 1704110400000 1704261600000 (team_id \<lparr>team_id = ''team-1''\<rparr>) r
       \<longrightarrow> whole_milliseconds r"
  by (simp add: five_events_def example_event_def whole_milliseconds_def)


end
